(* ===== verification/Prelude.thy ===== *)
theory Prelude
  imports Main "HOL-Library.Word"
begin

text \<open>
  Shared vocabulary of the development: the machine types of the C sources, the faults a C
  program can run into, the model of the allocator, the parts of the C library the sources use
  (string.h, stdio.h number formatting, the clz builtins), the theorem collections and the generic
  lemmas on lists and machine words that the component theories rely on.

  Bytes are the library type of 8-bit characters, so that a byte buffer is a \<^typ>\<open>string\<close> and
  the literals of the sources can be written as literals. A C string (NUL-terminated) is the
  list of its bytes without the terminator; a nullable pointer to one is an option.
\<close>

unbundle bit_operations_syntax

section \<open>Theorem collections\<close>

named_theorems cstr_simps \<open>rewriting facts on growing byte strings\<close>
named_theorems clib_simps \<open>the C library functions on concrete or structured input\<close>
named_theorems inv_intros \<open>operations keep their component's invariant\<close>

section \<open>Machine types and faults\<close>

type_synonym size_t = "64 word"
type_synonym addr = "64 word"
type_synonym bytes = "char list"
type_synonym time_t = int

abbreviation NUL :: char where
  "NUL \<equiv> CHR 0x00"

text \<open>What undefined behaviour or an abort of the C program is in the model.\<close>

datatype c_fault = NullDeref | OutOfBounds | UseAfterFree | DoubleFree | Aborted | Exited

type_synonym 'a c_result = "c_fault + 'a"

definition c_bind :: "'a c_result \<Rightarrow> ('a \<Rightarrow> 'b c_result) \<Rightarrow> 'b c_result" where
  "c_bind x f = (case x of Inl e \<Rightarrow> Inl e | Inr a \<Rightarrow> f a)"

lemma c_bind_simps [simp]:
  "c_bind (Inl e) f = Inl e"
  "c_bind (Inr a) f = f a"
  by (simp_all add: c_bind_def)

lemma c_bind_Inr_iff: "c_bind x f = Inr b \<longleftrightarrow> (\<exists>a. x = Inr a \<and> f a = Inr b)"
  by (cases x) simp_all

text \<open>Code that may also run forever: not returning is the value None.\<close>

type_synonym 'a c_run = "'a c_result option"

definition r_bind :: "'a c_run \<Rightarrow> ('a \<Rightarrow> 'b c_run) \<Rightarrow> 'b c_run" where
  "r_bind x f = (case x of None \<Rightarrow> None | Some (Inl e) \<Rightarrow> Some (Inl e) | Some (Inr a) \<Rightarrow> f a)"

abbreviation r_return :: "'a \<Rightarrow> 'a c_run" where
  "r_return x \<equiv> Some (Inr x)"

text \<open>An operation that always returns, among others that may not.\<close>

definition run_r :: "'a c_result \<Rightarrow> 'a c_run" where
  "run_r x = Some x"

lemma r_bind_simps [simp]:
  "r_bind None f = None"
  "r_bind (Some (Inl e)) f = Some (Inl e)"
  "r_bind (r_return a) f = f a"
  by (simp_all add: r_bind_def)

lemma r_bind_assoc: "r_bind (r_bind x f) g = r_bind x (\<lambda>a. r_bind (f a) g)"
  by (simp add: r_bind_def split: option.split sum.split)

lemma r_bind_return_iff: "r_bind x f = r_return b \<longleftrightarrow> (\<exists>a. x = r_return a \<and> f a = r_return b)"
  by (auto simp: r_bind_def split: option.splits sum.splits)

lemma r_bind_mono [partial_function_mono]:
  assumes "mono_option B" and "\<And>y. mono_option (\<lambda>f. C y f)"
  shows "mono_option (\<lambda>f. r_bind (B f) (\<lambda>y. C y f))"
proof (rule monotoneI, goal_cases)
  case fg: (1 f g)
  have "option_ord (B f) (B g)" using assms(1) fg unfolding monotone_on_def by simp
  then consider "B f = None" | "B f = B g" by (auto simp: flat_ord_def)
  then show ?case
  proof cases
    case 1
    then show ?thesis by (simp add: flat_ord_def)
  next
    case 2
    have "option_ord (C y f) (C y g)" for y using assms(2) fg unfolding monotone_on_def by simp
    with 2 show ?thesis by (auto simp: r_bind_def flat_ord_def split: option.splits sum.splits)
  qed
qed

section \<open>Operations that end\<close>

text \<open>An operation comes to an end: it returns something with a property, or a fatal error ends the program in an orderly way.\<close>

definition runs_to :: "'a c_run \<Rightarrow> ('a \<Rightarrow> bool) \<Rightarrow> bool" where
  "runs_to r P \<longleftrightarrow> (case r of Some (Inr x) \<Rightarrow> P x | Some (Inl e) \<Rightarrow> e = Exited | None \<Rightarrow> False)"

lemma runs_to_simps [simp]:
  "runs_to (r_return x) P \<longleftrightarrow> P x"
  "runs_to (Some (Inl e)) P \<longleftrightarrow> e = Exited"
  "\<not> runs_to None P"
  by (simp_all add: runs_to_def)

lemma runs_to_iff: "runs_to r P \<longleftrightarrow> (\<exists>x. r = r_return x \<and> P x) \<or> r = Some (Inl Exited)"
  by (auto simp: runs_to_def split: option.split sum.split)

lemma runs_to_returns: "runs_to r P \<Longrightarrow> r = r_return x \<Longrightarrow> P x"
  by simp

lemma runs_to_bind: "runs_to r P \<Longrightarrow> (\<And>x. P x \<Longrightarrow> runs_to (f x) Q) \<Longrightarrow> runs_to (r_bind r f) Q"
  unfolding runs_to_iff [of r] by auto

lemma runs_to_mono: "runs_to r P \<Longrightarrow> (\<And>x. P x \<Longrightarrow> Q x) \<Longrightarrow> runs_to r Q"
  by (auto simp: runs_to_iff)

lemma runs_to_run_r [simp]:
  "runs_to (run_r (Inr x)) P \<longleftrightarrow> P x"
  "runs_to (run_r (Inl e)) P \<longleftrightarrow> e = Exited"
  by (simp_all add: run_r_def)

lemma runs_to_c_bind: "runs_to (run_r r) P \<Longrightarrow> (\<And>x. P x \<Longrightarrow> runs_to (run_r (f x)) Q) \<Longrightarrow> runs_to (run_r (c_bind r f)) Q"
  by (cases r) auto

section \<open>The allocator\<close>

text \<open>
  malloc, calloc and realloc may fail. Whether a request of a given size is granted while an
  operation runs is decided by the allocator the operation is given; the bytes of fresh memory are
  indeterminate, that is, whatever the allocator says they are.
\<close>

record allocator =
  al_ok :: "size_t \<Rightarrow> bool"
  al_junk :: "nat \<Rightarrow> char"

text \<open>The allocators that grant every request and none, for examples.\<close>

abbreviation total_allocator :: allocator where
  "total_allocator \<equiv> \<lparr>al_ok = (\<lambda>_. True), al_junk = (\<lambda>_. NUL)\<rparr>"

abbreviation empty_allocator :: allocator where
  "empty_allocator \<equiv> \<lparr>al_ok = (\<lambda>_. False), al_junk = (\<lambda>_. NUL)\<rparr>"

definition realloc :: "allocator \<Rightarrow> bytes option \<Rightarrow> size_t \<Rightarrow> bytes option" where
  "realloc al old n =
     (if al_ok al n
      then Some (case old of
          None \<Rightarrow> map (al_junk al) [0..<unat n]
        | Some b \<Rightarrow> take (unat n) b @ map (al_junk al) [length b..<unat n])
      else None)"

definition memcpy_at :: "bytes \<Rightarrow> nat \<Rightarrow> bytes \<Rightarrow> bytes" where
  "memcpy_at b off d = take off b @ d @ drop (off + length d) b"

lemma length_realloc: "realloc al old n = Some b \<Longrightarrow> length b = unat n"
  by (auto simp: realloc_def split: if_splits option.splits)

lemma take_realloc:
  "realloc al (Some b0) n = Some b \<Longrightarrow> k \<le> length b0 \<Longrightarrow> k \<le> unat n \<Longrightarrow> take k b = take k b0"
  by (auto simp: realloc_def min_def split: if_splits)

lemma length_memcpy_at [simp]: "off + length d \<le> length b \<Longrightarrow> length (memcpy_at b off d) = length b"
  by (simp add: memcpy_at_def)

lemma take_memcpy_at:
  "off + length d \<le> length b \<Longrightarrow> take (off + length d) (memcpy_at b off d) = take off b @ d"
  by (simp add: memcpy_at_def)

section \<open>Leading zeros\<close>

fun bit_length :: "nat \<Rightarrow> nat" where
  "bit_length n = (if n = 0 then 0 else Suc (bit_length (n div 2)))"

declare bit_length.simps [simp del]

lemma bit_length_0 [simp]: "bit_length 0 = 0"
  by (simp add: bit_length.simps)

lemma bit_length_pos: "0 < n \<Longrightarrow> bit_length n = Suc (bit_length (n div 2))"
  by (subst bit_length.simps) simp

lemma bit_length_upper: "n < 2 ^ bit_length n"
proof (induction n rule: bit_length.induct)
  case (1 n)
  show ?case
  proof (cases "n = 0")
    case False
    with 1 have "n div 2 < 2 ^ bit_length (n div 2)" by simp
    with False show ?thesis by (simp add: bit_length_pos)
  qed simp
qed

lemma bit_length_lower: "0 < n \<Longrightarrow> 2 ^ (bit_length n - 1) \<le> n"
proof (induction n rule: bit_length.induct)
  case (1 n)
  show ?case
  proof (cases "n div 2 = 0")
    case True
    with 1 show ?thesis by (simp add: bit_length_pos)
  next
    case False
    then have "0 < n div 2" and l: "bit_length (n div 2) = Suc (bit_length (n div 2 div 2))"
      by (simp, metis bit_length_pos neq0_conv)
    then have "2 ^ (bit_length (n div 2) - 1) \<le> n div 2" using 1 by simp
    then have "2 * 2 ^ (bit_length (n div 2) - 1) \<le> n" by simp
    with l 1(2) show ?thesis by (simp add: bit_length_pos [of n])
  qed
qed

lemma bit_length_le: "n \<le> 2 ^ k - 1 \<Longrightarrow> bit_length n \<le> k"
proof (rule ccontr)
  assume n: "n \<le> 2 ^ k - 1" and "\<not> bit_length n \<le> k"
  then have k: "k \<le> bit_length n - 1" and pos: "0 < n" by (auto intro: gr0I)
  have "(2::nat) ^ k \<le> 2 ^ (bit_length n - 1)" using k by (simp add: power_increasing)
  also have "\<dots> \<le> n" using pos by (rule bit_length_lower)
  finally have "2 ^ k \<le> n" .
  moreover have "(0::nat) < 2 ^ k" by simp
  ultimately show False using n by linarith
qed

text \<open>The compiler builtins clz and clzl, which the sources only call on nonzero words.\<close>

definition clz :: "'a::len word \<Rightarrow> nat" where
  "clz w = LENGTH('a) - bit_length (unat w)"

section \<open>C strings\<close>

text \<open>strcmp, strcasecmp and strncmp are only ever compared with 0 in the sources.\<close>

definition strcmp0 :: "string \<Rightarrow> string \<Rightarrow> bool" where
  "strcmp0 a b \<longleftrightarrow> a = b"

definition tolower :: "char \<Rightarrow> char" where
  "tolower c = (let n = (of_char c :: nat)
     in if 65 \<le> n \<and> n \<le> 90 then char_of (n + 32) else c)"

definition strcasecmp0 :: "string \<Rightarrow> string \<Rightarrow> bool" where
  "strcasecmp0 a b \<longleftrightarrow> map tolower a = map tolower b"

definition strncmp0 :: "string \<Rightarrow> string \<Rightarrow> nat \<Rightarrow> bool" where
  "strncmp0 a b n \<longleftrightarrow> take n a = take n b"

text \<open>The C string at the beginning of a block.\<close>

definition c_string :: "bytes \<Rightarrow> string" where
  "c_string b = takeWhile (\<lambda>c. c \<noteq> NUL) b"

text \<open>strchrnul, strchr and strrchr on a C string, as offsets in it.\<close>

definition strchrnul :: "bytes \<Rightarrow> char \<Rightarrow> nat" where
  "strchrnul s c = length (takeWhile (\<lambda>x. x \<noteq> c) s)"

definition strchr :: "bytes \<Rightarrow> char \<Rightarrow> nat option" where
  "strchr s c = (if c \<in> set s then Some (strchrnul s c) else None)"

definition strrchr :: "bytes \<Rightarrow> char \<Rightarrow> nat option" where
  "strrchr s c = (if c \<in> set s then Some (length s - 1 - strchrnul (rev s) c) else None)"

definition strcspn :: "string \<Rightarrow> string \<Rightarrow> nat" where
  "strcspn s reject = length (takeWhile (\<lambda>c. c \<notin> set reject) s)"

text \<open>strchr also finds the terminator, which is why it is asked for single bytes here.\<close>

definition strchr_hit :: "string \<Rightarrow> char \<Rightarrow> bool" where
  "strchr_hit s c \<longleftrightarrow> c = NUL \<or> c \<in> set s"

lemma strncmp0_prefix: "strncmp0 p s (length p) \<longleftrightarrow> (\<exists>rest. s = p @ rest)"
proof
  assume "strncmp0 p s (length p)"
  then have "take (length p) s = p" by (simp add: strncmp0_def)
  then have "s = p @ drop (length p) s" by (metis append_take_drop_id)
  then show "\<exists>rest. s = p @ rest" ..
qed (auto simp: strncmp0_def)

lemma strcasecmp0_refl [simp]: "strcasecmp0 a a"
  by (simp add: strcasecmp0_def)

lemma strcasecmp0_sym: "strcasecmp0 a b = strcasecmp0 b a"
  by (auto simp: strcasecmp0_def)

lemma strcasecmp0_trans: "strcasecmp0 a b \<Longrightarrow> strcasecmp0 b c \<Longrightarrow> strcasecmp0 a c"
  by (simp add: strcasecmp0_def)

section \<open>Number formatting\<close>

text \<open>The decimal conversions \<^verbatim>\<open>%u\<close> and \<^verbatim>\<open>%zu\<close> of printf.\<close>

definition digit_char :: "nat \<Rightarrow> char" where
  "digit_char d = char_of (48 + d)"

fun dec_string :: "nat \<Rightarrow> string" where
  "dec_string n = (if n < 10 then [digit_char n] else dec_string (n div 10) @ [digit_char (n mod 10)])"

declare dec_string.simps [simp del]

lemma dec_string_nonempty [simp]: "dec_string n \<noteq> []"
  by (subst dec_string.simps) simp

lemma length_dec_string_le: "n < 10 ^ k \<Longrightarrow> 0 < k \<Longrightarrow> length (dec_string n) \<le> k"
proof (induction n arbitrary: k rule: dec_string.induct)
  case (1 n)
  show ?case
  proof (cases "n < 10")
    case True
    with 1 show ?thesis by (subst dec_string.simps) simp
  next
    case False
    with "1.prems"(1) have "k \<noteq> 1" by auto
    with "1.prems"(2) obtain j where k: "k = Suc j" and "0 < j"
      by (cases k) auto
    with "1.prems" have "n div 10 < 10 ^ j" by (simp add: less_mult_imp_div_less mult.commute)
    with False 1 \<open>0 < j\<close> have "length (dec_string (n div 10)) \<le> j" by simp
    with False k show ?thesis by (subst dec_string.simps) simp
  qed
qed

section \<open>Machine words\<close>

lemma unat_add_fits: "unat (a :: size_t) + unat b < 2 ^ 64 \<Longrightarrow> unat (a + b) = unat a + unat b"
  by (simp add: unat_word_ariths)

lemma unat_of_nat_fits: "n < 2 ^ 64 \<Longrightarrow> unat (of_nat n :: size_t) = n"
  by (simp add: unat_of_nat)

lemma unat_plus_of_nat: "unat (a :: size_t) + n < 2 ^ 64 \<Longrightarrow> unat (a + of_nat n) = unat a + n"
  by (simp add: unat_add_fits unat_of_nat_fits)

lemma sint_small: "unat (a :: size_t) < 2 ^ 63 \<Longrightarrow> sint a = int (unat a)"
proof -
  assume "unat a < 2 ^ 63"
  then have "uint a < 2 ^ 63"
    unfolding uint_nat by (simp only: of_nat_less_numeral_power_cancel_iff)
  moreover have "- (2 ^ 63) \<le> (0 :: int)" by simp
  then have "- (2 ^ 63) \<le> uint a" by (rule order_trans) (rule unsigned_greater_eq)
  ultimately show ?thesis unfolding sint_uint by (subst signed_take_bit_int_eq_self) simp_all
qed

section \<open>Lists\<close>

lemma append_singleton_fun [simp]: "(@) [x] = (#) x"
  by (rule ext) simp

lemma foldl_append_concat: "foldl (@) xs yss = xs @ concat yss"
  by (induction yss arbitrary: xs) simp_all

lemma take_add_drop: "take (m + n) xs = take m xs @ take n (drop m xs)"
  by (simp add: take_add)

end
