(* ===== verification/CString.thy ===== *)
theory CString
  imports Prelude
begin

text \<open>
  The growing byte string of \<^verbatim>\<open>src/util/string.c\<close> and \<^verbatim>\<open>src/util/string.h\<close>.

  A string is a nullable block and the number of its bytes in use; how many bytes the block has is
  not stored but recomputed from the size by \<open>string_allocated\<close>. The invariant \<open>string_ok\<close> says
  that the block has at least as many bytes as that recomputation claims, which is what makes the
  unchecked copies of the operations stay inside the block. \<open>string_bytes\<close> is the content.

  The interface the other components use is the locale \<open>byte_sink\<close>; the string is an instance.
  The last section escapes text for JSON (\<open>string_append_json_string\<close>).
\<close>

section \<open>The type and its operations\<close>

record n2k_string =
  str_buf :: "bytes option"
  str_size :: size_t

definition N2K_STRING_INITIALIZER :: n2k_string where
  "N2K_STRING_INITIALIZER = \<lparr>str_buf = None, str_size = 0\<rparr>"

definition string_init :: "n2k_string \<Rightarrow> int \<times> n2k_string" where
  "string_init _ = (0, N2K_STRING_INITIALIZER)"

definition string_done :: "n2k_string \<Rightarrow> n2k_string" where
  "string_done _ = \<lparr>str_buf = None, str_size = 0\<rparr>"

definition string_size :: "n2k_string \<Rightarrow> size_t" where
  "string_size s = str_size s"

definition STRING_MIN_SIZE :: size_t where
  "STRING_MIN_SIZE = 4096"

text \<open>
  The shift of next\_pow2 is a shift of a 32-bit one, so its count is taken modulo 32, as the
  x86-64 shift instruction does; the C standard leaves counts of 32 and more undefined.
\<close>

definition shl_unsigned :: "32 word \<Rightarrow> nat \<Rightarrow> 32 word" where
  "shl_unsigned x n = push_bit (n mod 32) x"

definition next_pow2 :: "size_t \<Rightarrow> size_t" where
  "next_pow2 x = (if x \<noteq> 0 \<and> x - 1 \<noteq> 0 then ucast (shl_unsigned 1 (64 - clz (x - 1))) else 1)"

definition string_allocated :: "n2k_string \<Rightarrow> size_t" where
  "string_allocated s =
     (if str_buf s = None then 0
      else if str_size s < STRING_MIN_SIZE then STRING_MIN_SIZE
      else next_pow2 (str_size s))"

definition string_grow :: "allocator \<Rightarrow> n2k_string \<Rightarrow> size_t \<Rightarrow> size_t \<times> n2k_string" where
  "string_grow al s delta =
     (let new_size = str_size s + delta;
          new_allocated_size = next_pow2 new_size
      in if \<not> string_allocated s < new_allocated_size then (string_allocated s, s)
         else let new_allocated = max new_allocated_size STRING_MIN_SIZE
              in case realloc al (str_buf s) new_allocated of
                   None \<Rightarrow> (string_allocated s, s)
                 | Some new_buf \<Rightarrow> (new_allocated, s\<lparr>str_buf := Some new_buf\<rparr>))"

definition string_append :: "allocator \<Rightarrow> n2k_string \<Rightarrow> bytes \<Rightarrow> int \<times> n2k_string" where
  "string_append al s data =
     (let data_size = of_nat (length data);
          (new_size, s1) = string_grow al s data_size
      in if new_size < str_size s1 + data_size then (-1, s1)
         else (0, s1\<lparr>str_buf := map_option (\<lambda>b. memcpy_at b (unat (str_size s1)) data) (str_buf s1),
                     str_size := str_size s1 + data_size\<rparr>))"

definition string_append_string :: "allocator \<Rightarrow> n2k_string \<Rightarrow> string \<Rightarrow> int \<times> n2k_string" where
  "string_append_string al s data = string_append al s data"

text \<open>The caller guarantees that there is a byte to erase; otherwise it writes out of the block.\<close>

definition string_pop_back :: "n2k_string \<Rightarrow> n2k_string c_result" where
  "string_pop_back s =
     (case str_buf s of
        None \<Rightarrow> Inl NullDeref
      | Some b \<Rightarrow>
          if str_size s = 0 then Inl OutOfBounds
          else Inr (s\<lparr>str_buf := Some (b[unat (str_size s - 1) := NUL]), str_size := str_size s - 1\<rparr>))"

text \<open>
  vsnprintf writes at most \<open>available - 1\<close> bytes of the formatted text \<open>out\<close> and a terminator, and
  nothing at all when no byte is available.
\<close>

definition vsnprintf_at :: "bytes option \<Rightarrow> nat \<Rightarrow> size_t \<Rightarrow> bytes \<Rightarrow> bytes option" where
  "vsnprintf_at buf off available out =
     (if available = 0 then buf
      else map_option (\<lambda>b. memcpy_at b off (take (unat available - 1) out @ [NUL])) buf)"

text \<open>
  The retry loop of string\_printf, over the text that the format produces. Not returning is the
  value \<^term>\<open>None\<close>. \<open>initial_len\<close> is the size at the call, which the loop never changes before it
  is done.
\<close>

partial_function (option) string_printf_loop ::
  "allocator \<Rightarrow> size_t \<Rightarrow> n2k_string \<Rightarrow> bytes \<Rightarrow> (int \<times> n2k_string) c_result option" where
  "string_printf_loop al initial_len s out =
     (let available = string_allocated s - str_size s;
          printf_rc = of_nat (length out);
          s1 = s\<lparr>str_buf := vsnprintf_at (str_buf s) (unat (str_size s)) available out\<rparr>
      in if available > printf_rc + 1
         then Some (Inr (int (length out), s1\<lparr>str_size := str_size s1 + printf_rc\<rparr>))
         else let (new_len, s2) = string_grow al s1 (initial_len + printf_rc)
              in if new_len = initial_len
                 then (case str_buf s2 of
                         None \<Rightarrow> Some (Inl NullDeref)
                       | Some b \<Rightarrow> Some (Inr (-1, s2\<lparr>str_buf := Some (b[unat initial_len := NUL])\<rparr>)))
                 else string_printf_loop al initial_len s2 out)"

definition string_printf :: "allocator \<Rightarrow> n2k_string \<Rightarrow> bytes \<Rightarrow> (int \<times> n2k_string) c_result option" where
  "string_printf al s out = string_printf_loop al (str_size s) s out"

section \<open>Invariant and content\<close>

definition string_ok :: "n2k_string \<Rightarrow> bool" where
  "string_ok s \<longleftrightarrow>
     (case str_buf s of
        None \<Rightarrow> str_size s = 0
      | Some b \<Rightarrow> unat (string_allocated s) \<le> length b \<and> unat (str_size s) \<le> 2 ^ 31)"

definition string_bytes :: "n2k_string \<Rightarrow> bytes" where
  "string_bytes s = (case str_buf s of None \<Rightarrow> [] | Some b \<Rightarrow> take (unat (str_size s)) b)"

text \<open>How much more a string may take: beyond 2 GiB the capacity computation breaks.\<close>

definition string_fits :: "n2k_string \<Rightarrow> nat \<Rightarrow> bool" where
  "string_fits s n \<longleftrightarrow> unat (str_size s) + n \<le> 2 ^ 31"

section \<open>Capacities\<close>

lemma unat_shl_unsigned_1: "n < 32 \<Longrightarrow> unat (shl_unsigned 1 n) = 2 ^ n"
proof -
  assume n: "n < 32"
  then have "(2::nat) ^ n < 2 ^ 32" by (intro power_strict_increasing) simp_all
  with n show ?thesis
    unfolding shl_unsigned_def unsigned_push_bit_eq by (simp add: push_bit_eq_mult take_bit_eq_mod)
qed

lemma unat_le_1: "\<not> 1 < unat (x :: size_t) \<Longrightarrow> x = 0 \<or> x = 1"
  using unsigned_word_eqI [of x 0, where 'a = nat] unsigned_word_eqI [of x 1, where 'a = nat]
  by (auto simp: not_less le_Suc_eq)

lemma unat_ucast_size: "unat (ucast (w :: 32 word) :: size_t) = unat w"
proof -
  have "unat w < 2 ^ LENGTH(32)" by (rule unsigned_less)
  then show ?thesis by (simp add: unsigned_ucast_eq take_bit_eq_mod)
qed

lemma next_pow2_small: "x = 0 \<or> x = 1 \<Longrightarrow> next_pow2 x = 1"
  by (auto simp: next_pow2_def)

lemma next_pow2_bit_length:
  assumes "1 < unat x" and "unat x \<le> 2 ^ 31"
  shows "unat (next_pow2 x) = 2 ^ bit_length (unat x - 1)" and "bit_length (unat x - 1) \<le> 31"
proof -
  have x: "x \<noteq> 0" "x - 1 \<noteq> 0" using assms(1) by auto
  have u: "unat (x - 1) = unat x - 1" using x by (simp add: unat_minus_one)
  have "unat x - 1 \<le> 2 ^ 31 - 1" using assms(2) by linarith
  then show bl: "bit_length (unat x - 1) \<le> 31" by (rule bit_length_le)
  then have s: "64 - clz (x - 1) = bit_length (unat x - 1)" by (simp add: clz_def u)
  have "unat (shl_unsigned 1 (bit_length (unat x - 1))) = 2 ^ bit_length (unat x - 1)"
    using bl by (intro unat_shl_unsigned_1) linarith
  then show "unat (next_pow2 x) = 2 ^ bit_length (unat x - 1)"
    using x s by (simp add: next_pow2_def unat_ucast_size)
qed

lemma bit_length_mono: "m \<le> n \<Longrightarrow> bit_length m \<le> bit_length n"
proof -
  assume "m \<le> n"
  also have "n \<le> 2 ^ bit_length n - 1" using bit_length_upper [of n] by linarith
  finally show ?thesis by (rule bit_length_le)
qed

lemma next_pow2_ge: "unat x \<le> 2 ^ 31 \<Longrightarrow> unat x \<le> unat (next_pow2 x)"
proof (cases "1 < unat x")
  case True
  assume "unat x \<le> 2 ^ 31"
  with True have "unat (next_pow2 x) = 2 ^ bit_length (unat x - 1)" by (rule next_pow2_bit_length(1))
  then show ?thesis using bit_length_upper [of "unat x - 1"] by linarith
next
  case False
  then have "x = 0 \<or> x = 1" by (rule unat_le_1)
  then show ?thesis by (auto simp: next_pow2_small)
qed

lemma next_pow2_pos: "unat x \<le> 2 ^ 31 \<Longrightarrow> 1 \<le> unat (next_pow2 x)"
  using next_pow2_ge [of x] by (cases "x = 0") (auto simp: next_pow2_small unsigned_eq_0_iff Suc_le_eq
      intro!: gr0I)

lemma next_pow2_mono:
  assumes "unat x \<le> unat y" and "unat y \<le> 2 ^ 31"
  shows "unat (next_pow2 x) \<le> unat (next_pow2 y)"
proof (cases "1 < unat x")
  case True
  have "bit_length (unat x - 1) \<le> bit_length (unat y - 1)"
    using assms(1) by (intro bit_length_mono) linarith
  then show ?thesis using True assms by (simp add: next_pow2_bit_length power_increasing)
next
  case False
  then have "x = 0 \<or> x = 1" by (rule unat_le_1)
  then show ?thesis using next_pow2_pos [OF assms(2)] by (auto simp: next_pow2_small)
qed

lemma next_pow2_le: "unat x \<le> 2 ^ 31 \<Longrightarrow> unat (next_pow2 x) \<le> 2 ^ 31"
proof (cases "1 < unat x")
  case True
  assume x: "unat x \<le> 2 ^ 31"
  have "(2::nat) ^ bit_length (unat x - 1) \<le> 2 ^ 31"
    using next_pow2_bit_length(2) [OF True x] by (intro power_increasing) simp_all
  then show ?thesis unfolding next_pow2_bit_length(1) [OF True x] .
next
  case False
  then have "x = 0 \<or> x = 1" by (rule unat_le_1)
  then show ?thesis by (auto simp: next_pow2_small)
qed

lemma next_pow2_power: "k \<le> 31 \<Longrightarrow> unat x = 2 ^ k \<Longrightarrow> unat (next_pow2 x) = 2 ^ k"
proof (cases "k = 0")
  case True
  assume "k \<le> 31" "unat x = 2 ^ k"
  with True have "x = 0 \<or> x = 1" by (intro unat_le_1) simp
  with True show ?thesis by (auto simp: next_pow2_small)
next
  case False
  assume k: "k \<le> 31" and x: "unat x = 2 ^ k"
  have le: "unat x \<le> 2 ^ 31" unfolding x using k by (intro power_increasing) simp_all
  have gt: "1 < unat x" unfolding x using False by (intro one_less_power) simp_all
  have "bit_length (unat x - 1) \<le> k" by (rule bit_length_le) (simp add: x)
  then have "(2::nat) ^ bit_length (unat x - 1) \<le> 2 ^ k" by (intro power_increasing) simp_all
  with next_pow2_bit_length(1) [OF gt le] next_pow2_ge [OF le] x show ?thesis by linarith
qed

lemma next_pow2_is_power: "unat x \<le> 2 ^ 31 \<Longrightarrow> \<exists>k \<le> 31. unat (next_pow2 x) = 2 ^ k"
proof (cases "1 < unat x")
  case True
  assume "unat x \<le> 2 ^ 31"
  from next_pow2_bit_length [OF True this] show ?thesis by blast
next
  case False
  then have "x = 0 \<or> x = 1" by (rule unat_le_1)
  then show ?thesis by (intro exI [of _ 0]) (auto simp: next_pow2_small)
qed

lemma grown_capacity_power:
  "unat x \<le> 2 ^ 31 \<Longrightarrow> \<exists>k. k \<le> 31 \<and> 12 \<le> k \<and> unat (max (next_pow2 x) STRING_MIN_SIZE) = 2 ^ k"
proof -
  assume "unat x \<le> 2 ^ 31"
  then obtain j where j: "j \<le> 31" "unat (next_pow2 x) = 2 ^ j" using next_pow2_is_power by blast
  have "unat STRING_MIN_SIZE = 2 ^ 12" by (simp add: STRING_MIN_SIZE_def)
  with j(2) have "unat (max (next_pow2 x) STRING_MIN_SIZE) = 2 ^ max j 12"
    by (auto simp: max_def word_le_nat_alt power_increasing_iff simp del: power_numeral)
  with j(1) show ?thesis by (intro exI [of _ "max j 12"]) simp
qed

section \<open>Appending\<close>

lemma string_ok_init [simp, inv_intros]: "string_ok N2K_STRING_INITIALIZER"
  by (simp add: string_ok_def N2K_STRING_INITIALIZER_def)

lemma string_ok_done [simp, inv_intros]: "string_ok (string_done s)"
  by (simp add: string_ok_def string_done_def)

lemma string_bytes_init [simp, cstr_simps]: "string_bytes N2K_STRING_INITIALIZER = []"
  by (simp add: string_bytes_def N2K_STRING_INITIALIZER_def)

lemma string_bytes_done [simp, cstr_simps]: "string_bytes (string_done s) = []"
  by (simp add: string_bytes_def string_done_def)

lemma string_allocated_ge_size:
  "string_ok s \<Longrightarrow> unat (str_size s) \<le> unat (string_allocated s)"
  using next_pow2_ge [of "str_size s"]
  by (auto simp: string_ok_def string_allocated_def word_less_nat_alt STRING_MIN_SIZE_def
      split: option.splits)

lemma length_string_bytes: "string_ok s \<Longrightarrow> length (string_bytes s) = unat (str_size s)"
  using string_allocated_ge_size [of s]
  by (auto simp: string_ok_def string_bytes_def split: option.splits)

lemma string_grow_cases [consumes 1, case_names keep grown]:
  assumes "string_grow al s n = (c, s1)"
  obtains (keep) "c = string_allocated s" "s1 = s"
  | (grown) b where "c = max (next_pow2 (str_size s + n)) STRING_MIN_SIZE" "s1 = s\<lparr>str_buf := Some b\<rparr>"
      "realloc al (str_buf s) (max (next_pow2 (str_size s + n)) STRING_MIN_SIZE) = Some b" "string_allocated s < next_pow2 (str_size s + n)"
proof (cases "string_allocated s < next_pow2 (str_size s + n)")
  case True
  show thesis
  proof (cases "realloc al (str_buf s) (max (next_pow2 (str_size s + n)) STRING_MIN_SIZE)")
    case None
    have "(c, s1) = (string_allocated s, s)" unfolding assms [symmetric] using True None by (simp add: string_grow_def Let_def)
    then show thesis by (intro keep) simp_all
  next
    case (Some b)
    have "(c, s1) = (max (next_pow2 (str_size s + n)) STRING_MIN_SIZE, s\<lparr>str_buf := Some b\<rparr>)"
      unfolding assms [symmetric] using True Some by (simp add: string_grow_def Let_def)
    with Some True show thesis by (intro grown) simp_all
  qed
next
  case False
  have "(c, s1) = (string_allocated s, s)" unfolding assms [symmetric] using False by (simp add: string_grow_def Let_def)
  then show thesis by (intro keep) simp_all
qed

text \<open>
  What growing gives: a block of at least the returned number of bytes with the old content at its
  front, and a returned capacity that never falls short of the recomputed one.
\<close>

lemma string_grow_spec:
  assumes ok: "string_ok s" and fits: "string_fits s n"
    and grow: "string_grow al s (of_nat n) = (c, s1)"
  shows "str_size s1 = str_size s" and "string_bytes s1 = string_bytes s"
    and "str_buf s1 = None \<Longrightarrow> s1 = s \<and> c = 0"
    and "\<And>b. str_buf s1 = Some b \<Longrightarrow> unat c \<le> length b"
    and "s1 = s \<and> c = string_allocated s \<or>
         c = max (next_pow2 (str_size s + of_nat n)) STRING_MIN_SIZE \<and> str_buf s1 \<noteq> None"
proof -
  let ?want = "next_pow2 (str_size s + of_nat n)"
  let ?new = "max ?want STRING_MIN_SIZE"
  have alloc_lt: "unat (string_allocated s) \<le> unat ?new" if "string_allocated s < ?want"
    using that by (auto simp: word_less_nat_alt max_def word_le_nat_alt)
  show "str_size s1 = str_size s" by (cases rule: string_grow_cases [OF grow]) auto
  from grow show "string_bytes s1 = string_bytes s"
  proof (cases rule: string_grow_cases)
    case grown
    show ?thesis
    proof (cases "str_buf s")
      case None
      with ok grown show ?thesis by (simp add: string_ok_def string_bytes_def)
    next
      case (Some b0)
      have "unat (str_size s) \<le> length b0" "unat (str_size s) \<le> unat ?new"
        using ok Some string_allocated_ge_size [OF ok] alloc_lt [OF grown(4)]
        by (auto simp: string_ok_def)
      with grown Some show ?thesis by (simp add: string_bytes_def take_realloc)
    qed
  qed simp
  show "str_buf s1 = None \<Longrightarrow> s1 = s \<and> c = 0" by (cases rule: string_grow_cases [OF grow]) (auto simp: string_allocated_def)
  show "\<And>b. str_buf s1 = Some b \<Longrightarrow> unat c \<le> length b"
    using ok by (cases rule: string_grow_cases [OF grow]) (auto simp: string_ok_def length_realloc)
  show "s1 = s \<and> c = string_allocated s \<or> c = ?new \<and> str_buf s1 \<noteq> None"
    by (cases rule: string_grow_cases [OF grow]) auto
qed

lemma string_allocated_pow2:
  assumes "string_ok s" and "str_buf s \<noteq> None"
  shows "\<exists>k. k \<le> 31 \<and> 12 \<le> k \<and> unat (string_allocated s) = 2 ^ k"
proof (cases "str_size s < STRING_MIN_SIZE")
  case True
  with assms(2) have "unat (string_allocated s) = 2 ^ 12"
    by (simp add: string_allocated_def STRING_MIN_SIZE_def)
  then show ?thesis by (intro exI [of _ 12]) simp
next
  case False
  let ?x = "str_size s"
  have gt: "4096 \<le> unat ?x"
    using False by (simp add: STRING_MIN_SIZE_def not_less word_le_nat_alt)
  have le: "unat ?x \<le> 2 ^ 31" using assms by (auto simp: string_ok_def)
  let ?k = "bit_length (unat ?x - 1)"
  have k: "?k \<le> 31" and np: "unat (next_pow2 ?x) = 2 ^ ?k"
    using next_pow2_bit_length [of ?x] gt le by auto
  have "\<not> ?k < 12"
  proof
    assume "?k < 12"
    then have "(2::nat) ^ ?k \<le> 2 ^ 11" by (intro power_increasing) simp_all
    with next_pow2_ge [OF le] np gt show False by simp
  qed
  with k np False assms(2) show ?thesis
    by (intro exI [of _ ?k]) (simp add: string_allocated_def)
qed

text \<open>A capacity that holds the new size is also what the new size's recomputation claims.\<close>

lemma recomputed_capacity:
  assumes "k \<le> 31" and "12 \<le> k" and "unat x \<le> 2 ^ k"
  shows "unat (if x < STRING_MIN_SIZE then STRING_MIN_SIZE else next_pow2 x) \<le> 2 ^ k"
proof (cases "x < STRING_MIN_SIZE")
  case True
  have "(2::nat) ^ 12 \<le> 2 ^ k" using assms(2) by (intro power_increasing) simp_all
  with True show ?thesis by (simp add: STRING_MIN_SIZE_def)
next
  case False
  have "(2::nat) ^ k \<le> 2 ^ 31" using assms(1) by (intro power_increasing) simp_all
  moreover have p: "unat (of_nat (2 ^ k) :: size_t) = 2 ^ k"
    using assms(1) by (intro unat_of_nat_fits power_strict_increasing) simp_all
  ultimately have "unat (next_pow2 x) \<le> unat (next_pow2 (of_nat (2 ^ k)))"
    using assms(3) by (intro next_pow2_mono) simp_all
  with False show ?thesis using next_pow2_power [OF assms(1) p] by simp
qed

text \<open>Writing behind the content of a block with a capacity of some power of two.\<close>

lemma string_write_behind:
  assumes "str_buf s1 = Some b" and "unat x = unat (str_size s1) + length d" and "unat x \<le> 2 ^ 31" and "unat x \<le> 2 ^ k"
    and "2 ^ k \<le> length b" and "k \<le> 31" and "12 \<le> k"
  shows "string_ok (s1\<lparr>str_buf := Some (memcpy_at b (unat (str_size s1)) d), str_size := x\<rparr>)" (is "string_ok ?s'")
    and "string_bytes (s1\<lparr>str_buf := Some (memcpy_at b (unat (str_size s1)) d), str_size := x\<rparr>) = string_bytes s1 @ d"
proof -
  have in_block: "unat (str_size s1) + length d \<le> length b" using assms(2,4,5) by linarith
  then show "string_bytes ?s' = string_bytes s1 @ d" using assms(1,2) by (simp add: string_bytes_def take_memcpy_at)
  have "unat (string_allocated ?s') \<le> 2 ^ k"
    using recomputed_capacity [OF assms(6,7,4)] by (simp add: string_allocated_def split: if_splits)
  with in_block assms(3,5) show "string_ok ?s'" by (simp add: string_ok_def)
qed

lemma string_append_spec:
  assumes ok: "string_ok s" and fits: "string_fits s (length d)"
    and app: "string_append al s d = (rc, s')"
  shows "string_ok s'"
    and "rc = 0 \<and> string_bytes s' = string_bytes s @ d \<and> str_size s' = str_size s + of_nat (length d)
         \<or> rc = -1 \<and> s' = s"
proof -
  let ?n = "of_nat (length d) :: size_t"
  let ?x = "str_size s + ?n"
  obtain c s1 where g: "string_grow al s ?n = (c, s1)" by fastforce
  note gs = string_grow_spec [OF ok fits g]
  have un: "unat ?x = unat (str_size s) + length d"
    using fits by (intro unat_plus_of_nat) (simp add: string_fits_def)
  have le: "unat ?x \<le> 2 ^ 31" using fits by (simp add: un string_fits_def)
  have big: "unat ?x \<le> unat (max (next_pow2 ?x) STRING_MIN_SIZE)"
    using next_pow2_ge [OF le] by (auto simp: max_def word_le_nat_alt)
  have "string_ok s' \<and>
    (rc = 0 \<and> string_bytes s' = string_bytes s @ d \<and> str_size s' = ?x \<or> rc = -1 \<and> s' = s)"
  proof (cases "c < str_size s1 + ?n")
    case True
    with gs(1,5) big have "s1 = s" by (auto simp: word_less_nat_alt)
    with app g True ok show ?thesis by (simp add: string_append_def)
  next
    case False
    then have room: "unat ?x \<le> unat c" using gs(1) by (simp add: not_less word_le_nat_alt)
    have s': "rc = 0" "s' = s1\<lparr>str_buf := map_option (\<lambda>b. memcpy_at b (unat (str_size s)) d) (str_buf s1),
        str_size := ?x\<rparr>"
      using app g False gs(1) by (simp_all add: string_append_def)
    show ?thesis
    proof (cases "str_buf s1")
      case None
      with gs(3) room have "unat ?x = 0" "s1 = s" by auto
      with un None ok s' show ?thesis
        by (simp add: string_ok_def string_bytes_def unsigned_eq_0_iff)
    next
      case (Some b)
      have "\<exists>k. k \<le> 31 \<and> 12 \<le> k \<and> unat c = 2 ^ k"
        using gs(5) string_allocated_pow2 [OF ok] grown_capacity_power [OF le] Some by auto
      then obtain k where k: "k \<le> 31" "12 \<le> k" "unat c = 2 ^ k" by blast
      have "2 ^ k \<le> length b" "unat ?x \<le> 2 ^ k" using gs(4) [OF Some] k(3) room by simp_all
      with string_write_behind [OF Some _ le _ _ k(1,2), of d] un gs(1,2) s' Some show ?thesis by simp
    qed
  qed
  then show "string_ok s'"
    and "rc = 0 \<and> string_bytes s' = string_bytes s @ d \<and> str_size s' = ?x \<or> rc = -1 \<and> s' = s"
    by blast+
qed

lemma string_append_granted:
  assumes ok: "string_ok s" and fits: "string_fits s (length d)"
    and al: "al_ok al (max (next_pow2 (str_size s + of_nat (length d))) STRING_MIN_SIZE)"
  shows "fst (string_append al s d) = 0"
proof -
  let ?x = "str_size s + of_nat (length d)"
  have "unat ?x \<le> 2 ^ 31"
    using fits by (subst unat_plus_of_nat) (simp_all add: string_fits_def)
  then have x: "?x \<le> next_pow2 ?x" using next_pow2_ge by (simp add: word_le_nat_alt)
  then have x': "\<not> max (next_pow2 ?x) STRING_MIN_SIZE < ?x"
    by (meson max.coboundedI1 not_less)
  obtain b where "realloc al (str_buf s) (max (next_pow2 ?x) STRING_MIN_SIZE) = Some b"
    using al by (simp add: realloc_def)
  with x x' show ?thesis
    by (cases "string_allocated s < next_pow2 ?x")
      (auto simp: string_append_def string_grow_def Let_def)
qed

lemma string_append_small:
  assumes ok: "string_ok s" and len: "unat (str_size s) + length d \<le> 4096"
    and al: "al_ok al STRING_MIN_SIZE"
  shows "\<exists>s'. string_append al s d = (0, s') \<and> string_ok s' \<and> string_bytes s' = string_bytes s @ d \<and>
    unat (str_size s') = unat (str_size s) + length d"
proof -
  let ?x = "str_size s + of_nat (length d)"
  have fits: "string_fits s (length d)" using len by (simp add: string_fits_def)
  have ux: "unat ?x = unat (str_size s) + length d" using len by (intro unat_plus_of_nat) simp
  have "unat (next_pow2 ?x) \<le> unat (next_pow2 4096)" using ux len by (intro next_pow2_mono) simp_all
  then have "unat (next_pow2 ?x) \<le> 4096" using next_pow2_power [of 12 4096] by simp
  then have "max (next_pow2 ?x) STRING_MIN_SIZE = STRING_MIN_SIZE"
    by (simp add: STRING_MIN_SIZE_def max_def word_le_nat_alt)
  then have "fst (string_append al s d) = 0" using ok fits al by (intro string_append_granted) simp_all
  then obtain s' where a: "string_append al s d = (0, s')" by (metis prod.collapse)
  with string_append_spec [OF ok fits a] ux show ?thesis by auto
qed

text \<open>
  The success of an append depends on the sizes alone; the containers that keep typed data in a
  string use this form.
\<close>

definition string_can_append :: "allocator \<Rightarrow> bool \<Rightarrow> size_t \<Rightarrow> size_t \<Rightarrow> bool" where
  "string_can_append al has_buf sz delta =
     (let allocated = (if \<not> has_buf then 0 else if sz < STRING_MIN_SIZE then STRING_MIN_SIZE
                       else next_pow2 sz);
          want = next_pow2 (sz + delta);
          new_allocated = max want STRING_MIN_SIZE;
          capacity = (if \<not> allocated < want then allocated
                      else if al_ok al new_allocated then new_allocated else allocated)
      in \<not> capacity < sz + delta)"

lemma string_append_iff_can:
  "fst (string_append al s d) = 0 \<longleftrightarrow>
     string_can_append al (str_buf s \<noteq> None) (str_size s) (of_nat (length d))"
  by (auto simp: string_append_def string_grow_def string_can_append_def string_allocated_def
      realloc_def Let_def)

section \<open>The interface of a byte sink\<close>

text \<open>
  What the clients of the string rely on: an append either takes all the bytes or nothing, and it
  keeps the sink usable.
\<close>

fun append_pieces :: "('s \<Rightarrow> bytes \<Rightarrow> int \<times> 's) \<Rightarrow> 's \<Rightarrow> bytes list \<Rightarrow> int \<times> 's" where
  "append_pieces app s [] = (0, s)"
| "append_pieces app s (d # ds) =
     (case app s d of (rc, s') \<Rightarrow> if rc \<noteq> 0 then (rc, s') else append_pieces app s' ds)"

locale byte_sink =
  fixes app :: "'s \<Rightarrow> bytes \<Rightarrow> int \<times> 's"
    and content :: "'s \<Rightarrow> bytes"
    and valid :: "'s \<Rightarrow> bool"
    and room :: "'s \<Rightarrow> nat \<Rightarrow> bool"
  assumes append_takes_all: "valid s \<Longrightarrow> room s (length d) \<Longrightarrow> app s d = (0, s') \<Longrightarrow>
      valid s' \<and> content s' = content s @ d"
    and append_takes_nothing: "valid s \<Longrightarrow> room s (length d) \<Longrightarrow> app s d = (rc, s') \<Longrightarrow> rc \<noteq> 0 \<Longrightarrow>
      s' = s"
    and room_left: "valid s \<Longrightarrow> room s (length d + n) \<Longrightarrow> app s d = (0, s') \<Longrightarrow> room s' n"
    and room_less: "room s n \<Longrightarrow> m \<le> n \<Longrightarrow> room s m"
begin

lemma append_pieces_prefix:
  "valid s \<Longrightarrow> room s (length (concat ds)) \<Longrightarrow> append_pieces app s ds = (rc, s') \<Longrightarrow>
   valid s' \<and> (\<exists>k \<le> length ds. content s' = content s @ concat (take k ds) \<and> (rc = 0 \<longrightarrow> k = length ds))"
proof (induction ds arbitrary: s)
  case Nil
  then show ?case by simp
next
  case (Cons d ds)
  obtain r s1 where a: "app s d = (r, s1)" by fastforce
  have room: "room s (length d)" using Cons.prems(2) by (rule room_less) simp
  show ?case
  proof (cases "r = 0")
    case True
    with a Cons.prems room have s1: "valid s1" "content s1 = content s @ d"
      using append_takes_all by auto
    have "room s1 (length (concat ds))"
      using room_left [of s d _ s1] Cons.prems a True by simp
    moreover have "append_pieces app s1 ds = (rc, s')" using Cons.prems(3) a True by simp
    ultimately obtain k where k: "valid s'" "k \<le> length ds"
      "content s' = content s1 @ concat (take k ds)" "rc = 0 \<longrightarrow> k = length ds"
      using Cons.IH [OF s1(1)] by blast
    with s1(2) show ?thesis by (auto intro!: exI [of _ "Suc k"])
  next
    case False
    with a Cons.prems room have "s' = s" "rc = r" using append_takes_nothing by auto
    with False Cons.prems(1) show ?thesis by (auto intro!: exI [of _ 0])
  qed
qed

lemma append_pieces_all:
  assumes "valid s" and "room s (length (concat ds))" and "append_pieces app s ds = (0, s')"
  shows "valid s'" and "content s' = content s @ concat ds"
  using append_pieces_prefix [OF assms] by auto

end

interpretation str: byte_sink "string_append al" string_bytes string_ok string_fits for al
proof (unfold_locales, goal_cases)
  case (1 s d s')
  then show ?case using string_append_spec [of s d al 0 s'] by auto
next
  case (2 s d rc s')
  then show ?case using string_append_spec(2) [of s d al rc s'] by auto
next
  case (3 s d n s')
  have fits: "string_fits s (length d)" using 3(2) by (simp add: string_fits_def)
  have "str_size s' = str_size s + of_nat (length d)"
    using string_append_spec(2) [OF 3(1) fits 3(3)] by auto
  moreover have "unat (str_size s) + length d < 2 ^ 64" using 3(2) by (simp add: string_fits_def)
  ultimately show ?case using 3(2) by (simp add: string_fits_def unat_plus_of_nat)
next
  case (4 s n m)
  then show ?case by (simp add: string_fits_def)
qed

lemma string_pop_back_spec:
  assumes ok: "string_ok s" and b: "string_bytes s = pre @ [c]"
  shows "\<exists>s'. string_pop_back s = Inr s' \<and> string_ok s' \<and> string_bytes s' = pre \<and> unat (str_size s') = length pre"
proof -
  obtain blk where blk: "str_buf s = Some blk" using b by (auto simp: string_bytes_def split: option.splits)
  have n: "unat (str_size s) = Suc (length pre)" using length_string_bytes [OF ok] b by simp
  have pos: "str_size s \<noteq> 0" using n by auto
  then have n1: "unat (str_size s - 1) = length pre" using n by (simp add: unat_minus_one)
  obtain k where k: "k \<le> 31" "12 \<le> k" "unat (string_allocated s) = 2 ^ k"
    using string_allocated_pow2 [OF ok] blk by auto
  have le: "unat (str_size s) \<le> 2 ^ k" using string_allocated_ge_size [OF ok] k(3) by (simp add: word_le_nat_alt)
  let ?s = "s\<lparr>str_buf := Some (blk[unat (str_size s - 1) := NUL]), str_size := str_size s - 1\<rparr>"
  have "unat (string_allocated ?s) \<le> 2 ^ k"
    using recomputed_capacity [OF k(1,2), of "str_size s - 1"] le n n1 by (simp add: string_allocated_def split: if_splits)
  then have "string_ok ?s" using ok blk n n1 k(3) by (simp add: string_ok_def)
  moreover have "string_bytes ?s = pre"
  proof -
    have "take (Suc (length pre)) blk = pre @ [c]" using b blk n by (simp add: string_bytes_def)
    then have "take (length pre) blk = pre" by (metis append_eq_conv_conj take_take min_def le_Suc_eq order_refl)
    then show ?thesis using n1 by (simp add: string_bytes_def)
  qed
  ultimately show ?thesis using blk pos n1 by (intro exI [of _ ?s]) (simp add: string_pop_back_def)
qed

section \<open>Formatted output\<close>

lemma unat_available:
  "string_ok s \<Longrightarrow> unat (string_allocated s - str_size s) = unat (string_allocated s) - unat (str_size s)"
  using string_allocated_ge_size [of s] by (simp add: unat_sub word_le_nat_alt)

text \<open>With room for the text, the terminator and one spare byte the first round succeeds.\<close>

lemma string_printf_room:
  assumes ok: "string_ok s" and b: "str_buf s = Some b"
    and room: "unat (str_size s) + length out + 1 < unat (string_allocated s)"
  shows "\<exists>s'. string_printf al s out = Some (Inr (int (length out), s')) \<and> string_ok s' \<and>
      string_bytes s' = string_bytes s @ out \<and> str_size s' = str_size s + of_nat (length out)
      \<and> str_buf s' \<noteq> None"
proof -
  let ?av = "string_allocated s - str_size s"
  let ?x = "str_size s + of_nat (length out)"
  have cap: "unat (string_allocated s) \<le> length b" "unat (str_size s) \<le> 2 ^ 31"
    using ok b by (auto simp: string_ok_def)
  obtain k where k: "k \<le> 31" "12 \<le> k" "unat (string_allocated s) = 2 ^ k"
    using string_allocated_pow2 [OF ok] b by auto
  have k31: "(2::nat) ^ k \<le> 2 ^ 31" using k(1) by (intro power_increasing) simp_all
  have len: "length out < 2 ^ 31" using room k(3) k31 by linarith
  have un: "unat ?x = unat (str_size s) + length out"
    using cap(2) len by (intro unat_plus_of_nat) simp
  have av: "unat ?av = unat (string_allocated s) - unat (str_size s)" by (rule unat_available [OF ok])
  have "unat (of_nat (length out) + 1 :: size_t) = length out + 1"
    using len unat_plus_of_nat [of 1 "length out"] by (simp add: add.commute)
  then have big: "?av > of_nat (length out) + 1"
    using av room by (simp add: word_less_nat_alt)
  have whole: "take (unat ?av - 1) out = out" using av room by simp
  have in_block: "unat (str_size s) + length (out @ [NUL]) \<le> length b" using room cap(1) by simp
  let ?s' = "s\<lparr>str_buf := Some (memcpy_at b (unat (str_size s)) (out @ [NUL])), str_size := ?x\<rparr>"
  have nz: "?av \<noteq> 0" using big by auto
  have run: "string_printf al s out = Some (Inr (int (length out), ?s'))"
    using big b whole nz
    by (simp add: string_printf_def string_printf_loop.simps Let_def vsnprintf_at_def)
  have "take (unat ?x) (memcpy_at b (unat (str_size s)) (out @ [NUL])) = take (unat (str_size s)) b @ out"
    using in_block by (simp add: un memcpy_at_def)
  then have content: "string_bytes ?s' = string_bytes s @ out" using b by (simp add: string_bytes_def)
  have "unat (string_allocated ?s') \<le> 2 ^ k"
    using recomputed_capacity [OF k(1,2), of ?x] room un k(3)
    by (simp add: string_allocated_def split: if_splits)
  then have "string_ok ?s'" using in_block cap k(3) k31 un room by (simp add: string_ok_def)
  with run content show ?thesis by (intro exI [of _ ?s']) simp
qed

text \<open>A fresh string gets its first block, of the minimum size, and then prints.\<close>

lemma string_printf_fresh:
  assumes "str_buf s = None" and "str_size s = 0" and len: "length out + 1 < 4096"
    and al: "al_ok al STRING_MIN_SIZE"
  shows "\<exists>s'. string_printf al s out = Some (Inr (int (length out), s')) \<and> string_ok s' \<and>
      string_bytes s' = out \<and> str_size s' = of_nat (length out) \<and> str_buf s' \<noteq> None"
proof -
  have ok: "string_ok s" using assms by (simp add: string_ok_def)
  let ?x = "of_nat (length out) :: size_t"
  have ux: "unat ?x = length out" using len by (intro unat_of_nat_fits) simp
  have "unat (next_pow2 ?x) \<le> unat (next_pow2 4096)" using ux len by (intro next_pow2_mono) simp_all
  then have "unat (next_pow2 ?x) \<le> 4096" using next_pow2_power [of 12 4096] by simp
  then have mx: "max (next_pow2 ?x) STRING_MIN_SIZE = STRING_MIN_SIZE"
    by (simp add: STRING_MIN_SIZE_def max_def word_le_nat_alt)
  have "1 \<le> unat (next_pow2 ?x)" using ux len by (intro next_pow2_pos) simp
  then have pos: "0 < next_pow2 ?x" by (simp add: word_less_nat_alt)
  obtain b where b: "realloc al None STRING_MIN_SIZE = Some b"
    using al by (simp add: realloc_def)
  let ?s1 = "s\<lparr>str_buf := Some b\<rparr>"
  have grow: "string_grow al s (0 + ?x) = (STRING_MIN_SIZE, ?s1)"
    using assms pos mx b by (simp add: string_grow_def string_allocated_def Let_def)
  have lb: "length b = 4096" using length_realloc [OF b] by (simp add: STRING_MIN_SIZE_def)
  have al1: "string_allocated ?s1 = STRING_MIN_SIZE"
    using assms(2) by (simp add: string_allocated_def STRING_MIN_SIZE_def)
  have "STRING_MIN_SIZE \<noteq> 0" by (simp add: STRING_MIN_SIZE_def)
  moreover have s0: "s\<lparr>str_buf := None\<rparr> = s" using assms(1) by (cases s) simp
  then have "string_grow al (s\<lparr>str_buf := None\<rparr>) (0 + ?x) = (STRING_MIN_SIZE, ?s1)"
    using grow by metis
  ultimately have "string_printf al s out = string_printf al ?s1 out"
    using assms grow
    by (simp add: string_printf_def string_printf_loop.simps [of al 0 s] string_allocated_def
        vsnprintf_at_def Let_def)
  moreover have ok1: "string_ok ?s1" using al1 lb assms(2) by (simp add: string_ok_def STRING_MIN_SIZE_def)
  moreover have "string_bytes ?s1 = []" using assms(2) by (simp add: string_bytes_def)
  ultimately show ?thesis
    using string_printf_room [OF ok1, of b out al] assms(2) len al1
    by (simp add: STRING_MIN_SIZE_def)
qed

lemma string_printf_small:
  assumes ok: "string_ok s" and len: "unat (str_size s) + length out + 1 < 4096"
    and al: "al_ok al STRING_MIN_SIZE"
  shows "\<exists>s'. string_printf al s out = Some (Inr (int (length out), s')) \<and> string_ok s' \<and>
      string_bytes s' = string_bytes s @ out \<and> str_size s' = str_size s + of_nat (length out)"
proof (cases "str_buf s")
  case None
  with ok have "str_size s = 0" "string_bytes s = []" by (auto simp: string_ok_def string_bytes_def)
  with string_printf_fresh [OF None _ _ al, of out] len show ?thesis by auto
next
  case (Some b)
  have "4096 \<le> unat (string_allocated s)"
    using string_allocated_pow2 [OF ok] Some power_increasing [of 12 _ "2::nat"] by force
  with string_printf_room [OF ok Some, of out al] len show ?thesis by auto
qed

text \<open>
  Growing does not help a retry: the capacity is recomputed from the unchanged size, so a text
  that does not fit the first time never fits.
\<close>

lemma string_allocated_eq:
  "str_buf s \<noteq> None \<Longrightarrow> str_buf s' \<noteq> None \<Longrightarrow> str_size s = str_size s' \<Longrightarrow>
   string_allocated s = string_allocated s'"
  by (auto simp: string_allocated_def)

lemma string_grow_frame:
  assumes "string_grow al s d = (c, s1)" and "str_buf s \<noteq> None"
  shows "str_size s1 = str_size s" and "str_buf s1 \<noteq> None" and "string_allocated s1 = string_allocated s"
    and "string_allocated s \<le> c"
  using assms
  by (auto simp: string_grow_def string_allocated_def Let_def max_def split: if_splits option.splits)

lemma string_printf_loop_hangs:
  assumes ret: "string_printf_loop al i s out = Some r"
  shows "\<not> (i = str_size s \<and> str_buf s \<noteq> None \<and> str_size s < string_allocated s \<and>
    string_allocated s - str_size s \<le> of_nat (length out) + 1)"
proof (rule string_printf_loop.raw_induct [where P = "\<lambda>al i s out r. \<not> (i = str_size s \<and>
      str_buf s \<noteq> None \<and> str_size s < string_allocated s \<and>
      string_allocated s - str_size s \<le> of_nat (length out) + 1)", OF _ ret])
  fix f al i s and out :: bytes and r
  let ?stuck = "\<lambda>i s. i = str_size s \<and> str_buf s \<noteq> None \<and> str_size s < string_allocated s \<and>
      string_allocated s - str_size s \<le> of_nat (length out) + 1"
  let ?s1 = "s\<lparr>str_buf := vsnprintf_at (str_buf s) (unat (str_size s))
      (string_allocated s - str_size s) out\<rparr>"
  assume IH: "\<And>al i s out r. f al i s out = Some r \<Longrightarrow> \<not> (i = str_size s \<and> str_buf s \<noteq> None \<and>
      str_size s < string_allocated s \<and> string_allocated s - str_size s \<le> of_nat (length out) + 1)"
    and eq: "(let available = string_allocated s - str_size s; printf_rc = of_nat (length out);
          s1 = s\<lparr>str_buf := vsnprintf_at (str_buf s) (unat (str_size s)) available out\<rparr>
      in if available > printf_rc + 1
         then Some (Inr (int (length out), s1\<lparr>str_size := str_size s1 + printf_rc\<rparr>))
         else let (new_len, s2) = string_grow al s1 (i + printf_rc)
              in if new_len = i
                 then (case str_buf s2 of
                         None \<Rightarrow> Some (Inl NullDeref)
                       | Some b \<Rightarrow> Some (Inr (-1, s2\<lparr>str_buf := Some (b[unat i := NUL])\<rparr>)))
                 else f al i s2 out) = Some r"
  show "\<not> ?stuck i s"
  proof
    assume st: "?stuck i s"
    obtain c s2 where g: "string_grow al ?s1 (i + of_nat (length out)) = (c, s2)" by fastforce
    have s1: "str_buf ?s1 \<noteq> None" using st by (auto simp: vsnprintf_at_def)
    then have al1: "string_allocated ?s1 = string_allocated s" using st by (intro string_allocated_eq) auto
    note fr = string_grow_frame [OF g s1]
    have "c \<noteq> i" using fr(4) al1 st by auto
    then have "f al i s2 out = Some r" using eq st g by (simp add: Let_def linorder_not_less [symmetric])
    then show False using IH fr al1 st by force
  qed
qed

section \<open>Properties\<close>

text \<open>For a nonzero size of at most 2 GiB, the capacity the string asks for is the least power of
  two that is not smaller than the size.\<close>

lemma next_pow2_least:
  assumes "unat x \<le> 2 ^ 31"
  shows "(\<exists>k. unat (next_pow2 x) = 2 ^ k) \<and> unat x \<le> unat (next_pow2 x) \<and>
    (\<forall>k. unat x \<le> 2 ^ k \<longrightarrow> unat (next_pow2 x) \<le> 2 ^ k)"
proof (intro conjI allI impI)
  show "\<exists>k. unat (next_pow2 x) = 2 ^ k" using next_pow2_is_power [OF assms] by blast
  show "unat x \<le> unat (next_pow2 x)" using assms by (rule next_pow2_ge)
next
  fix k assume x: "unat x \<le> 2 ^ k"
  show "unat (next_pow2 x) \<le> 2 ^ k"
  proof (cases "k \<le> 31")
    case True
    then have "(2::nat) ^ k \<le> 2 ^ 31" by (intro power_increasing) simp_all
    then have u: "unat (of_nat (2 ^ k) :: size_t) = 2 ^ k" by (intro unat_of_nat_fits) simp
    have "unat (next_pow2 x) \<le> unat (next_pow2 (of_nat (2 ^ k)))"
      using x u \<open>(2::nat) ^ k \<le> 2 ^ 31\<close> by (intro next_pow2_mono) (simp_all only: u)
    also have "\<dots> = 2 ^ k" using True u by (rule next_pow2_power)
    finally show ?thesis .
  next
    case False
    then have "(2::nat) ^ 31 \<le> 2 ^ k" by (intro power_increasing) simp_all
    with next_pow2_le [OF assms] show ?thesis by linarith
  qed
qed

text \<open>Above 2 GiB the shift of the 32-bit one loses the high bits, and the capacity computed is
  smaller than the size it is computed for.\<close>

lemma next_pow2_overflow:
  assumes "2 ^ 31 < unat x"
  shows "unat (next_pow2 x) < unat x"
proof -
  have "x \<noteq> 0" "x - 1 \<noteq> 0" using assms by auto
  then have "next_pow2 x = ucast (shl_unsigned 1 (64 - clz (x - 1)))" by (simp add: next_pow2_def)
  moreover have "shl_unsigned 1 n = shl_unsigned 1 (n mod 32)" for n
    by (simp add: shl_unsigned_def)
  ultimately have "unat (next_pow2 x) = 2 ^ ((64 - clz (x - 1)) mod 32)"
    using unat_shl_unsigned_1 [of "(64 - clz (x - 1)) mod 32"] by (simp add: unat_ucast_size)
  moreover have "(2::nat) ^ ((64 - clz (x - 1)) mod 32) \<le> 2 ^ 31"
    by (intro power_increasing) (auto simp: less_Suc_eq_le [symmetric])
  ultimately show ?thesis using assms by linarith
qed

text \<open>C38: an append to a well-formed string whose result stays within 2 GiB keeps the string well
  formed (so no later copy leaves its block), and it either returns 0 with exactly the new bytes after
  the old content, or returns -1 and changes nothing; it returns 0 whenever the block it asks for is
  granted.\<close>

theorem string_append_all_or_nothing:
  assumes "string_ok s" and "string_fits s (length d)" and "string_append al s d = (rc, s')"
  shows "string_ok s' \<and> (rc = 0 \<and> string_bytes s' = string_bytes s @ d \<or> rc = -1 \<and> s' = s) \<and>
    (al_ok al (max (next_pow2 (str_size s + of_nat (length d))) STRING_MIN_SIZE) \<longrightarrow> rc = 0)"
  using string_append_spec [OF assms] string_append_granted [OF assms(1,2), of al] assms(3) by auto

text \<open>Printing a text that does not fit into the room the string has never returns: each retry
  recomputes the capacity from the unchanged size, whatever block the allocator granted.\<close>

lemma string_printf_hangs:
  assumes "string_ok s" and "str_buf s \<noteq> None" and "str_size s < string_allocated s"
    and "length out < 2 ^ 63"
    and "unat (string_allocated s) - unat (str_size s) \<le> length out + 1"
  shows "string_printf al s out = None"
proof (rule ccontr)
  assume "string_printf al s out \<noteq> None"
  then obtain r where "string_printf_loop al (str_size s) s out = Some r"
    by (auto simp: string_printf_def)
  note h = string_printf_loop_hangs [OF this]
  have "unat (of_nat (length out) + 1 :: size_t) = length out + 1"
    using assms(4) unat_plus_of_nat [of 1 "length out"] by (simp add: add.commute)
  then have "string_allocated s - str_size s \<le> of_nat (length out) + 1"
    using assms(5) unat_available [OF assms(1)] by (simp add: word_le_nat_alt)
  with h assms show False by blast
qed

text \<open>Printing into a fresh string when no memory is available writes the terminator through the
  null pointer.\<close>

lemma string_printf_oom_null:
  assumes "\<And>n. \<not> al_ok al n"
  shows "string_printf al N2K_STRING_INITIALIZER out = Some (Inl NullDeref)"
proof -
  have "realloc al None n = None" for n using assms by (simp add: realloc_def)
  then show ?thesis
    unfolding string_printf_def
    by (subst string_printf_loop.simps)
      (auto simp: N2K_STRING_INITIALIZER_def string_allocated_def string_grow_def vsnprintf_at_def Let_def
        word_not_simps)
qed

section \<open>Witnesses\<close>

theorem string_append_all_or_nothing_witness:
  "\<exists>s'. string_append total_allocator N2K_STRING_INITIALIZER ''abc'' = (0, s') \<and> string_ok s' \<and>
    string_bytes s' = ''abc''"
proof -
  obtain rc s' where a: "string_append total_allocator N2K_STRING_INITIALIZER ''abc'' = (rc, s')"
    by fastforce
  have "string_fits N2K_STRING_INITIALIZER (length ''abc'')"
    by (simp add: string_fits_def N2K_STRING_INITIALIZER_def)
  from string_append_all_or_nothing [OF string_ok_init this a] a show ?thesis by auto
qed

end
