(* ===== verification/Json_Escape.thy ===== *)
theory Json_Escape
  imports CString
begin

text \<open>
  The second half of \<^verbatim>\<open>src/util/string.c\<close>: appending text as the body of a JSON string.
  Every byte is either escaped, copied as part of a UTF-8 sequence, or, when it starts no such
  sequence, printed as a hint. \<open>json_escape\<close> is the text that is meant to be appended, and
  \<open>json_unescape\<close> reads the body of a JSON string back as RFC 8259 defines it.
\<close>

section \<open>The code\<close>

abbreviation BACKSLASH :: char where "BACKSLASH \<equiv> CHR 0x5C"
abbreviation QUOTE :: char where "QUOTE \<equiv> CHR 0x22"

definition not_utf8_text :: "char \<Rightarrow> bytes" where
  "not_utf8_text c = [BACKSLASH, BACKSLASH, CHR ''x''] @ dec_string (of_char c)"

definition print_not_utf8_code :: "allocator \<Rightarrow> n2k_string \<Rightarrow> char \<Rightarrow> (int \<times> n2k_string) c_result option" where
  "print_not_utf8_code al s c = string_printf al s (not_utf8_text c)"

text \<open>\<^verbatim>\<open>__builtin_clz(~((unsigned)data[0] << 24))\<close>, then the test of the trailing bytes.\<close>

definition utf8_leading_ones :: "char \<Rightarrow> nat" where
  "utf8_leading_ones c = clz (NOT (push_bit 24 (of_char c :: 32 word)))"

definition multibyte_utf8_unicode_size :: "bytes \<Rightarrow> nat" where
  "multibyte_utf8_unicode_size data =
     (let leading_ones = utf8_leading_ones (hd data)
      in if leading_ones = 0 then 1
         else if leading_ones \<noteq> 2 \<and> leading_ones \<noteq> 3 \<and> leading_ones \<noteq> 4 then 0
         else if length data < leading_ones then 0
         else if list_all (\<lambda>c. (of_char c :: 8 word) AND 0xc0 = 0x80) (take (leading_ones - 1) (tl data))
              then leading_ones else 0)"

definition print_utf8 :: "allocator \<Rightarrow> n2k_string \<Rightarrow> bytes \<Rightarrow> (int \<times> n2k_string) c_result option" where
  "print_utf8 al s data =
     (let character_size = multibyte_utf8_unicode_size data
      in if character_size = 0
         then map_option (map_sum id (\<lambda>(append_rc, s'). (if append_rc > 0 then 1 else 0, s')))
                (print_not_utf8_code al s (hd data))
         else let (append_rc, s') = string_append al s (take character_size data)
              in Some (Inr (if append_rc = 0 then int character_size else -1, s')))"

definition json_short_escapes :: "(char \<times> char) list" where
  "json_short_escapes = [(CHR 0x08, CHR ''b''), (CHR 0x0C, CHR ''f''), (CHR 0x0A, CHR ''n''),
     (CHR 0x0D, CHR ''r''), (CHR 0x09, CHR ''t'')]"

definition print_json_escaped_character ::
  "allocator \<Rightarrow> n2k_string \<Rightarrow> char \<Rightarrow> (int \<times> n2k_string) c_result option" where
  "print_json_escaped_character al s c =
     (case map_of json_short_escapes c of
        Some e \<Rightarrow> Some (Inr (string_append_string al s [BACKSLASH, e]))
      | None \<Rightarrow> map_option (map_sum id (\<lambda>(rc, s'). (if rc > 0 then 1 else 0, s')))
                  (print_not_utf8_code al s c))"

partial_function (option) append_json_loop ::
  "allocator \<Rightarrow> n2k_string \<Rightarrow> bytes \<Rightarrow> (int \<times> n2k_string) c_result option" where
  "append_json_loop al s data =
     (case data of
        [] \<Rightarrow> Some (Inr (0, s))
      | c # rest \<Rightarrow>
          if strchr_hit (map fst json_short_escapes) c
          then (case print_json_escaped_character al s c of
                  None \<Rightarrow> None
                | Some (Inl e) \<Rightarrow> Some (Inl e)
                | Some (Inr (r, s1)) \<Rightarrow>
                    if r \<noteq> 0 then Some (Inr (1, s1)) else append_json_loop al s1 rest)
          else if strchr_hit [QUOTE, BACKSLASH] c
          then (case string_append_string al s [BACKSLASH] of
                  (r1, s1) \<Rightarrow>
                    if r1 \<noteq> 0 then Some (Inr (1, s1))
                    else case string_append al s1 [c] of
                      (r2, s2) \<Rightarrow>
                        if r2 \<noteq> 0 then Some (Inr (1, s2)) else append_json_loop al s2 rest)
          else (case print_utf8 al s data of
                  None \<Rightarrow> None
                | Some (Inl e) \<Rightarrow> Some (Inl e)
                | Some (Inr (consumed_utf8, s1)) \<Rightarrow>
                    if consumed_utf8 < 0 then Some (Inr (1, s1))
                    else append_json_loop al s1 (drop (nat consumed_utf8) data)))"

definition string_append_json_string ::
  "allocator \<Rightarrow> n2k_string \<Rightarrow> bytes \<Rightarrow> (int \<times> n2k_string) c_result option" where
  "string_append_json_string al s data = append_json_loop al s data"

section \<open>What it is meant to append\<close>

definition escape_step :: "bytes \<Rightarrow> bytes \<times> nat" where
  "escape_step data =
     (let c = hd data in
      case map_of json_short_escapes c of
        Some e \<Rightarrow> ([BACKSLASH, e], 1)
      | None \<Rightarrow>
          if c = QUOTE \<or> c = BACKSLASH then ([BACKSLASH, c], 1)
          else let n = multibyte_utf8_unicode_size data
               in if n = 0 then (not_utf8_text c, 1) else (take n data, n))"

lemma escape_step_pos: "0 < snd (escape_step data)"
  by (auto simp: escape_step_def Let_def split: option.splits)

function json_escape :: "bytes \<Rightarrow> bytes" where
  "json_escape [] = []"
| "json_escape (c # cs) =
     (case escape_step (c # cs) of (out, n) \<Rightarrow> out @ json_escape (drop n (c # cs)))"
  by pat_completeness auto
termination
  by (relation "measure length") (auto dest!: arg_cong [where f = snd] simp: escape_step_pos)

declare json_escape.simps [simp del]

text \<open>Text that the escaping loses nothing of: UTF-8 with no control character but the five.\<close>

function plain_utf8 :: "bytes \<Rightarrow> bool" where
  "plain_utf8 [] = True"
| "plain_utf8 (c # cs) =
     (if multibyte_utf8_unicode_size (c # cs) = 0 then False
      else (c \<in> set (map fst json_short_escapes) \<or> 32 \<le> (of_char c :: nat)) \<and>
           plain_utf8 (drop (multibyte_utf8_unicode_size (c # cs)) (c # cs)))"
  by pat_completeness auto
termination
  by (relation "measure length") auto

fun json_unescape :: "bytes \<Rightarrow> bytes option" where
  "json_unescape [] = Some []"
| "json_unescape (c # cs) =
     (if c = BACKSLASH
      then (case cs of
              [] \<Rightarrow> None
            | e # rest \<Rightarrow>
                (case map_of (map (\<lambda>(a, b). (b, a)) json_short_escapes) e of
                   Some d \<Rightarrow> map_option ((#) d) (json_unescape rest)
                 | None \<Rightarrow> if e = QUOTE \<or> e = BACKSLASH \<or> e = CHR ''/''
                           then map_option ((#) e) (json_unescape rest) else None))
      else if c = QUOTE \<or> (of_char c :: nat) < 32 then None
      else map_option ((#) c) (json_unescape cs))"

section \<open>Appending in one block\<close>

lemma length_not_utf8_text: "length (not_utf8_text c) \<le> 6"
proof -
  have "(of_char c :: nat) < 10 ^ 3" by (rule less_trans [OF nat_of_char_less_256]) simp
  then have "length (dec_string (of_char c)) \<le> 3" by (intro length_dec_string_le) simp_all
  then show ?thesis by (simp add: not_utf8_text_def)
qed

lemma not_utf8_text_nonempty [simp]: "0 < length (not_utf8_text c)"
  by (simp add: not_utf8_text_def)

lemma strchr_hit_short: "strchr_hit (map fst json_short_escapes) c \<longleftrightarrow>
    c = NUL \<or> map_of json_short_escapes c \<noteq> None"
  by (auto simp: strchr_hit_def map_of_eq_None_iff)

lemma strchr_hit_quote: "strchr_hit [QUOTE, BACKSLASH] c \<longleftrightarrow> c = NUL \<or> c = QUOTE \<or> c = BACKSLASH"
  by (auto simp: strchr_hit_def)

text \<open>A character that has no short escape and needs no backslash: bytes that are not UTF-8 are printed as a code.\<close>

lemma print_utf8_step:
  assumes ok: "string_ok s" and al: "al_ok al STRING_MIN_SIZE" and plain: "map_of json_short_escapes c = None" "c \<noteq> QUOTE" "c \<noteq> BACKSLASH"
    and len: "unat (str_size s) + length (fst (escape_step (c # cs))) + 1 < 4096"
  shows "\<exists>s'. print_utf8 al s (c # cs) = Some (Inr (int (snd (escape_step (c # cs))), s')) \<and> string_ok s' \<and>
      string_bytes s' = string_bytes s @ fst (escape_step (c # cs)) \<and>
      unat (str_size s') = unat (str_size s) + length (fst (escape_step (c # cs)))"
proof (cases "multibyte_utf8_unicode_size (c # cs) = 0")
  case True
  then have st: "escape_step (c # cs) = (not_utf8_text c, 1)" using plain by (simp add: escape_step_def)
  have "unat (str_size s) + length (not_utf8_text c) + 1 < 4096" using len st by simp
  from string_printf_small [OF ok this al]
  obtain s' where s': "string_printf al s (not_utf8_text c) = Some (Inr (int (length (not_utf8_text c)), s'))"
    "string_ok s'" "string_bytes s' = string_bytes s @ not_utf8_text c"
    "str_size s' = str_size s + of_nat (length (not_utf8_text c))" by blast
  have "unat (str_size s') = unat (str_size s) + length (not_utf8_text c)"
    unfolding s'(4) using len st by (intro unat_plus_of_nat) simp
  moreover have "print_utf8 al s (c # cs) = Some (Inr (1, s'))"
    using True s'(1) not_utf8_text_nonempty [of c] by (simp add: print_utf8_def print_not_utf8_code_def)
  ultimately show ?thesis using st s' by auto
next
  case n: False
  let ?n = "multibyte_utf8_unicode_size (c # cs)"
  have st: "escape_step (c # cs) = (take ?n (c # cs), ?n)" using n plain by (simp add: escape_step_def Let_def)
  have "unat (str_size s) + length (take ?n (c # cs)) \<le> 4096" using len st by simp
  from string_append_small [OF ok this al]
  obtain s' where s': "string_append al s (take ?n (c # cs)) = (0, s')" "string_ok s'"
    "string_bytes s' = string_bytes s @ take ?n (c # cs)"
    "unat (str_size s') = unat (str_size s) + length (take ?n (c # cs))" by blast
  then have "print_utf8 al s (c # cs) = Some (Inr (int ?n, s'))" using n by (simp add: print_utf8_def Let_def)
  then show ?thesis using st s' by auto
qed

text \<open>One round of the loop appends what one escape step prescribes.\<close>

lemma append_json_step:
  assumes ok: "string_ok s" and c: "c \<noteq> NUL" and al: "al_ok al STRING_MIN_SIZE"
    and len: "unat (str_size s) + length (fst (escape_step (c # cs))) + 1 < 4096"
  shows "\<exists>s'. append_json_loop al s (c # cs) =
        append_json_loop al s' (drop (snd (escape_step (c # cs))) (c # cs)) \<and> string_ok s' \<and>
      string_bytes s' = string_bytes s @ fst (escape_step (c # cs)) \<and>
      unat (str_size s') = unat (str_size s) + length (fst (escape_step (c # cs)))"
proof (cases "map_of json_short_escapes c")
  case (Some e)
  then have st: "escape_step (c # cs) = ([BACKSLASH, e], 1)" by (simp add: escape_step_def)
  with string_append_small [OF ok _ al, of "[BACKSLASH, e]"] len
  obtain s' where s': "string_append al s [BACKSLASH, e] = (0, s')" "string_ok s'"
    "string_bytes s' = string_bytes s @ [BACKSLASH, e]" "unat (str_size s') = unat (str_size s) + 2"
    by auto
  have "append_json_loop al s (c # cs) = append_json_loop al s' cs"
    using Some c s'(1)
    by (subst append_json_loop.simps)
       (simp add: strchr_hit_short print_json_escaped_character_def string_append_string_def)
  with st s' show ?thesis by auto
next
  case None
  show ?thesis
  proof (cases "c = QUOTE \<or> c = BACKSLASH")
    case True
    then have st: "escape_step (c # cs) = ([BACKSLASH, c], 1)" using None by (simp add: escape_step_def)
    with string_append_small [OF ok _ al, of "[BACKSLASH]"] len obtain s1 where s1: "string_append al s [BACKSLASH] = (0, s1)" "string_ok s1"
      "string_bytes s1 = string_bytes s @ [BACKSLASH]" "unat (str_size s1) = unat (str_size s) + 1" by auto
    with string_append_small [OF s1(2) _ al, of "[c]"] st len obtain s2 where s2: "string_append al s1 [c] = (0, s2)" "string_ok s2"
      "string_bytes s2 = string_bytes s1 @ [c]" "unat (str_size s2) = unat (str_size s1) + 1" by auto
    have "append_json_loop al s (c # cs) = append_json_loop al s2 cs"
      using None True c s1(1) s2(1)
      by (subst append_json_loop.simps) (simp add: strchr_hit_short strchr_hit_quote string_append_string_def)
    with st s1 s2 show ?thesis by auto
  next
    case False
    from print_utf8_step [OF ok al None _ _ len] False obtain s' where s': "print_utf8 al s (c # cs) = Some (Inr (int (snd (escape_step (c # cs))), s'))"
      "string_ok s'" "string_bytes s' = string_bytes s @ fst (escape_step (c # cs))"
      "unat (str_size s') = unat (str_size s) + length (fst (escape_step (c # cs)))" by blast
    have "append_json_loop al s (c # cs) = append_json_loop al s' (drop (snd (escape_step (c # cs))) (c # cs))"
      using None False c s'(1) by (subst append_json_loop.simps) (simp add: strchr_hit_short strchr_hit_quote)
    with s'(2-) show ?thesis by blast
  qed
qed

lemma json_escape_Cons:
  "json_escape (c # cs) = fst (escape_step (c # cs)) @ json_escape (drop (snd (escape_step (c # cs))) (c # cs))"
  by (simp add: json_escape.simps split: prod.splits)

lemma append_json_loop_small:
  assumes "string_ok s" and "NUL \<notin> set data" and al: "al_ok al STRING_MIN_SIZE"
    and "unat (str_size s) + length (json_escape data) + 1 < 4096"
  shows "\<exists>s'. append_json_loop al s data = Some (Inr (0, s')) \<and> string_ok s' \<and>
      string_bytes s' = string_bytes s @ json_escape data"
  using assms(1,2,4)
proof (induction data arbitrary: s rule: json_escape.induct)
  case 1
  then show ?case by (subst append_json_loop.simps) (simp add: json_escape.simps)
next
  case (2 c cs)
  let ?st = "escape_step (c # cs)"
  let ?rest = "drop (snd ?st) (c # cs)"
  have esc: "json_escape (c # cs) = fst ?st @ json_escape ?rest" by (rule json_escape_Cons)
  have "unat (str_size s) + length (fst ?st) + 1 < 4096" using 2(4) esc by simp
  from append_json_step [OF 2(2) _ al this] 2(3)
  obtain s1 where s1: "append_json_loop al s (c # cs) = append_json_loop al s1 ?rest" "string_ok s1"
    "string_bytes s1 = string_bytes s @ fst ?st"
    "unat (str_size s1) = unat (str_size s) + length (fst ?st)" by auto
  have "NUL \<notin> set ?rest" using 2(3) set_drop_subset [of "snd ?st" "c # cs"] by auto
  moreover have "unat (str_size s1) + length (json_escape ?rest) + 1 < 4096" using 2(4) esc s1(4) by simp
  ultimately show ?case
    using 2(1) [of "fst ?st" "snd ?st" s1] s1 esc by auto
qed

section \<open>Round trip\<close>

lemma unat_of_char_32: "unat (of_char c :: 32 word) = of_char c"
proof -
  have "(of_char c :: nat) < 2 ^ LENGTH(32)" by (rule less_le_trans [OF nat_of_char_less_256]) simp
  then show ?thesis
    unfolding of_nat_of_char [symmetric, where 'a = "32 word"] unat_of_nat by (rule mod_less)
qed

lemma unat_of_char_8: "unat (of_char c :: 8 word) = of_char c"
proof -
  have "(of_char c :: nat) < 2 ^ LENGTH(8)" by (rule less_le_trans [OF nat_of_char_less_256]) simp
  then show ?thesis
    unfolding of_nat_of_char [symmetric, where 'a = "8 word"] unat_of_nat by (rule mod_less)
qed

lemma utf8_ascii: "utf8_leading_ones c = 0 \<longleftrightarrow> (of_char c :: nat) < 128"
proof -
  let ?n = "of_char c :: nat"
  let ?w = "push_bit 24 (of_char c :: 32 word)"
  have n: "?n < 256" by (rule nat_of_char_less_256)
  have w: "unat ?w = 2 ^ 24 * ?n"
    unfolding unsigned_push_bit_eq unat_of_char_32 using n
    by (simp add: push_bit_eq_mult take_bit_eq_mod mult.commute)
  have "NOT ?w = -1 - ?w" by (simp add: not_eq_complement)
  also have "unat (-1 - ?w) = unat (-1 :: 32 word) - unat ?w" by (rule unat_sub) simp
  finally have u: "unat (NOT ?w) = 2 ^ 32 - 1 - 2 ^ 24 * ?n"
    unfolding w by (simp add: unsigned_minus_1_eq_mask mask_eq_exp_minus_1)
  show ?thesis
  proof (cases "?n < 128")
    case True
    then have "2 ^ 31 \<le> unat (NOT ?w)" using u by simp
    then have "\<not> bit_length (unat (NOT ?w)) \<le> 31"
      using bit_length_upper [of "unat (NOT ?w)"] power_increasing [of "bit_length (unat (NOT ?w))" 31 "2::nat"]
      by linarith
    then show ?thesis using True by (simp add: utf8_leading_ones_def clz_def)
  next
    case False
    then have "unat (NOT ?w) \<le> 2 ^ 31 - 1" using u by simp
    then have "bit_length (unat (NOT ?w)) \<le> 31" by (rule bit_length_le)
    then show ?thesis using False by (simp add: utf8_leading_ones_def clz_def)
  qed
qed

lemma utf8_trailing: "(of_char c :: 8 word) AND 0xc0 = 0x80 \<Longrightarrow> 128 \<le> (of_char c :: nat)"
proof (rule ccontr)
  assume eq: "(of_char c :: 8 word) AND 0xc0 = 0x80" and "\<not> 128 \<le> (of_char c :: nat)"
  then have "\<not> bit (unat (of_char c :: 8 word)) 7" by (simp add: unat_of_char_8 bit_iff_odd)
  then have "\<not> bit (of_char c :: 8 word) 7" by (simp add: bit_unsigned_iff)
  then have "\<not> bit ((of_char c :: 8 word) AND 0xc0) 7" by (simp add: bit_and_iff)
  then show False unfolding eq by simp
qed

lemma multibyte_high:
  assumes "1 < multibyte_utf8_unicode_size (c # cs)"
  shows "x \<in> set (take (multibyte_utf8_unicode_size (c # cs)) (c # cs)) \<Longrightarrow> 128 \<le> (of_char x :: nat)"
proof -
  assume x: "x \<in> set (take (multibyte_utf8_unicode_size (c # cs)) (c # cs))"
  let ?k = "utf8_leading_ones c"
  have k: "multibyte_utf8_unicode_size (c # cs) = ?k" "?k \<noteq> 0"
    "list_all (\<lambda>c. (of_char c :: 8 word) AND 0xc0 = 0x80) (take (?k - 1) cs)"
    using assms by (auto simp: multibyte_utf8_unicode_size_def Let_def split: if_splits)
  show "128 \<le> (of_char x :: nat)"
  proof (cases "x = c")
    case True
    with k(2) show ?thesis using utf8_ascii [of c] by simp
  next
    case False
    with x k(1,2) have "x \<in> set (take (?k - 1) cs)" by (cases ?k) auto
    with k(3) have "(of_char x :: 8 word) AND 0xc0 = 0x80" by (simp add: list_all_iff)
    then show ?thesis by (rule utf8_trailing)
  qed
qed

lemma json_unescape_high:
  "\<forall>x \<in> set xs. 128 \<le> (of_char x :: nat) \<Longrightarrow> json_unescape (xs @ ys) = map_option ((@) xs) (json_unescape ys)"
proof (induction xs)
  case Nil
  then show ?case by (simp add: option.map_ident [unfolded id_def])
next
  case (Cons x xs)
  then have "128 \<le> (of_char x :: nat)" by simp
  then have "x \<noteq> BACKSLASH" "x \<noteq> QUOTE" "\<not> (of_char x :: nat) < 32" by auto
  with Cons show ?case by (simp add: option.map_comp comp_def)
qed

lemma json_unescape_step:
  assumes "multibyte_utf8_unicode_size (c # cs) \<noteq> 0"
    and "c \<in> set (map fst json_short_escapes) \<or> 32 \<le> (of_char c :: nat)"
  shows "snd (escape_step (c # cs)) = multibyte_utf8_unicode_size (c # cs) \<and>
    json_unescape (fst (escape_step (c # cs)) @ ys) =
      map_option ((@) (take (multibyte_utf8_unicode_size (c # cs)) (c # cs))) (json_unescape ys)"
    (is "?P c")
proof -
  have ascii: "multibyte_utf8_unicode_size (c # cs) = 1" if "(of_char c :: nat) < 128"
    using that utf8_ascii [of c] by (simp add: multibyte_utf8_unicode_size_def)
  show ?thesis
  proof (cases "map_of json_short_escapes c")
    case (Some e)
    then have ce: "(c, e) \<in> set json_short_escapes" by (rule map_of_SomeD)
    then have "(of_char c :: nat) < 128" by (auto simp: json_short_escapes_def)
    then have n: "multibyte_utf8_unicode_size (c # cs) = 1" by (rule ascii)
    have st: "escape_step (c # cs) = ([BACKSLASH, e], 1)" using Some by (simp add: escape_step_def)
    have "map_of (map (\<lambda>(a, b). (b, a)) json_short_escapes) e = Some c"
      using ce by (auto simp: json_short_escapes_def)
    then show ?thesis unfolding n st by simp
  next
    case None
    then have ge: "\<not> (of_char c :: nat) < 32" using assms(2) by (auto simp: map_of_eq_None_iff)
    show ?thesis
    proof (cases "c = QUOTE \<or> c = BACKSLASH")
      case True
      then have "(of_char c :: nat) < 128" by auto
      then have n: "multibyte_utf8_unicode_size (c # cs) = 1" by (rule ascii)
      have st: "escape_step (c # cs) = ([BACKSLASH, c], 1)"
        using None True by (simp add: escape_step_def)
      have "map_of (map (\<lambda>(a, b). (b, a)) json_short_escapes) c = None"
        using True by (auto simp: json_short_escapes_def)
      with True show ?thesis unfolding n st by auto
    next
      case False
      let ?n = "multibyte_utf8_unicode_size (c # cs)"
      have st: "escape_step (c # cs) = (take ?n (c # cs), ?n)"
        using None False assms(1) by (simp add: escape_step_def Let_def)
      show ?thesis
      proof (cases "?n = 1")
        case True
        with st False ge show ?thesis by simp
      next
        case n: False
        with assms(1) have "1 < ?n" by simp
        with st show ?thesis using multibyte_high [of c cs] json_unescape_high by simp
      qed
    qed
  qed
qed

lemma json_unescape_escape:
  "plain_utf8 data \<Longrightarrow> json_unescape (json_escape data) = Some data"
proof (induction data rule: plain_utf8.induct)
  case 1
  then show ?case by (simp add: json_escape.simps)
next
  case (2 c cs)
  let ?n = "multibyte_utf8_unicode_size (c # cs)"
  have n: "?n \<noteq> 0" and c: "c \<in> set (map fst json_short_escapes) \<or> 32 \<le> (of_char c :: nat)"
    and rest: "plain_utf8 (drop ?n (c # cs))"
    using 2(2) by (auto split: if_splits)
  have "json_unescape (json_escape (c # cs)) =
      map_option ((@) (take ?n (c # cs))) (json_unescape (json_escape (drop ?n (c # cs))))"
    using json_unescape_step [OF n c] by (simp add: json_escape_Cons)
  also have "json_unescape (json_escape (drop ?n (c # cs))) = Some (drop ?n (c # cs))"
    using 2(1) n rest by blast
  finally show ?case by simp
qed

section \<open>Properties\<close>



text \<open>The other control characters are copied as they are, so the result is not the body of a JSON
  string.\<close>

lemma json_escape_control_invalid:
  assumes "0 < (of_char c :: nat)" and "(of_char c :: nat) < 32" and "c \<notin> set (map fst json_short_escapes)"
  shows "json_unescape (json_escape [c]) = None"
proof -
  have "map_of json_short_escapes c = None" using assms(3) by (simp add: map_of_eq_None_iff image_image)
  moreover have "c \<noteq> QUOTE" "c \<noteq> BACKSLASH" using assms(2) by auto
  moreover have "multibyte_utf8_unicode_size [c] = 1"
    using assms(2) utf8_ascii [of c] by (simp add: multibyte_utf8_unicode_size_def)
  ultimately have "escape_step [c] = ([c], 1)" by (simp add: escape_step_def)
  then have "json_escape [c] = [c]" by (simp add: json_escape.simps)
  with assms(2) \<open>c \<noteq> BACKSLASH\<close> show ?thesis by simp
qed

text \<open>A NUL byte stops the escaping: the call prints its hint and reports an error, whatever
  follows.\<close>

lemma string_append_json_string_nul:
  assumes "string_ok s" and "al_ok al STRING_MIN_SIZE" and "unat (str_size s) + 8 < 4096"
  shows "\<exists>s'. string_append_json_string al s (NUL # rest) = Some (Inr (1, s')) \<and>
      string_bytes s' = string_bytes s @ not_utf8_text NUL"
proof -
  have "unat (str_size s) + length (not_utf8_text NUL) + 1 < 4096"
    using assms(3) length_not_utf8_text [of NUL] by linarith
  from string_printf_small [OF assms(1) this assms(2)]
  obtain s' where s': "string_printf al s (not_utf8_text NUL) =
      Some (Inr (int (length (not_utf8_text NUL)), s'))"
    "string_bytes s' = string_bytes s @ not_utf8_text NUL" by blast
  have "map_of json_short_escapes NUL = None" by (simp add: json_short_escapes_def)
  then have "print_json_escaped_character al s NUL = Some (Inr (1, s'))"
    using s'(1) not_utf8_text_nonempty [of NUL]
    by (simp add: print_json_escaped_character_def print_not_utf8_code_def)
  then have "string_append_json_string al s (NUL # rest) = Some (Inr (1, s'))"
    unfolding string_append_json_string_def
    by (subst append_json_loop.simps) (simp add: strchr_hit_def)
  with s'(2) show ?thesis by blast
qed

section \<open>Witnesses\<close>



end
