(* ===== verification/Pair.thy ===== *)
theory Pair
  imports Prelude
begin

text \<open>
  The ordered key/value list of \<^verbatim>\<open>src/util/pair.c\<close> that carries the HTTP properties from a listener
  to a decoder. The intrusive tail queue is the list of its pairs in queue order; a value may be a
  null pointer. The comparison the lookup is given is the C library's, seen as the test for a zero
  result. Lookups through \<open>strcasecmp\<close> and \<open>strcmp\<close> are instances of the locale \<open>key_compare\<close>.
\<close>

record pair =
  pair_key :: string
  pair_value :: "string option"

type_synonym keyval_list = "pair list"

definition keyval_list_init :: keyval_list where
  "keyval_list_init = []"

definition add_key_value_pair :: "keyval_list \<Rightarrow> pair \<Rightarrow> keyval_list" where
  "add_key_value_pair list p = list @ [p]"

fun valueof :: "keyval_list \<Rightarrow> string \<Rightarrow> (string \<Rightarrow> string \<Rightarrow> bool) \<Rightarrow> string option" where
  "valueof [] key cmp0 = None"
| "valueof (p # list) key cmp0 = (if cmp0 key (pair_key p) then pair_value p else valueof list key cmp0)"

section \<open>Lookups\<close>

lemma valueof_append:
  "valueof (l1 @ l2) key cmp0 =
     (if \<exists>p \<in> set l1. cmp0 key (pair_key p) then valueof l1 key cmp0 else valueof l2 key cmp0)"
  by (induction l1) auto

lemma valueof_add:
  "valueof (add_key_value_pair l p) key cmp0 =
     (if \<exists>q \<in> set l. cmp0 key (pair_key q) then valueof l key cmp0
      else if cmp0 key (pair_key p) then pair_value p else None)"
  by (simp add: add_key_value_pair_def valueof_append)

lemma valueof_SomeD:
  "valueof l key cmp0 = Some v \<Longrightarrow> \<exists>p \<in> set l. cmp0 key (pair_key p) \<and> pair_value p = Some v"
  by (induction l) (auto split: if_splits)

text \<open>A comparison that is an equivalence: equivalent keys find the same value.\<close>

locale key_compare =
  fixes cmp0 :: "string \<Rightarrow> string \<Rightarrow> bool"
  assumes cmp_refl: "cmp0 a a"
    and cmp_sym: "cmp0 a b \<Longrightarrow> cmp0 b a"
    and cmp_trans: "cmp0 a b \<Longrightarrow> cmp0 b c \<Longrightarrow> cmp0 a c"
begin

lemma cmp_class: "cmp0 a b \<Longrightarrow> cmp0 a k \<longleftrightarrow> cmp0 b k"
  using cmp_sym cmp_trans by blast

lemma valueof_class: "cmp0 a b \<Longrightarrow> valueof l a cmp0 = valueof l b cmp0"
  using cmp_class by (induction l) auto

lemma valueof_first:
  assumes "\<And>q. q \<in> set l1 \<Longrightarrow> \<not> cmp0 (pair_key p) (pair_key q)"
  shows "valueof (l1 @ p # l2) (pair_key p) cmp0 = pair_value p"
  using assms cmp_refl by (auto simp: valueof_append)

end

interpretation case_insensitive: key_compare strcasecmp0
  by unfold_locales (auto simp: strcasecmp0_def)

interpretation case_sensitive: key_compare strcmp0
  by unfold_locales (auto simp: strcmp0_def)

section \<open>Properties\<close>

text \<open>Looking a key up without regard to case after pairs were added gives the value of the first
  added pair whose key matches, and does not depend on the case of the key that is asked for.\<close>

lemma valueof_first_added:
  assumes "\<And>q. q \<in> set l1 \<Longrightarrow> \<not> strcasecmp0 (pair_key p) (pair_key q)"
    and "strcasecmp0 key (pair_key p)"
  shows "valueof (foldl add_key_value_pair keyval_list_init (l1 @ p # l2)) key strcasecmp0 = pair_value p"
proof -
  have "foldl add_key_value_pair l ps = l @ ps" for l ps
    by (induction ps arbitrary: l) (simp_all add: add_key_value_pair_def)
  from this [of keyval_list_init] have "foldl add_key_value_pair keyval_list_init (l1 @ p # l2) = l1 @ p # l2"
    by (simp only: keyval_list_init_def append_Nil)
  moreover have "valueof (l1 @ p # l2) (pair_key p) strcasecmp0 = pair_value p"
    using assms(1) by (rule case_insensitive.valueof_first)
  ultimately show ?thesis using case_insensitive.valueof_class [OF assms(2)] by simp
qed

end
