(* ===== verification/In_Addr_List.thy ===== *)
theory In_Addr_List
  imports Prelude
begin

text \<open>
  The list of IPv4 addresses of \<^verbatim>\<open>src/util/in_addr_list.c\<close>, which the configuration fills with the
  addresses whose traffic is refused. The linked list is the list of its nodes from the head. The
  allocations are unchecked in the source, so a refused one is a null dereference.

  Its users need no more than a set of addresses: the locale \<open>address_set\<close>.
\<close>

type_synonym in_addr = "32 word"

record in_addr_list_node =
  node_addr :: in_addr

record in_addr_list =
  list_head :: "in_addr_list_node list"

definition in_addr_list_new :: "bool \<Rightarrow> in_addr_list c_result" where
  "in_addr_list_new calloc_ok = (if calloc_ok then Inr \<lparr>list_head = []\<rparr> else Inl NullDeref)"

definition in_addr_list_add :: "bool \<Rightarrow> in_addr_list \<Rightarrow> in_addr \<Rightarrow> in_addr_list c_result" where
  "in_addr_list_add calloc_ok l a =
     (if calloc_ok then Inr (l\<lparr>list_head := \<lparr>node_addr = a\<rparr> # list_head l\<rparr>) else Inl NullDeref)"

fun contains_loop :: "in_addr_list_node list \<Rightarrow> in_addr \<Rightarrow> bool" where
  "contains_loop [] a = False"
| "contains_loop (n # ns) a = (if node_addr n = a then True else contains_loop ns a)"

definition in_addr_list_contains :: "in_addr_list \<Rightarrow> in_addr \<Rightarrow> bool" where
  "in_addr_list_contains l a = contains_loop (list_head l) a"

text \<open>Deallocation unlinks and frees the head until the list is empty; the result is what was freed.\<close>

fun done_loop :: "in_addr_list_node list \<Rightarrow> in_addr_list_node list \<Rightarrow> in_addr_list_node list" where
  "done_loop [] freed = freed"
| "done_loop (n # ns) freed = done_loop ns (freed @ [n])"

definition in_addr_list_done :: "in_addr_list \<Rightarrow> in_addr_list_node list" where
  "in_addr_list_done l = done_loop (list_head l) []"

section \<open>The interface of an address set\<close>

fun add_all :: "('l \<Rightarrow> in_addr \<Rightarrow> 'l c_result) \<Rightarrow> 'l \<Rightarrow> in_addr list \<Rightarrow> 'l c_result" where
  "add_all add l [] = Inr l"
| "add_all add l (a # as) = c_bind (add l a) (\<lambda>l'. add_all add l' as)"

locale address_set =
  fixes new :: "'l c_result"
    and add :: "'l \<Rightarrow> in_addr \<Rightarrow> 'l c_result"
    and contains :: "'l \<Rightarrow> in_addr \<Rightarrow> bool"
  assumes new_empty: "new = Inr l \<Longrightarrow> \<not> contains l a"
    and add_contains: "add l a = Inr l' \<Longrightarrow> contains l' b \<longleftrightarrow> b = a \<or> contains l b"
begin

lemma add_all_contains:
  "add_all add l as = Inr l' \<Longrightarrow> contains l' b \<longleftrightarrow> b \<in> set as \<or> contains l b"
proof (induction as arbitrary: l)
  case (Cons a as)
  then obtain l1 where "add l a = Inr l1" and "add_all add l1 as = Inr l'"
    by (auto simp: c_bind_Inr_iff)
  with Cons.IH add_contains show ?case by auto
qed simp

lemma built_contains:
  assumes "c_bind new (\<lambda>l. add_all add l as) = Inr l'"
  shows "contains l' b \<longleftrightarrow> b \<in> set as"
  using assms new_empty add_all_contains by (auto simp: c_bind_Inr_iff)

end

lemma contains_loop_iff: "contains_loop ns a \<longleftrightarrow> (\<exists>n \<in> set ns. node_addr n = a)"
  by (induction ns) auto

lemma done_loop_append: "done_loop ns freed = freed @ ns"
  by (induction ns arbitrary: freed) simp_all

interpretation blacklist: address_set "in_addr_list_new ok" "in_addr_list_add ok" in_addr_list_contains for ok
  by unfold_locales
    (auto simp: in_addr_list_new_def in_addr_list_add_def in_addr_list_contains_def split: if_splits)

section \<open>Properties\<close>

text \<open>A list built by adding addresses one after another contains exactly those addresses, and its
  deallocation frees as many nodes as were added.\<close>

lemma in_addr_list_built:
  assumes "c_bind (in_addr_list_new ok) (\<lambda>l. add_all (in_addr_list_add ok) l as) = Inr l'"
  shows "(\<forall>b. in_addr_list_contains l' b \<longleftrightarrow> b \<in> set as) \<and>
    map node_addr (in_addr_list_done l') = rev as"
proof -
  have "add_all (in_addr_list_add ok) l as = Inr l' \<Longrightarrow>
      map node_addr (list_head l') = rev as @ map node_addr (list_head l)" for l as
    by (induction as arbitrary: l) (auto simp: in_addr_list_add_def c_bind_Inr_iff split: if_splits)
  moreover obtain l where "in_addr_list_new ok = Inr l" "add_all (in_addr_list_add ok) l as = Inr l'"
    using assms by (auto simp: c_bind_Inr_iff)
  ultimately show ?thesis
    using blacklist.built_contains [OF assms]
    by (auto simp: in_addr_list_done_def done_loop_append in_addr_list_new_def split: if_splits)
qed

end
