(* ===== verification/Refcount.thy ===== *)
theory Refcount
  imports Prelude
begin

text \<open>
  Objects that are shared between threads and freed by whoever drops the last reference. The message
  array (\<^verbatim>\<open>src/util/kafka_message_array.h\<close>) and the topic of the topics database
  (\<^verbatim>\<open>src/util/topic_database.c\<close>) both count references this way: the locale \<open>refcount\<close> is their
  common contract, and both theories interpret it on their own decrement.
\<close>

datatype 'c cell = Live 'c | Freed

text \<open>Dropping a reference through a pointer to the cell.\<close>

definition release :: "('c \<Rightarrow> 'c cell) \<Rightarrow> 'c cell \<Rightarrow> 'c cell c_result" where
  "release decref x = (case x of Freed \<Rightarrow> Inl UseAfterFree | Live c \<Rightarrow> Inr (decref c))"

fun release_n :: "('c \<Rightarrow> 'c cell) \<Rightarrow> nat \<Rightarrow> 'c cell \<Rightarrow> 'c cell c_result" where
  "release_n decref 0 x = Inr x"
| "release_n decref (Suc n) x = c_bind (release decref x) (release_n decref n)"

lemma release_simps [simp]:
  "release decref Freed = Inl UseAfterFree"
  "release decref (Live c) = Inr (decref c)"
  by (simp_all add: release_def)

locale refcount =
  fixes cnt :: "'c \<Rightarrow> nat"
    and body :: "'c \<Rightarrow> 'b"
    and decref :: "'c \<Rightarrow> 'c cell"
  assumes decref_last: "cnt c = 1 \<Longrightarrow> decref c = Freed"
    and decref_more: "1 < cnt c \<Longrightarrow> \<exists>c'. decref c = Live c' \<and> cnt c' = cnt c - 1 \<and> body c' = body c"
begin

lemma release_n_live:
  "n < cnt c \<Longrightarrow> \<exists>c'. release_n decref n (Live c) = Inr (Live c') \<and> cnt c' = cnt c - n \<and> body c' = body c"
proof (induction n arbitrary: c)
  case (Suc n)
  then obtain c1 where c1: "decref c = Live c1" "cnt c1 = cnt c - 1" "body c1 = body c"
    using decref_more [of c] by auto
  with Suc.prems have "n < cnt c1" by simp
  from Suc.IH [OF this] c1 show ?case by auto
qed simp

lemma release_n_add:
  "release_n decref (m + n) x = c_bind (release_n decref m x) (release_n decref n)"
  by (induction m arbitrary: x) (simp_all add: c_bind_def split: sum.split)

lemma release_n_last:
  assumes "0 < cnt c"
  shows "release_n decref (cnt c) (Live c) = Inr Freed"
proof -
  from assms obtain n where n: "cnt c = Suc n" by (cases "cnt c") auto
  then obtain c' where c': "release_n decref n (Live c) = Inr (Live c')" "cnt c' = 1"
    using release_n_live [of n c] by auto
  then show ?thesis using release_n_add [of n 1 "Live c"] decref_last [of c'] n by simp
qed

lemma release_n_excess:
  assumes "0 < cnt c" and "cnt c < n"
  shows "release_n decref n (Live c) = Inl UseAfterFree"
proof -
  from assms(2) obtain k where "n = cnt c + Suc k" using less_iff_Suc_add by auto
  with release_n_last [OF assms(1)] show ?thesis by (simp add: release_n_add del: add_Suc_right)
qed

text \<open>As many releases as references free the object, the last one and no earlier one.\<close>

lemma release_n_iff_live:
  assumes "0 < cnt c"
  shows "(\<exists>c'. release_n decref n (Live c) = Inr (Live c')) \<longleftrightarrow> n < cnt c"
  using release_n_live [of n c] release_n_last [OF assms] release_n_excess [OF assms, of n]
  by (cases n "cnt c" rule: linorder_cases) auto

end

end
