(* ===== verification/Kafka_Message_Array.thy ===== *)
theory Kafka_Message_Array
  imports CString Refcount
begin

text \<open>
  The message batch of \<^verbatim>\<open>src/util/kafka_message_array.h\<close> and \<^verbatim>\<open>src/util/kafka_message_array.c\<close>.

  The batch lives in a growing string: a header (payload buffer and count) and then the messages. The
  model keeps the string's size and the typed view of its block; whether an append succeeds is
  decided by \<open>string_can_append\<close>, the size form of the string's append. Pointers into the payload
  buffer are 64-bit words, because the code first stores offsets in them and adds the base later.

  Producing hands the batch to librdkafka (a parameter): every accepted message later gets a delivery
  report that drops one reference, the producing thread drops the references of the refused ones.
  The two run concurrently: \<open>produce_step\<close> interleaves them.
\<close>

section \<open>Types\<close>

text \<open>The error codes the sources name, and all the others.\<close>

datatype rd_kafka_resp_err =
    RD_KAFKA_RESP_ERR_NO_ERROR
  | RD_KAFKA_RESP_ERR__QUEUE_FULL
  | RD_KAFKA_RESP_ERR_MSG_SIZE_TOO_LARGE
  | RD_KAFKA_RESP_ERR__UNKNOWN_PARTITION
  | RD_KAFKA_RESP_ERR__UNKNOWN_TOPIC
  | RD_KAFKA_RESP_ERR_other int

record rd_kafka_message =
  rkm_err :: rd_kafka_resp_err
  rkm_payload :: addr
  rkm_len :: size_t
  rkm_private :: addr

record kafka_message_array_internal =
  payload_buffer :: addr
  karray_count :: size_t
  msgs :: "rd_kafka_message list"

text \<open>Sizes on x86-64 without assertions.\<close>

definition sizeof_karray :: size_t where
  "sizeof_karray = 16"

definition sizeof_rkm :: size_t where
  "sizeof_rkm = 72"

record kafka_message_array =
  kma_size :: size_t
  kma_internal :: "kafka_message_array_internal option"

definition KAFKA_MESSAGE_ARRAY_INITIALIZER :: kafka_message_array where
  "KAFKA_MESSAGE_ARRAY_INITIALIZER = \<lparr>kma_size = 0, kma_internal = None\<rparr>"

definition kafka_msg_array_init :: "kafka_message_array \<Rightarrow> kafka_message_array" where
  "kafka_msg_array_init _ = KAFKA_MESSAGE_ARRAY_INITIALIZER"

definition kafka_msg_array_done :: "kafka_message_array \<Rightarrow> kafka_message_array" where
  "kafka_msg_array_done _ = \<lparr>kma_size = 0, kma_internal = None\<rparr>"

definition kafka_message_array_size :: "kafka_message_array \<Rightarrow> size_t c_result" where
  "kafka_message_array_size array =
     (if kma_size array \<noteq> 0
      then (case kma_internal array of None \<Rightarrow> Inl NullDeref | Some k \<Rightarrow> Inr (karray_count k))
      else Inr 0)"

datatype warning_times_pos =
    LAST_WARNING_TIME__QUEUE_FULL
  | LAST_WARNING_TIME__MSG_SIZE_TOO_LARGE
  | LAST_WARNING_TIME__UNKNOWN_PARTITION
  | LAST_WARNING_TIME__UNKNOWN_TOPIC
  | LAST_WARNING_TIME__END

fun warning_pos_index :: "warning_times_pos \<Rightarrow> nat" where
  "warning_pos_index LAST_WARNING_TIME__QUEUE_FULL = 0"
| "warning_pos_index LAST_WARNING_TIME__MSG_SIZE_TOO_LARGE = 1"
| "warning_pos_index LAST_WARNING_TIME__UNKNOWN_PARTITION = 2"
| "warning_pos_index LAST_WARNING_TIME__UNKNOWN_TOPIC = 3"
| "warning_pos_index LAST_WARNING_TIME__END = 4"

text \<open>The times of the last warnings, one per error kind.\<close>

record kafka_message_array_produce_state =
  produce_error_last_time :: "time_t list"

definition produce_state_ok :: "kafka_message_array_produce_state \<Rightarrow> bool" where
  "produce_state_ok st \<longleftrightarrow>
     length (produce_error_last_time st) = warning_pos_index LAST_WARNING_TIME__END"

fun kafka_error_to_warning_time_pos :: "rd_kafka_resp_err \<Rightarrow> warning_times_pos" where
  "kafka_error_to_warning_time_pos RD_KAFKA_RESP_ERR__QUEUE_FULL = LAST_WARNING_TIME__QUEUE_FULL"
| "kafka_error_to_warning_time_pos RD_KAFKA_RESP_ERR_MSG_SIZE_TOO_LARGE = LAST_WARNING_TIME__MSG_SIZE_TOO_LARGE"
| "kafka_error_to_warning_time_pos RD_KAFKA_RESP_ERR__UNKNOWN_PARTITION = LAST_WARNING_TIME__UNKNOWN_PARTITION"
| "kafka_error_to_warning_time_pos RD_KAFKA_RESP_ERR__UNKNOWN_TOPIC = LAST_WARNING_TIME__UNKNOWN_TOPIC"
| "kafka_error_to_warning_time_pos _ = LAST_WARNING_TIME__END"

section \<open>Filling a batch\<close>

text \<open>Adding the base of the payload buffer to the stored offsets.\<close>

definition sum_payload_offset :: "addr \<Rightarrow> rd_kafka_message \<Rightarrow> rd_kafka_message" where
  "sum_payload_offset base m = m\<lparr>rkm_payload := rkm_payload m + base\<rparr>"

definition kafka_message_array_set_payload_buffer0 ::
  "kafka_message_array \<Rightarrow> addr \<Rightarrow> bool \<Rightarrow> kafka_message_array c_result" where
  "kafka_message_array_set_payload_buffer0 array buf sum_offset =
     (case kma_internal array of
        None \<Rightarrow> Inl NullDeref
      | Some k \<Rightarrow>
          let k1 = k\<lparr>payload_buffer := buf\<rparr>
          in if \<not> sum_offset then Inr (array\<lparr>kma_internal := Some k1\<rparr>)
             else c_bind (kafka_message_array_size array) (\<lambda>n.
               if length (msgs k1) < unat n then Inl OutOfBounds
               else Inr (array\<lparr>kma_internal := Some (k1\<lparr>msgs :=
                      map (sum_payload_offset buf) (take (unat n) (msgs k1)) @ drop (unat n) (msgs k1)\<rparr>)\<rparr>)))"

text \<open>
  An empty batch gets its header first. If the header were there already (an earlier call appended
  it and then failed) a second one would go where the first message belongs; \<open>kma_ok\<close> excludes it
  and every operation keeps \<open>kma_ok\<close>.
\<close>

definition append_karray_header :: "allocator \<Rightarrow> kafka_message_array \<Rightarrow> (int \<times> kafka_message_array) c_result" where
  "append_karray_header al array =
     (if string_can_append al (kma_internal array \<noteq> None) (kma_size array) sizeof_karray
      then if kma_size array = 0
           then Inr (0, \<lparr>kma_size = sizeof_karray,
                         kma_internal = Some \<lparr>payload_buffer = 0, karray_count = 0, msgs = []\<rparr>\<rparr>)
           else Inl OutOfBounds
      else Inr (-1, array))"

definition append_rkm :: "allocator \<Rightarrow> kafka_message_array \<Rightarrow> rd_kafka_message \<Rightarrow> (int \<times> kafka_message_array) c_result" where
  "append_rkm al array m =
     (if string_can_append al (kma_internal array \<noteq> None) (kma_size array) sizeof_rkm
      then (case kma_internal array of
              None \<Rightarrow> Inl NullDeref
            | Some k \<Rightarrow> Inr (0, \<lparr>kma_size = kma_size array + sizeof_rkm,
                                 kma_internal = Some (k\<lparr>msgs := msgs k @ [m], karray_count := karray_count k + 1\<rparr>)\<rparr>))
      else Inr (-1, array))"

definition kafka_msg_array_add ::
  "allocator \<Rightarrow> kafka_message_array \<Rightarrow> rd_kafka_message \<Rightarrow> (int \<times> kafka_message_array) c_result" where
  "kafka_msg_array_add al array m =
     c_bind (kafka_message_array_size array) (\<lambda>n.
       c_bind (if n = 0 then append_karray_header al array else Inr (0, array)) (\<lambda>(create_rc, array1).
         if create_rc \<noteq> 0 then Inr (create_rc, array1) else append_rkm al array1 m))"

section \<open>Releasing a batch\<close>

definition kafka_message_array_internal_decref ::
  "kafka_message_array_internal \<Rightarrow> kafka_message_array_internal cell" where
  "kafka_message_array_internal_decref k =
     (let n = karray_count k - 1 in if n = 0 then Freed else Live (k\<lparr>karray_count := n\<rparr>))"

section \<open>Producing a batch\<close>

text \<open>
  The loop over the messages librdkafka refused. \<open>pl_karray\<close> is the batch as the shared heap has it,
  \<open>pl_log\<close> the errors that were logged, \<open>now\<close> the reading of the clock in each round. A round first
  reads the message and notes its error, and drops the reference of a refused message at its end;
  the two halves are separate because delivery reports may come in between.
\<close>

record produce_loop =
  pl_msgs_ok :: size_t
  pl_karray :: "kafka_message_array_internal cell"
  pl_state :: "kafka_message_array_produce_state option"
  pl_log :: "rd_kafka_resp_err list"

definition alert_threshold :: time_t where
  "alert_threshold = 5 * 60"

text \<open>Whether to warn, and the new times: the guard of the code admits the index one past the array.\<close>

definition throttle_warning ::
  "time_t \<Rightarrow> rd_kafka_resp_err \<Rightarrow> kafka_message_array_produce_state option
   \<Rightarrow> (bool \<times> kafka_message_array_produce_state option) c_result" where
  "throttle_warning now err st =
     (let pos = warning_pos_index (kafka_error_to_warning_time_pos err)
      in case st of
           None \<Rightarrow> Inr (True, None)
         | Some s \<Rightarrow>
             if pos \<le> warning_pos_index LAST_WARNING_TIME__END
             then if length (produce_error_last_time s) \<le> pos then Inl OutOfBounds
                  else if now - produce_error_last_time s ! pos < alert_threshold then Inr (False, Some s)
                  else Inr (True, Some (s\<lparr>produce_error_last_time := (produce_error_last_time s)[pos := now]\<rparr>))
             else Inr (True, Some s))"

definition produce_error_note :: "time_t \<Rightarrow> nat \<Rightarrow> produce_loop \<Rightarrow> (bool \<times> produce_loop) c_result" where
  "produce_error_note now i l =
     (case pl_karray l of
        Freed \<Rightarrow> Inl UseAfterFree
      | Live k \<Rightarrow>
          if length (msgs k) \<le> i then Inl OutOfBounds
          else let err = rkm_err (msgs k ! i)
               in if err = RD_KAFKA_RESP_ERR_NO_ERROR then Inr (False, l)
                  else c_bind (throttle_warning now err (pl_state l)) (\<lambda>(warn, st').
                    Inr (True, l\<lparr>pl_msgs_ok := pl_msgs_ok l + 1,
                                 pl_state := st',
                                 pl_log := (if warn then pl_log l @ [err] else pl_log l)\<rparr>)))"

definition produce_error_drop :: "produce_loop \<Rightarrow> produce_loop c_result" where
  "produce_error_drop l =
     c_bind (release kafka_message_array_internal_decref (pl_karray l)) (\<lambda>k. Inr (l\<lparr>pl_karray := k\<rparr>))"

definition produce_error_round :: "time_t \<Rightarrow> nat \<Rightarrow> produce_loop \<Rightarrow> produce_loop c_result" where
  "produce_error_round now i l =
     c_bind (produce_error_note now i l) (\<lambda>(refused, l1). if refused then produce_error_drop l1 else Inr l1)"

fun produce_error_loop ::
  "(nat \<Rightarrow> time_t) \<Rightarrow> size_t \<Rightarrow> nat list \<Rightarrow> produce_loop \<Rightarrow> produce_loop c_result" where
  "produce_error_loop now batch [] l = Inr l"
| "produce_error_loop now batch (i # is) l =
     (if pl_msgs_ok l < batch
      then c_bind (produce_error_round (now i) i l) (produce_error_loop now batch is)
      else Inr l)"

text \<open>
  The whole call. \<open>produce_batch\<close> is \<^verbatim>\<open>rd_kafka_produce_batch\<close> on the topic: it returns the number of
  accepted messages and leaves an error code in each message. \<open>karray_addr\<close> is the address of the
  block. The result has the number returned, the array, the batch the call left to the delivery
  reports, the warning state and what was logged.
\<close>

type_synonym produce_batch_fn = "rd_kafka_message list \<Rightarrow> int \<Rightarrow> int \<times> rd_kafka_message list"

record produce_result =
  pres_msgs_ok :: size_t
  pres_array :: kafka_message_array
  pres_karray :: "kafka_message_array_internal cell option"
  pres_state :: "kafka_message_array_produce_state option"
  pres_log :: "rd_kafka_resp_err list"

definition kafka_message_array_produce ::
  "produce_batch_fn \<Rightarrow> (nat \<Rightarrow> time_t) \<Rightarrow> addr \<Rightarrow> kafka_message_array \<Rightarrow> int
   \<Rightarrow> kafka_message_array_produce_state option \<Rightarrow> produce_result c_result" where
  "kafka_message_array_produce produce_batch now karray_addr array rdkafka_flags st =
     c_bind (kafka_message_array_size array) (\<lambda>n.
       if n = 0
       then Inr \<lparr>pres_msgs_ok = 0, pres_array = kafka_msg_array_done array, pres_karray = None,
                 pres_state = st, pres_log = []\<rparr>
       else case kma_internal array of
              None \<Rightarrow> Inl NullDeref
            | Some k \<Rightarrow>
                if length (msgs k) < unat (karray_count k) then Inl OutOfBounds
                else
                let stolen = payload_buffer k \<noteq> 0;
                    k1 = (if stolen
                          then k\<lparr>msgs := map (\<lambda>m. m\<lparr>rkm_private := karray_addr\<rparr>) (take (unat (karray_count k)) (msgs k))
                                         @ drop (unat (karray_count k)) (msgs k)\<rparr>
                          else k);
                    messages_in_batch = karray_count k1;
                    (rc, ms') = produce_batch (take (unat (karray_count k1)) (msgs k1)) rdkafka_flags;
                    k2 = k1\<lparr>msgs := ms' @ drop (unat (karray_count k1)) (msgs k1)\<rparr>;
                    msgs_ok = word_of_int rc;
                    l0 = \<lparr>pl_msgs_ok = msgs_ok, pl_karray = Live k2, pl_state = st, pl_log = []\<rparr>
                in c_bind (if msgs_ok = messages_in_batch then Inr l0
                           else produce_error_loop now messages_in_batch [0..<unat messages_in_batch] l0) (\<lambda>l.
                     if stolen
                     then Inr \<lparr>pres_msgs_ok = pl_msgs_ok l,
                               pres_array = kafka_msg_array_done KAFKA_MESSAGE_ARRAY_INITIALIZER,
                               pres_karray = Some (pl_karray l), pres_state = pl_state l, pres_log = pl_log l\<rparr>
                     else case pl_karray l of
                            Freed \<Rightarrow> Inl DoubleFree
                          | Live _ \<Rightarrow> Inr \<lparr>pres_msgs_ok = pl_msgs_ok l, pres_array = kafka_msg_array_done array,
                                          pres_karray = None, pres_state = pl_state l, pres_log = pl_log l\<rparr>))"

section \<open>Deliveries interleaved with the producing thread\<close>

text \<open>
  \<open>pr_todo\<close> are the rounds the producing thread has left, \<open>pr_holding\<close> says that it is in the middle
  of the round of a refused message, and \<open>pr_pending\<close> are the accepted messages whose delivery report
  has not come yet; a report drops one reference.
\<close>

record produce_run =
  pr_todo :: "nat list"
  pr_holding :: bool
  pr_loop :: produce_loop
  pr_pending :: "nat set"

datatype produce_conf = Running produce_run | Faulted c_fault

inductive produce_step :: "(nat \<Rightarrow> time_t) \<Rightarrow> size_t \<Rightarrow> produce_conf \<Rightarrow> produce_conf \<Rightarrow> bool"
  for now :: "nat \<Rightarrow> time_t" and batch :: size_t where
  note_round: "\<not> pr_holding r \<Longrightarrow> pr_todo r = i # is \<Longrightarrow> pl_msgs_ok (pr_loop r) < batch \<Longrightarrow>
    produce_error_note (now i) i (pr_loop r) = Inr (refused, l') \<Longrightarrow>
    produce_step now batch (Running r) (Running (r\<lparr>pr_todo := is, pr_holding := refused, pr_loop := l'\<rparr>))"
| note_fault: "\<not> pr_holding r \<Longrightarrow> pr_todo r = i # is \<Longrightarrow> pl_msgs_ok (pr_loop r) < batch \<Longrightarrow>
    produce_error_note (now i) i (pr_loop r) = Inl e \<Longrightarrow> produce_step now batch (Running r) (Faulted e)"
| leave_loop: "\<not> pr_holding r \<Longrightarrow> pr_todo r = i # is \<Longrightarrow> \<not> pl_msgs_ok (pr_loop r) < batch \<Longrightarrow>
    produce_step now batch (Running r) (Running (r\<lparr>pr_todo := []\<rparr>))"
| drop_ref: "pr_holding r \<Longrightarrow> produce_error_drop (pr_loop r) = Inr l' \<Longrightarrow>
    produce_step now batch (Running r) (Running (r\<lparr>pr_holding := False, pr_loop := l'\<rparr>))"
| drop_fault: "pr_holding r \<Longrightarrow> produce_error_drop (pr_loop r) = Inl e \<Longrightarrow>
    produce_step now batch (Running r) (Faulted e)"
| delivered: "j \<in> pr_pending r \<Longrightarrow> produce_error_drop (pr_loop r) = Inr l' \<Longrightarrow>
    produce_step now batch (Running r) (Running (r\<lparr>pr_pending := pr_pending r - {j}, pr_loop := l'\<rparr>))"
| delivered_fault: "j \<in> pr_pending r \<Longrightarrow> produce_error_drop (pr_loop r) = Inl e \<Longrightarrow>
    produce_step now batch (Running r) (Faulted e)"

inductive_cases produce_step_cases: "produce_step now batch (Running r) c"
inductive_simps produce_step_faulted: "produce_step now batch (Faulted e) c"

definition produce_start ::
  "kafka_message_array_internal \<Rightarrow> kafka_message_array_produce_state option \<Rightarrow> produce_run" where
  "produce_start k st =
     \<lparr>pr_todo = [0..<length (msgs k)], pr_holding = False,
      pr_loop = \<lparr>pl_msgs_ok = of_nat (length (filter (\<lambda>m. rkm_err m = RD_KAFKA_RESP_ERR_NO_ERROR) (msgs k))),
                 pl_karray = Live k, pl_state = st, pl_log = []\<rparr>,
      pr_pending = {j. j < length (msgs k) \<and> rkm_err (msgs k ! j) = RD_KAFKA_RESP_ERR_NO_ERROR}\<rparr>"

section \<open>Well-formed batches\<close>

definition kma_msgs :: "kafka_message_array \<Rightarrow> rd_kafka_message list" where
  "kma_msgs array = (case kma_internal array of None \<Rightarrow> [] | Some k \<Rightarrow> msgs k)"

definition kma_ok :: "kafka_message_array \<Rightarrow> bool" where
  "kma_ok array \<longleftrightarrow>
     (case kma_internal array of
        None \<Rightarrow> kma_size array = 0
      | Some k \<Rightarrow> msgs k \<noteq> [] \<and> karray_count k = of_nat (length (msgs k)) \<and>
          unat (kma_size array) = 16 + 72 * length (msgs k) \<and> 16 + 72 * length (msgs k) \<le> 2 ^ 31)"

text \<open>Room for \<open>n\<close> more messages: the 2 GiB bound of the string.\<close>

definition kma_room :: "kafka_message_array \<Rightarrow> nat \<Rightarrow> bool" where
  "kma_room array n \<longleftrightarrow> 16 + 72 * (length (kma_msgs array) + n) \<le> 2 ^ 31"

lemma kma_ok_init [simp, inv_intros]: "kma_ok KAFKA_MESSAGE_ARRAY_INITIALIZER" "kma_ok (kafka_msg_array_init a)"
    "kma_ok (kafka_msg_array_done a)"
  by (simp_all add: kma_ok_def KAFKA_MESSAGE_ARRAY_INITIALIZER_def kafka_msg_array_init_def
      kafka_msg_array_done_def)

lemma kma_msgs_init [simp]: "kma_msgs KAFKA_MESSAGE_ARRAY_INITIALIZER = []" "kma_msgs (kafka_msg_array_init a) = []"
    "kma_msgs (kafka_msg_array_done a) = []"
  by (simp_all add: kma_msgs_def KAFKA_MESSAGE_ARRAY_INITIALIZER_def kafka_msg_array_init_def
      kafka_msg_array_done_def)

lemma kma_ok_SomeD:
  assumes "kma_ok array" and "kma_internal array = Some k"
  shows "msgs k \<noteq> []" and "unat (karray_count k) = length (msgs k)" and "karray_count k = of_nat (length (msgs k))"
    and "kma_size array \<noteq> 0" and "karray_count k \<noteq> 0" and "unat (kma_size array) = 16 + 72 * length (msgs k)"
    and "16 + 72 * length (msgs k) \<le> 2 ^ 31"
proof -
  show ne: "msgs k \<noteq> []" and c: "karray_count k = of_nat (length (msgs k))"
    and sz: "unat (kma_size array) = 16 + 72 * length (msgs k)" and b: "16 + 72 * length (msgs k) \<le> 2 ^ 31"
    using assms by (auto simp: kma_ok_def)
  show un: "unat (karray_count k) = length (msgs k)" unfolding c using b by (intro unat_of_nat_fits) simp
  show "kma_size array \<noteq> 0" using sz by auto
  show "karray_count k \<noteq> 0" using un ne by (auto simp: unsigned_eq_0_iff)
qed

lemma kafka_message_array_size_ok:
  "kma_ok array \<Longrightarrow> kafka_message_array_size array = Inr (of_nat (length (kma_msgs array)))"
  by (cases "kma_internal array")
    (auto simp: kafka_message_array_size_def kma_msgs_def kma_ok_def dest: kma_ok_SomeD)

lemma string_can_append_first_block:
  "sz + d \<le> STRING_MIN_SIZE \<Longrightarrow> unat sz + unat d < 2 ^ 64 \<Longrightarrow> string_can_append al True sz d"
proof -
  assume le: "sz + d \<le> STRING_MIN_SIZE" and fits: "unat sz + unat d < 2 ^ 64"
  then have u: "unat (sz + d) \<le> 4096" "unat (sz + d) = unat sz + unat d"
    by (simp_all add: STRING_MIN_SIZE_def word_le_nat_alt unat_add_fits)
  have "unat (next_pow2 (sz + d)) \<le> unat (next_pow2 4096)" using u by (intro next_pow2_mono) simp_all
  then have n: "\<not> STRING_MIN_SIZE < next_pow2 (sz + d)"
    using next_pow2_power [of 12 4096] by (simp add: STRING_MIN_SIZE_def word_less_nat_alt)
  show ?thesis
  proof (cases "sz < STRING_MIN_SIZE")
    case True
    with n le show ?thesis by (simp add: string_can_append_def Let_def not_less)
  next
    case False
    with u have "unat sz = 4096" "d = 0"
      by (simp_all add: STRING_MIN_SIZE_def word_less_nat_alt unsigned_eq_0_iff [symmetric, where 'a = nat])
    then show ?thesis using next_pow2_power [of 12 sz] False
      by (simp add: string_can_append_def Let_def word_less_nat_alt)
  qed
qed

lemma kafka_msg_array_add_spec:
  assumes ok: "kma_ok array" and room: "kma_room array 1"
  shows "\<exists>rc array'. kafka_msg_array_add al array m = Inr (rc, array') \<and> kma_ok array' \<and>
    (rc = 0 \<and> kma_msgs array' = kma_msgs array @ [m] \<or> rc = -1 \<and> array' = array)"
proof (cases "kma_internal array")
  case None
  then have n: "kafka_message_array_size array = Inr 0" using kafka_message_array_size_ok [OF ok]
    by (simp add: kma_msgs_def)
  have z: "kma_size array = 0" using ok None by (simp add: kma_ok_def)
  have "string_can_append al True sizeof_karray sizeof_rkm"
    by (rule string_can_append_first_block) (simp_all add: sizeof_karray_def sizeof_rkm_def STRING_MIN_SIZE_def)
  then show ?thesis using n z None ok
    by (auto simp: kafka_msg_array_add_def append_karray_header_def append_rkm_def kma_ok_def kma_msgs_def
        sizeof_karray_def sizeof_rkm_def)
next
  case (Some k)
  note k = kma_ok_SomeD [OF ok Some]
  have n: "kafka_message_array_size array = Inr (karray_count k)"
    using Some k(4) by (simp add: kafka_message_array_size_def)
  have b: "16 + 72 * (length (msgs k) + 1) \<le> 2 ^ 31" using room Some by (simp add: kma_room_def kma_msgs_def)
  have "unat (kma_size array + sizeof_rkm) = 16 + 72 * (length (msgs k) + 1)"
    using b k(6) by (subst unat_add_fits) (simp_all add: sizeof_rkm_def)
  then have "kma_ok \<lparr>kma_size = kma_size array + sizeof_rkm,
      kma_internal = Some (k\<lparr>msgs := msgs k @ [m], karray_count := karray_count k + 1\<rparr>)\<rparr>"
    using b k(3) by (simp add: kma_ok_def add.commute)
  then show ?thesis using n k(5) Some ok
    by (simp add: kafka_msg_array_add_def append_rkm_def kma_msgs_def)
qed

lemma kafka_msg_array_add_granted:
  assumes ok: "kma_ok array" and room: "kma_room array 1"
    and al: "\<And>n. al_ok al n"
  shows "\<exists>array'. kafka_msg_array_add al array m = Inr (0, array')"
proof (cases "kma_internal array")
  case None
  have z: "kma_size array = 0" using ok None by (simp add: kma_ok_def)
  have "string_can_append al True sizeof_karray sizeof_rkm"
    by (rule string_can_append_first_block) (simp_all add: sizeof_karray_def sizeof_rkm_def STRING_MIN_SIZE_def)
  moreover have "\<not> STRING_MIN_SIZE < sizeof_karray" by (simp add: STRING_MIN_SIZE_def sizeof_karray_def)
  then have "\<not> max (next_pow2 sizeof_karray) STRING_MIN_SIZE < sizeof_karray"
    by (meson less_max_iff_disj max_less_iff_conj)
  moreover have "0 < next_pow2 sizeof_karray"
    using next_pow2_pos [of sizeof_karray] by (simp add: word_less_nat_alt sizeof_karray_def)
  ultimately show ?thesis using z None al
    by (auto simp: kafka_msg_array_add_def kafka_message_array_size_def append_karray_header_def append_rkm_def
        string_can_append_def Let_def)
next
  case (Some k)
  note k = kma_ok_SomeD [OF ok Some]
  let ?x = "kma_size array + sizeof_rkm"
  have b: "16 + 72 * (length (msgs k) + 1) \<le> 2 ^ 31" using room Some by (simp add: kma_room_def kma_msgs_def)
  have "unat ?x = 16 + 72 * (length (msgs k) + 1)"
    using b k(6) by (subst unat_add_fits) (simp_all add: sizeof_rkm_def)
  then have "?x \<le> next_pow2 ?x" using next_pow2_ge [of ?x] b by (simp add: word_le_nat_alt)
  then have "string_can_append al True (kma_size array) sizeof_rkm"
    using al by (auto simp: string_can_append_def Let_def max_def)
  with Some k show ?thesis
    by (simp add: kafka_msg_array_add_def kafka_message_array_size_def append_rkm_def)
qed

section \<open>The interface of a message batch\<close>

text \<open>
  What the parsers need of a batch: adding never faults while there is room, and it takes the message
  or leaves the batch as it was.
\<close>

fun add_messages :: "('q \<Rightarrow> 'm \<Rightarrow> (int \<times> 'q) c_result) \<Rightarrow> 'q \<Rightarrow> 'm list \<Rightarrow> (int \<times> 'q) c_result" where
  "add_messages add q [] = Inr (0, q)"
| "add_messages add q (m # ms) =
     c_bind (add q m) (\<lambda>(rc, q'). if rc \<noteq> 0 then Inr (rc, q') else add_messages add q' ms)"

locale message_batch =
  fixes add :: "'q \<Rightarrow> 'm \<Rightarrow> (int \<times> 'q) c_result"
    and contents :: "'q \<Rightarrow> 'm list"
    and valid :: "'q \<Rightarrow> bool"
    and room :: "'q \<Rightarrow> nat \<Rightarrow> bool"
  assumes add_spec: "valid q \<Longrightarrow> room q 1 \<Longrightarrow> \<exists>rc q'. add q m = Inr (rc, q') \<and> valid q' \<and>
      (rc = 0 \<and> contents q' = contents q @ [m] \<or> rc = -1 \<and> q' = q)"
    and room_less: "room q n \<Longrightarrow> k \<le> n \<Longrightarrow> room q k"
    and room_step: "room q (Suc n) \<Longrightarrow> contents q' = contents q @ [m] \<Longrightarrow> room q' n"
begin

lemma add_messages_prefix:
  "valid q \<Longrightarrow> room q (length ms) \<Longrightarrow> \<exists>rc q' k. add_messages add q ms = Inr (rc, q') \<and> valid q' \<and>
     k \<le> length ms \<and> contents q' = contents q @ take k ms \<and> (rc = 0 \<longleftrightarrow> k = length ms)"
proof (induction ms arbitrary: q)
  case (Cons m ms)
  have "room q 1" using Cons.prems(2) by (rule room_less) simp
  then obtain rc q' where a: "add q m = Inr (rc, q')" "valid q'"
    "rc = 0 \<and> contents q' = contents q @ [m] \<or> rc = -1 \<and> q' = q"
    using add_spec [OF Cons.prems(1)] by blast
  show ?case
  proof (cases "rc = 0")
    case True
    with a Cons.prems(2) have "room q' (length ms)" by (auto intro: room_step)
    from Cons.IH [OF a(2) this] obtain rc2 q2 k where
      "add_messages add q' ms = Inr (rc2, q2)" "valid q2" "k \<le> length ms"
      "contents q2 = contents q' @ take k ms" "rc2 = 0 \<longleftrightarrow> k = length ms" by blast
    with True a show ?thesis
      by (intro exI [of _ rc2] exI [of _ q2] exI [of _ "Suc k"]) simp
  next
    case False
    with a Cons.prems(1) show ?thesis by (intro exI [of _ rc] exI [of _ q] exI [of _ 0]) auto
  qed
qed auto

end

interpretation batch: message_batch "kafka_msg_array_add al" kma_msgs kma_ok kma_room for al
proof (unfold_locales, goal_cases)
  case (1 q m)
  then show ?case by (rule kafka_msg_array_add_spec)
qed (auto simp: kma_room_def)

interpretation karray: refcount "\<lambda>k. unat (karray_count k)" "\<lambda>k. (payload_buffer k, msgs k)"
  kafka_message_array_internal_decref
proof (unfold_locales, goal_cases)
  case (1 c)
  then have "karray_count c = 1" by (metis unat_1 word_unat_eq_iff)
  then show ?case by (simp add: kafka_message_array_internal_decref_def)
next
  case (2 c)
  then have nz: "karray_count c \<noteq> 0" by auto
  then have u: "unat (karray_count c - 1) = unat (karray_count c) - 1" by (rule unat_minus_one)
  with 2 have "0 < unat (karray_count c - 1)" by linarith
  then have "karray_count c - 1 \<noteq> 0" by (metis less_irrefl unsigned_0)
  with u show ?case by (simp add: kafka_message_array_internal_decref_def Let_def)
qed

section \<open>References owed\<close>

text \<open>The batch with \<open>n\<close> references left.\<close>

definition with_refs :: "kafka_message_array_internal \<Rightarrow> nat \<Rightarrow> kafka_message_array_internal cell" where
  "with_refs k n = (if n = 0 then Freed else Live (k\<lparr>karray_count := of_nat n\<rparr>))"

lemma with_refs_Suc [simp]: "with_refs k (Suc n) = Live (k\<lparr>karray_count := of_nat (Suc n)\<rparr>)"
  by (simp add: with_refs_def)

lemma release_with_refs:
  assumes "n < 2 ^ 63"
  shows "release kafka_message_array_internal_decref (with_refs k (Suc n)) = Inr (with_refs k n)"
proof -
  have "(of_nat n :: size_t) = 0 \<longleftrightarrow> n = 0"
    using assms unat_of_nat_fits [of n] by (cases n) auto
  then show ?thesis by (simp add: with_refs_def kafka_message_array_internal_decref_def)
qed

definition refused :: "rd_kafka_message list \<Rightarrow> nat list \<Rightarrow> nat" where
  "refused ms is = length (filter (\<lambda>i. rkm_err (ms ! i) \<noteq> RD_KAFKA_RESP_ERR_NO_ERROR) is)"

lemma refused_simps [simp]:
  "refused ms [] = 0"
  "refused ms (i # is) = (if rkm_err (ms ! i) \<noteq> RD_KAFKA_RESP_ERR_NO_ERROR then Suc (refused ms is) else refused ms is)"
  by (simp_all add: refused_def)

lemma refused_le: "refused ms is \<le> length is"
  by (simp add: refused_def)

text \<open>The warning state never faults: there is none, or every error is one of the four known ones.\<close>

definition known_error :: "rd_kafka_resp_err \<Rightarrow> bool" where
  "known_error err \<longleftrightarrow> kafka_error_to_warning_time_pos err \<noteq> LAST_WARNING_TIME__END"

definition warnings_safe :: "kafka_message_array_produce_state option \<Rightarrow> rd_kafka_message list \<Rightarrow> bool" where
  "warnings_safe st ms \<longleftrightarrow> (case st of None \<Rightarrow> True | Some s \<Rightarrow> produce_state_ok s \<and>
     (\<forall>m \<in> set ms. rkm_err m \<noteq> RD_KAFKA_RESP_ERR_NO_ERROR \<longrightarrow> known_error (rkm_err m)))"

lemma warning_pos_index_less: "pos \<noteq> LAST_WARNING_TIME__END \<Longrightarrow> warning_pos_index pos < 4"
  by (cases pos) simp_all

lemma throttle_warning_safe:
  assumes "warnings_safe st ms" and "m \<in> set ms" and "rkm_err m \<noteq> RD_KAFKA_RESP_ERR_NO_ERROR"
  shows "\<exists>warn st'. throttle_warning now (rkm_err m) st = Inr (warn, st') \<and> warnings_safe st' ms"
proof (cases st)
  case (Some s)
  then have s: "produce_state_ok s" "warning_pos_index (kafka_error_to_warning_time_pos (rkm_err m)) < 4"
    using assms warning_pos_index_less by (auto simp: warnings_safe_def known_error_def)
  then show ?thesis using assms(1) Some
    by (auto simp: throttle_warning_def Let_def produce_state_ok_def warnings_safe_def)
qed (auto simp: throttle_warning_def Let_def warnings_safe_def)

lemma produce_error_note_with_refs:
  assumes "pl_karray l = with_refs k (Suc n)" and "i < length (msgs k)" and "warnings_safe (pl_state l) (msgs k)"
  shows "\<exists>l'. produce_error_note now i l =
      Inr (rkm_err (msgs k ! i) \<noteq> RD_KAFKA_RESP_ERR_NO_ERROR, l') \<and>
    pl_karray l' = pl_karray l \<and> warnings_safe (pl_state l') (msgs k) \<and>
    pl_msgs_ok l' = pl_msgs_ok l + of_bool (rkm_err (msgs k ! i) \<noteq> RD_KAFKA_RESP_ERR_NO_ERROR)"
proof (cases "rkm_err (msgs k ! i) = RD_KAFKA_RESP_ERR_NO_ERROR")
  case False
  moreover obtain warn st' where "throttle_warning now (rkm_err (msgs k ! i)) (pl_state l) = Inr (warn, st')"
    "warnings_safe st' (msgs k)"
    using throttle_warning_safe [OF assms(3) _ False] assms(2) nth_mem by blast
  ultimately show ?thesis using assms by (simp add: produce_error_note_def)
qed (use assms in \<open>simp add: produce_error_note_def\<close>)

lemma produce_error_drop_with_refs:
  assumes "pl_karray l = with_refs k (Suc n)" and "n < 2 ^ 63"
  shows "produce_error_drop l = Inr (l\<lparr>pl_karray := with_refs k n\<rparr>)"
  unfolding produce_error_drop_def assms(1) release_with_refs [OF assms(2)] by simp

lemma unat_batch_minus:
  assumes "F \<le> n" and "n < 2 ^ 63"
  shows "(of_nat n - of_nat F :: size_t) < of_nat n \<longleftrightarrow> 0 < F"
proof -
  have "(of_nat n - of_nat F :: size_t) = of_nat (n - F)" using assms(1) by (simp add: of_nat_diff)
  moreover have "unat (of_nat (n - F) :: size_t) = n - F" "unat (of_nat n :: size_t) = n"
    using assms(2) by (simp_all add: unat_of_nat_fits)
  ultimately show ?thesis using assms(1) by (auto simp: word_less_nat_alt)
qed

lemma produce_error_loop_spec:
  assumes "length (msgs k) < 2 ^ 63" and "set is \<subseteq> {..<length (msgs k)}"
    and "accepted + refused (msgs k) is < 2 ^ 63" and "refused (msgs k) is \<le> length (msgs k)"
    and "pl_msgs_ok l = of_nat (length (msgs k)) - of_nat (refused (msgs k) is)"
    and "pl_karray l = with_refs k (accepted + refused (msgs k) is)"
    and "warnings_safe (pl_state l) (msgs k)"
  shows "\<exists>l'. produce_error_loop now (of_nat (length (msgs k))) is l = Inr l' \<and>
    pl_msgs_ok l' = of_nat (length (msgs k)) \<and> pl_karray l' = with_refs k accepted"
  using assms
proof (induction "is" arbitrary: l)
  case (Cons i "is")
  let ?F = "refused (msgs k) (i # is)"
  show ?case
  proof (cases "?F = 0")
    case True
    then have "refused (msgs k) is = 0" by (simp split: if_splits)
    with True Cons.prems show ?thesis by simp
  next
    case False
    then obtain f where f: "?F = Suc f" by (cases ?F) auto
    have lt: "pl_msgs_ok l < of_nat (length (msgs k))"
      unfolding Cons.prems(5) using False unat_batch_minus [OF Cons.prems(4,1)] by simp
    have i: "i < length (msgs k)" using Cons.prems(2) by simp
    have "pl_karray l = with_refs k (Suc (accepted + f))" using Cons.prems(6) f by simp
    from produce_error_note_with_refs [OF this i Cons.prems(7)]
    obtain l1 where l1: "produce_error_note (now i) i l =
        Inr (rkm_err (msgs k ! i) \<noteq> RD_KAFKA_RESP_ERR_NO_ERROR, l1)"
      "pl_karray l1 = with_refs k (Suc (accepted + f))" "warnings_safe (pl_state l1) (msgs k)"
      "pl_msgs_ok l1 = pl_msgs_ok l + of_bool (rkm_err (msgs k ! i) \<noteq> RD_KAFKA_RESP_ERR_NO_ERROR)"
      using \<open>pl_karray l = with_refs k (Suc (accepted + f))\<close> by auto
    show ?thesis
    proof (cases "rkm_err (msgs k ! i) = RD_KAFKA_RESP_ERR_NO_ERROR")
      case True
      then have "produce_error_round (now i) i l = Inr l1"
        using l1(1) by (simp add: produce_error_round_def)
      moreover have "\<exists>l'. produce_error_loop now (of_nat (length (msgs k))) is l1 = Inr l' \<and>
          pl_msgs_ok l' = of_nat (length (msgs k)) \<and> pl_karray l' = with_refs k accepted"
        using Cons.prems True l1 f by (intro Cons.IH) simp_all
      ultimately show ?thesis using lt by simp
    next
      case bad: False
      then have rf: "refused (msgs k) is = f" using f by simp
      have b: "accepted + f < 2 ^ 63" using Cons.prems(3) f by simp
      let ?l2 = "l1\<lparr>pl_karray := with_refs k (accepted + f)\<rparr>"
      have "produce_error_round (now i) i l = Inr ?l2"
        using l1(1) bad produce_error_drop_with_refs [OF l1(2) b] by (simp add: produce_error_round_def)
      moreover have "\<exists>l'. produce_error_loop now (of_nat (length (msgs k))) is ?l2 = Inr l' \<and>
          pl_msgs_ok l' = of_nat (length (msgs k)) \<and> pl_karray l' = with_refs k accepted"
        using Cons.prems bad l1 rf f by (intro Cons.IH) simp_all
      ultimately show ?thesis using lt by simp
    qed
  qed
qed simp

section \<open>The interleaving\<close>

definition refs_owed :: "rd_kafka_message list \<Rightarrow> produce_run \<Rightarrow> nat" where
  "refs_owed ms r = card (pr_pending r) + refused ms (pr_todo r) + of_bool (pr_holding r)"

definition run_inv :: "kafka_message_array_internal \<Rightarrow> produce_run \<Rightarrow> bool" where
  "run_inv k r \<longleftrightarrow> finite (pr_pending r) \<and> set (pr_todo r) \<subseteq> {..<length (msgs k)} \<and>
     refused (msgs k) (pr_todo r) \<le> length (msgs k) \<and> refs_owed (msgs k) r \<le> length (msgs k) \<and>
     pl_msgs_ok (pr_loop r) = of_nat (length (msgs k)) - of_nat (refused (msgs k) (pr_todo r)) \<and>
     pl_karray (pr_loop r) = with_refs k (refs_owed (msgs k) r) \<and>
     warnings_safe (pl_state (pr_loop r)) (msgs k)"

lemma refused_all:
  "refused ms [0..<length ms] = length (filter (\<lambda>m. rkm_err m \<noteq> RD_KAFKA_RESP_ERR_NO_ERROR) ms)"
proof -
  have "filter (\<lambda>m. rkm_err m \<noteq> RD_KAFKA_RESP_ERR_NO_ERROR) (map ((!) ms) [0..<length ms]) =
      map ((!) ms) (filter (\<lambda>i. rkm_err (ms ! i) \<noteq> RD_KAFKA_RESP_ERR_NO_ERROR) [0..<length ms])"
    by (simp add: filter_map comp_def)
  then show ?thesis by (simp add: refused_def map_nth)
qed

lemma accepted_plus_refused:
  "length (filter (\<lambda>m. rkm_err m = RD_KAFKA_RESP_ERR_NO_ERROR) ms) + refused ms [0..<length ms] = length ms"
  using sum_length_filter_compl [of "\<lambda>m. rkm_err m = RD_KAFKA_RESP_ERR_NO_ERROR" ms]
  by (simp add: refused_all)

lemma card_accepted:
  "card {j. j < length ms \<and> rkm_err (ms ! j) = e} = length (filter (\<lambda>m. rkm_err m = e) ms)"
  by (simp add: length_filter_conv_card)

lemma run_inv_start:
  assumes "karray_count k = of_nat (length (msgs k))" and "msgs k \<noteq> []" and "warnings_safe st (msgs k)"
  shows "run_inv k (produce_start k st)"
proof -
  let ?A = "length (filter (\<lambda>m. rkm_err m = RD_KAFKA_RESP_ERR_NO_ERROR) (msgs k))"
  let ?F = "refused (msgs k) [0..<length (msgs k)]"
  have sum: "?A + ?F = length (msgs k)" by (rule accepted_plus_refused)
  then have "(of_nat ?A :: size_t) = of_nat (length (msgs k)) - of_nat ?F"
    by (metis add_diff_cancel_right' of_nat_add)
  moreover have "with_refs k (?A + ?F) = Live k" using assms(1,2) by (simp add: sum with_refs_def)
  ultimately show ?thesis using assms sum
    by (auto simp: run_inv_def produce_start_def refs_owed_def card_accepted)
qed

text \<open>The steps of the producing thread and of a delivery report in a state that satisfies the invariant.\<close>

lemma run_inv_more:
  assumes "run_inv k r" and "length (msgs k) < 2 ^ 63"
  shows "pl_msgs_ok (pr_loop r) < of_nat (length (msgs k)) \<longleftrightarrow> 0 < refused (msgs k) (pr_todo r)"
proof -
  have "refused (msgs k) (pr_todo r) \<le> length (msgs k)"
    and ok: "pl_msgs_ok (pr_loop r) = of_nat (length (msgs k)) - of_nat (refused (msgs k) (pr_todo r))"
    using assms(1) by (simp_all add: run_inv_def)
  then show ?thesis unfolding ok using assms(2) by (intro unat_batch_minus)
qed

lemma run_inv_drop:
  assumes "run_inv k r" and "length (msgs k) < 2 ^ 63" and "refs_owed (msgs k) r = Suc n"
  shows "produce_error_drop (pr_loop r) = Inr ((pr_loop r)\<lparr>pl_karray := with_refs k n\<rparr>)"
  using assms by (intro produce_error_drop_with_refs) (simp_all add: run_inv_def del: with_refs_Suc)

lemma run_inv_note:
  assumes "run_inv k r" and "length (msgs k) < 2 ^ 63" and "pr_todo r = i # is" and "pl_msgs_ok (pr_loop r) < of_nat (length (msgs k))"
  shows "\<exists>l'. produce_error_note (now i) i (pr_loop r) =
        Inr (rkm_err (msgs k ! i) \<noteq> RD_KAFKA_RESP_ERR_NO_ERROR, l') \<and> pl_karray l' = pl_karray (pr_loop r) \<and>
      warnings_safe (pl_state l') (msgs k) \<and> pl_msgs_ok l' = pl_msgs_ok (pr_loop r) +
        of_bool (rkm_err (msgs k ! i) \<noteq> RD_KAFKA_RESP_ERR_NO_ERROR)"
proof -
  obtain n where "refs_owed (msgs k) r = Suc n"
    using run_inv_more [OF assms(1,2)] assms(4) by (cases "refs_owed (msgs k) r") (auto simp: refs_owed_def)
  moreover have "warnings_safe (pl_state (pr_loop r)) (msgs k)" "i < length (msgs k)" "pl_karray (pr_loop r) = with_refs k (refs_owed (msgs k) r)"
    using assms(1,3) by (simp_all add: run_inv_def)
  ultimately show ?thesis using produce_error_note_with_refs [of _ k n i] by simp
qed

lemma run_inv_step:
  assumes "produce_step now (of_nat (length (msgs k))) (Running r) c" and inv: "run_inv k r"
    and len: "length (msgs k) < 2 ^ 63"
  shows "\<exists>r'. c = Running r' \<and> run_inv k r'"
proof -
  note more = run_inv_more [OF inv len] and drop = run_inv_drop [OF inv len] and note_ok = run_inv_note [OF inv len, where now = now]
  from assms(1) show ?thesis
  proof (elim produce_step_cases, goal_cases)
    case (1 i "is" refused l')
    with note_ok [of i "is"] inv show ?case by (auto simp: run_inv_def refs_owed_def split: if_splits)
  next
    case (2 i "is" e)
    with note_ok [of i "is"] show ?case by simp
  next
    case (3 i "is")
    with more have "refused (msgs k) (pr_todo r) = 0" by simp
    with 3 inv show ?case by (simp add: run_inv_def refs_owed_def)
  next
    case (4 l')
    with drop inv show ?case by (auto simp: run_inv_def refs_owed_def)
  next
    case (5 e)
    with drop show ?case by (simp add: refs_owed_def)
  next
    case (6 j l')
    then obtain n where n: "card (pr_pending r) = Suc n" "card (pr_pending r - {j}) = n"
      using inv by (cases "card (pr_pending r)") (auto simp: run_inv_def)
    with 6 drop [of "n + refused (msgs k) (pr_todo r) + of_bool (pr_holding r)"] inv show ?case
      by (auto simp: run_inv_def refs_owed_def)
  next
    case (7 j e)
    then obtain n where "card (pr_pending r) = Suc n"
      using inv by (cases "card (pr_pending r)") (auto simp: run_inv_def)
    with 7 drop show ?case by (simp add: refs_owed_def)
  qed
qed

lemma run_inv_reachable:
  assumes "(produce_step now (of_nat (length (msgs k))))\<^sup>*\<^sup>* (Running r) c" and "run_inv k r"
    and "length (msgs k) < 2 ^ 63"
  shows "\<exists>r'. c = Running r' \<and> run_inv k r'"
  using assms by (induction rule: rtranclp_induct) (auto dest: run_inv_step)

section \<open>The whole call\<close>

text \<open>
  What the documentation of librdkafka says of \<^verbatim>\<open>rd_kafka_produce_batch\<close>: it returns the number of
  messages it queued and sets the error of each message, and it changes nothing else of them.
\<close>

definition produce_batch_ok :: "produce_batch_fn \<Rightarrow> bool" where
  "produce_batch_ok pb \<longleftrightarrow> (\<forall>ms flags. case pb ms flags of (rc, ms') \<Rightarrow>
     map (\<lambda>m. m\<lparr>rkm_err := RD_KAFKA_RESP_ERR_NO_ERROR\<rparr>) ms' = map (\<lambda>m. m\<lparr>rkm_err := RD_KAFKA_RESP_ERR_NO_ERROR\<rparr>) ms \<and>
     rc = int (length (filter (\<lambda>m. rkm_err m = RD_KAFKA_RESP_ERR_NO_ERROR) ms')))"

lemma produce_batch_okD:
  assumes "produce_batch_ok pb" and "pb ms flags = (rc, ms')"
  shows "length ms' = length ms" and "map rkm_payload ms' = map rkm_payload ms"
    and "map rkm_private ms' = map rkm_private ms" and "map rkm_len ms' = map rkm_len ms"
    and "rc = int (length (filter (\<lambda>m. rkm_err m = RD_KAFKA_RESP_ERR_NO_ERROR) ms'))"
proof -
  have doc: "case (rc, ms') of (rc, ms') \<Rightarrow>
     map (\<lambda>m. m\<lparr>rkm_err := RD_KAFKA_RESP_ERR_NO_ERROR\<rparr>) ms' = map (\<lambda>m. m\<lparr>rkm_err := RD_KAFKA_RESP_ERR_NO_ERROR\<rparr>) ms \<and>
     rc = int (length (filter (\<lambda>m. rkm_err m = RD_KAFKA_RESP_ERR_NO_ERROR) ms'))"
    using assms(1) [unfolded produce_batch_ok_def, THEN spec, THEN spec, of ms flags] by (simp only: assms(2))
  then have eq: "map (\<lambda>m. m\<lparr>rkm_err := RD_KAFKA_RESP_ERR_NO_ERROR\<rparr>) ms' =
      map (\<lambda>m. m\<lparr>rkm_err := RD_KAFKA_RESP_ERR_NO_ERROR\<rparr>) ms" by simp
  show "rc = int (length (filter (\<lambda>m. rkm_err m = RD_KAFKA_RESP_ERR_NO_ERROR) ms'))" using doc by simp
  show "length ms' = length ms" using eq by (rule map_eq_imp_length_eq)
  show "map rkm_payload ms' = map rkm_payload ms" using arg_cong [OF eq, of "map rkm_payload"] by (simp add: comp_def)
  show "map rkm_private ms' = map rkm_private ms" using arg_cong [OF eq, of "map rkm_private"] by (simp add: comp_def)
  show "map rkm_len ms' = map rkm_len ms" using arg_cong [OF eq, of "map rkm_len"] by (simp add: comp_def)
qed

text \<open>The messages as librdkafka sees and leaves them: each one names the batch it belongs to.\<close>

abbreviation owned_by :: "addr \<Rightarrow> rd_kafka_message list \<Rightarrow> rd_kafka_message list" where
  "owned_by a ms \<equiv> map (\<lambda>m. m\<lparr>rkm_private := a\<rparr>) ms"

text \<open>Producing keeps the array of warning times at its length.\<close>

definition warning_slots :: "kafka_message_array_produce_state option \<Rightarrow> nat option" where
  "warning_slots st = map_option (\<lambda>s. length (produce_error_last_time s)) st"

lemma throttle_warning_slots: "throttle_warning now err st = Inr (warn, st') \<Longrightarrow> warning_slots st' = warning_slots st"
  by (auto simp: throttle_warning_def warning_slots_def Let_def split: option.splits if_splits)

lemma produce_error_round_slots:
  "produce_error_round now i l = Inr l' \<Longrightarrow> warning_slots (pl_state l') = warning_slots (pl_state l)"
  by (auto simp: produce_error_round_def produce_error_note_def produce_error_drop_def c_bind_Inr_iff Let_def
      split: cell.splits if_splits dest!: throttle_warning_slots)

lemma produce_error_loop_slots:
  "produce_error_loop now batch is l = Inr l' \<Longrightarrow> warning_slots (pl_state l') = warning_slots (pl_state l)"
proof (induction "is" arbitrary: l)
  case (Cons i "is")
  then show ?case by (auto simp: c_bind_Inr_iff split: if_splits dest!: produce_error_round_slots)
qed simp

lemma produce_slots:
  assumes "kafka_message_array_produce produce_batch now ka array flags st = Inr res"
  shows "warning_slots (pres_state res) = warning_slots st"
proof -
  obtain n where n: "kafka_message_array_size array = Inr n" using assms by (auto simp: kafka_message_array_produce_def c_bind_Inr_iff)
  show ?thesis
  proof (cases "n = 0")
    case True
    with n assms show ?thesis by (auto simp: kafka_message_array_produce_def)
  next
    case False
    with n assms obtain k where k: "kma_internal array = Some k" by (auto simp: kafka_message_array_produce_def split: option.splits)
    from False n k assms show ?thesis
      by (auto simp: kafka_message_array_produce_def c_bind_Inr_iff Let_def split: if_splits prod.splits cell.splits
          dest!: produce_error_loop_slots) (metis cell.exhaust)
  qed
qed

lemma produce_stolen:
  assumes ok: "kma_ok array" and k: "kma_internal array = Some k" and pb: "payload_buffer k \<noteq> 0"
    and doc: "produce_batch_ok produce_batch"
    and run: "produce_batch (owned_by a (msgs k)) flags = (rc, ms')" and safe: "warnings_safe st ms'"
  shows "\<exists>st' log. kafka_message_array_produce produce_batch now a array flags st =
    Inr \<lparr>pres_msgs_ok = of_nat (length (msgs k)), pres_array = KAFKA_MESSAGE_ARRAY_INITIALIZER,
         pres_karray = Some (with_refs (k\<lparr>msgs := ms'\<rparr>)
           (length (filter (\<lambda>m. rkm_err m = RD_KAFKA_RESP_ERR_NO_ERROR) ms'))),
         pres_state = st', pres_log = log\<rparr>"
proof -
  note kk = kma_ok_SomeD [OF ok k]
  note d = produce_batch_okD [OF doc run]
  let ?k2 = "k\<lparr>msgs := ms'\<rparr>"
  let ?A = "length (filter (\<lambda>m. rkm_err m = RD_KAFKA_RESP_ERR_NO_ERROR) ms')"
  let ?F = "refused ms' [0..<length ms']"
  let ?l0 = "\<lparr>pl_msgs_ok = of_nat ?A, pl_karray = Live ?k2, pl_state = st, pl_log = []\<rparr>"
  have len: "length ms' = length (msgs k)" using d(1) by simp
  have len63: "length (msgs k) < 2 ^ 63" using kk(7) by simp
  have sum: "?A + ?F = length ms'" by (rule accepted_plus_refused)
  have cnt: "karray_count k = of_nat (length ms')" using kk(3) len by simp
  have l0: "with_refs ?k2 (?A + ?F) = Live ?k2"
    using sum len kk(1) cnt by (cases k) (simp add: with_refs_def)
  have "(of_nat ?A :: size_t) = of_nat (length ms') - of_nat ?F"
    using sum by (metis add_diff_cancel_right' of_nat_add)
  then have "\<exists>l'. produce_error_loop now (of_nat (length (msgs ?k2))) [0..<length ms'] ?l0 = Inr l' \<and>
      pl_msgs_ok l' = of_nat (length (msgs ?k2)) \<and> pl_karray l' = with_refs ?k2 ?A"
    using len len63 sum l0 safe by (intro produce_error_loop_spec) auto
  then obtain l' where l': "produce_error_loop now (of_nat (length ms')) [0..<length ms'] ?l0 = Inr l'"
    "pl_msgs_ok l' = of_nat (length ms')" "pl_karray l' = with_refs ?k2 ?A" by auto
  have all: "pl_karray ?l0 = with_refs ?k2 ?A" if "(of_nat ?A :: size_t) = of_nat (length ms')"
  proof -
    have "?A = length ms'"
      using that sum len len63 unat_of_nat_fits [of ?A] unat_of_nat_fits [of "length ms'"] by simp
    with l0 sum show ?thesis by simp
  qed
  show ?thesis
    using kk k pb run l' all cnt len d(5)
    by (cases "(of_nat ?A :: size_t) = of_nat (length ms')")
      (simp_all add: kafka_message_array_produce_def kafka_message_array_size_def Let_def
        kafka_msg_array_done_def KAFKA_MESSAGE_ARRAY_INITIALIZER_def)
qed

section \<open>Properties\<close>

text \<open>C29: messages added with offsets into a payload buffer that is not allocated yet, followed by setting
  the buffer with the offsets summed, leave a well-formed batch that holds exactly the messages that were
  taken, in order, each pointing at the buffer's address plus its offset.\<close>

theorem kafka_msg_array_filled:
  assumes "16 + 72 * length ms \<le> 2 ^ 31"
    and "add_messages (kafka_msg_array_add al) KAFKA_MESSAGE_ARRAY_INITIALIZER ms = Inr (0, array)"
    and "ms \<noteq> []"
  shows "\<exists>array'. kafka_message_array_set_payload_buffer0 array buf True = Inr array' \<and> kma_ok array' \<and>
    kma_msgs array' = map (sum_payload_offset buf) ms \<and>
    map_option payload_buffer (kma_internal array') = Some buf"
proof -
  have room: "kma_room KAFKA_MESSAGE_ARRAY_INITIALIZER (length ms)" using assms(1) by (simp add: kma_room_def)
  from batch.add_messages_prefix [OF kma_ok_init(1) room, of al] assms(2)
  have ok: "kma_ok array" and m: "kma_msgs array = ms" by auto
  with assms(3) obtain k where k: "kma_internal array = Some k" "msgs k = ms"
    by (auto simp: kma_msgs_def split: option.splits)
  note kk = kma_ok_SomeD [OF ok k(1)]
  have "kafka_message_array_size array = Inr (karray_count k)"
    using k(1) kk(4) by (simp add: kafka_message_array_size_def)
  with k kk show ?thesis
    by (simp add: kafka_message_array_set_payload_buffer0_def kma_ok_def kma_msgs_def)
qed

text \<open>C26: producing a well-formed batch that owns a payload buffer, with a librdkafka that behaves as
  documented, returns; the caller's array is empty afterwards, every message given to librdkafka names
  the batch, and the batch keeps exactly one reference per accepted message: it is freed by the call
  when no message was accepted.\<close>

theorem kafka_message_array_produce_refs:
  assumes "kma_ok array" and "kma_internal array = Some k" and "payload_buffer k \<noteq> 0"
    and "produce_batch_ok produce_batch"
    and "produce_batch (owned_by a (msgs k)) flags = (rc, ms')" and "warnings_safe st ms'"
  shows "\<exists>res. kafka_message_array_produce produce_batch now a array flags st = Inr res \<and>
    pres_array res = KAFKA_MESSAGE_ARRAY_INITIALIZER \<and>
    map rkm_private ms' = replicate (length (msgs k)) a \<and>
    pres_karray res = Some (if rc = 0 then Freed else Live (k\<lparr>msgs := ms', karray_count := word_of_int rc\<rparr>))"
proof -
  have "map rkm_private ms' = replicate (length (msgs k)) a"
    using produce_batch_okD(3) [OF assms(4,5)] by (simp add: comp_def map_replicate_const)
  with produce_stolen [OF assms, of now] produce_batch_okD(5) [OF assms(4,5)] show ?thesis
    by (auto simp: with_refs_def)
qed

text \<open>The number returned is the size of the batch, also when messages were refused: the loop over the
  refused ones counts them as sent.\<close>

lemma kafka_message_array_produce_counts_refused:
  assumes "kma_ok array" and "kma_internal array = Some k" and "payload_buffer k \<noteq> 0"
    and "produce_batch_ok produce_batch"
    and "produce_batch (owned_by a (msgs k)) flags = (rc, ms')" and "warnings_safe st ms'"
  shows "map_sum id pres_msgs_ok (kafka_message_array_produce produce_batch now a array flags st) =
    Inr (karray_count k)"
  using produce_stolen [OF assms, of now] kma_ok_SomeD(3) [OF assms(1,2)] by auto


text \<open>A batch without a payload buffer stays owned by the caller; when every message of it is refused,
  the loop frees it and the end of the call frees it again.\<close>

lemma kafka_message_array_produce_double_free:
  assumes "kma_ok array" and "kma_internal array = Some k" and "payload_buffer k = 0"
    and "produce_batch_ok produce_batch"
    and "produce_batch (msgs k) flags = (0, ms')" and "warnings_safe st ms'"
  shows "kafka_message_array_produce produce_batch now a array flags st = Inl DoubleFree"
proof -
  note kk = kma_ok_SomeD [OF assms(1,2)]
  note d = produce_batch_okD [OF assms(4,5)]
  let ?k2 = "k\<lparr>msgs := ms'\<rparr>"
  let ?l0 = "\<lparr>pl_msgs_ok = 0, pl_karray = Live ?k2, pl_state = st, pl_log = []\<rparr>"
  have F: "refused ms' [0..<length ms'] = length ms'" using accepted_plus_refused [of ms'] d(5) by simp
  have cnt: "karray_count k = of_nat (length ms')" using kk(3) d(1) by simp
  have "with_refs ?k2 (0 + length ms') = Live ?k2"
    using kk(1) cnt d(1) by (cases k) (simp add: with_refs_def)
  then have "\<exists>l'. produce_error_loop now (of_nat (length (msgs ?k2))) [0..<length ms'] ?l0 = Inr l' \<and>
      pl_msgs_ok l' = of_nat (length (msgs ?k2)) \<and> pl_karray l' = with_refs ?k2 0"
    using kk(7) F d(1) assms(6) by (intro produce_error_loop_spec) auto
  then obtain l' where "produce_error_loop now (of_nat (length ms')) [0..<length ms'] ?l0 = Inr l'"
    "pl_karray l' = Freed" by (auto simp: with_refs_def)
  then show ?thesis
    using kk assms(2,3,5) cnt d(1)
    by (simp add: kafka_message_array_produce_def kafka_message_array_size_def Let_def)
qed

text \<open>An error outside the four known ones indexes the array of warning times one past its end.\<close>

lemma throttle_warning_out_of_bounds:
  assumes "produce_state_ok s" and "\<not> known_error err"
  shows "throttle_warning now err (Some s) = Inl OutOfBounds"
  using assms by (simp add: throttle_warning_def known_error_def produce_state_ok_def)

text \<open>Two warnings for the same error kind that are logged one after the other are at least five
  minutes apart.\<close>

lemma throttle_warning_spacing:
  assumes "throttle_warning t1 err (Some s) = Inr (True, Some s1)"
    and "throttle_warning t2 err (Some s1) = Inr (True, Some s2)"
  shows "5 * 60 \<le> t2 - t1"
proof -
  have "warning_pos_index (kafka_error_to_warning_time_pos err) \<le> 4"
    by (cases "kafka_error_to_warning_time_pos err") simp_all
  with assms show ?thesis
    by (auto simp: throttle_warning_def Let_def alert_threshold_def not_le split: if_splits)
qed

section \<open>Witnesses\<close>

abbreviation test_msg :: "addr \<Rightarrow> rd_kafka_message" where
  "test_msg off \<equiv> \<lparr>rkm_err = RD_KAFKA_RESP_ERR_NO_ERROR, rkm_payload = off, rkm_len = 4, rkm_private = 0\<rparr>"

abbreviation test_karray :: "addr \<Rightarrow> kafka_message_array_internal" where
  "test_karray buf \<equiv> \<lparr>payload_buffer = buf, karray_count = 2, msgs = [test_msg 0, test_msg 4]\<rparr>"

abbreviation test_array :: "addr \<Rightarrow> kafka_message_array" where
  "test_array buf \<equiv> \<lparr>kma_size = 160, kma_internal = Some (test_karray buf)\<rparr>"

text \<open>A broker connection that refuses everything because its queue is full, and one that takes all.\<close>

definition refuse_batch :: produce_batch_fn where
  "refuse_batch ms flags = (0, map (\<lambda>m. m\<lparr>rkm_err := RD_KAFKA_RESP_ERR__QUEUE_FULL\<rparr>) ms)"

definition accept_batch :: produce_batch_fn where
  "accept_batch ms flags = (int (length ms), map (\<lambda>m. m\<lparr>rkm_err := RD_KAFKA_RESP_ERR_NO_ERROR\<rparr>) ms)"

lemma refuse_batch_ok: "produce_batch_ok refuse_batch" "produce_batch_ok accept_batch"
  by (simp_all add: produce_batch_ok_def refuse_batch_def accept_batch_def comp_def filter_map)

lemma test_array_ok: "kma_ok (test_array buf)"
  by (simp add: kma_ok_def)

theorem kafka_msg_array_filled_witness:
  "\<exists>array array'. add_messages (kafka_msg_array_add total_allocator) KAFKA_MESSAGE_ARRAY_INITIALIZER
      [test_msg 0, test_msg 4] = Inr (0, array) \<and>
    kafka_message_array_set_payload_buffer0 array 1000 True = Inr array' \<and>
    map rkm_payload (kma_msgs array') = [1000, 1004]"
proof -
  let ?a0 = KAFKA_MESSAGE_ARRAY_INITIALIZER
  obtain a1 where a1: "kafka_msg_array_add total_allocator ?a0 (test_msg 0) = Inr (0, a1)"
    using kafka_msg_array_add_granted [of ?a0 total_allocator] by (auto simp: kma_room_def)
  then have "kma_ok a1" "kma_msgs a1 = [test_msg 0]"
    using kafka_msg_array_add_spec [of ?a0 total_allocator "test_msg 0"] by (auto simp: kma_room_def)
  then obtain a2 where "kafka_msg_array_add total_allocator a1 (test_msg 4) = Inr (0, a2)"
    using kafka_msg_array_add_granted [of a1 total_allocator] by (auto simp: kma_room_def)
  with a1 have a: "add_messages (kafka_msg_array_add total_allocator) ?a0 [test_msg 0, test_msg 4] = Inr (0, a2)"
    by simp
  from kafka_msg_array_filled [OF _ this, of 1000] a show ?thesis
    by (auto simp: sum_payload_offset_def)
qed

theorem kafka_message_array_produce_refs_witness:
  "\<exists>res. kafka_message_array_produce accept_batch (\<lambda>_. 0) 77 (test_array 1000) 0 None = Inr res \<and>
    (\<exists>k. pres_karray res = Some (Live k) \<and> karray_count k = 2)"
proof -
  let ?k = "test_karray 1000"
  have "accept_batch (owned_by 77 (msgs ?k)) 0 = (2, owned_by 77 (msgs ?k))" by (simp add: accept_batch_def)
  from kafka_message_array_produce_refs [OF test_array_ok [of 1000] _ _ refuse_batch_ok(2) this,
      where st = None and now = "\<lambda>_. 0"]
  obtain res where "kafka_message_array_produce accept_batch (\<lambda>_. 0) 77 (test_array 1000) 0 None = Inr res"
    "pres_karray res = Some (Live (?k\<lparr>msgs := owned_by 77 (msgs ?k), karray_count := word_of_int 2\<rparr>))"
    by (auto simp: warnings_safe_def)
  then show ?thesis by simp
qed


end
