(* ===== verification/Topic_Database.thy ===== *)
theory Topic_Database
  imports Refcount "HOL-Library.Multiset"
begin

text \<open>
  The database of Kafka topics of \<^verbatim>\<open>src/util/topic_database.c\<close> and its wrapper
  \<^verbatim>\<open>src/decoder/zz_http2k/zz_database.c\<close>: topics are found by name in a hash table, kept in a list
  ordered by last use, purged when they have not been used for fifteen minutes, and shared by
  reference counting between the database and the sessions.

  The containers (tommyds) and librdkafka are parameters: \<open>tommy\<close> and \<open>rdkafka_topics\<close> hold the
  operations the code calls, \<open>tommy_ok\<close> and \<open>rdkafka_topics_ok\<close> what it relies on. Topics live in a
  heap from addresses to cells. A lookup is two critical sections with the creation of the topic
  between them; \<open>topics_step\<close> interleaves the lookups and releases of any number of threads.
\<close>

section \<open>Parameters\<close>

type_synonym rkt = nat
type_synonym tommy_hash_t = "64 word"

record ('h, 'l) tommy =
  hash_u64 :: "64 word \<Rightarrow> string \<Rightarrow> tommy_hash_t"
  hashdyn_init :: 'h
  hashdyn_search :: "'h \<Rightarrow> (addr \<Rightarrow> bool) \<Rightarrow> tommy_hash_t \<Rightarrow> addr option"
  hashdyn_insert :: "'h \<Rightarrow> addr \<Rightarrow> tommy_hash_t \<Rightarrow> 'h"
  hashdyn_remove_existing :: "'h \<Rightarrow> addr \<Rightarrow> 'h"
  hashdyn_elems :: "'h \<Rightarrow> addr list"
  list_init :: 'l
  list_elems :: "'l \<Rightarrow> addr list"
  list_insert_tail :: "'l \<Rightarrow> addr \<Rightarrow> 'l"
  list_remove_existing :: "'l \<Rightarrow> addr \<Rightarrow> 'l"

text \<open>
  The documented behaviour of the containers. \<open>entries\<close> is the set of objects of a hash table with
  the hash each was inserted under; a search finds an object with that hash that compares equal, if
  there is one.
\<close>

definition tommy_ok :: "('h, 'l) tommy \<Rightarrow> ('h \<Rightarrow> (addr \<times> tommy_hash_t) set) \<Rightarrow> bool" where
  "tommy_ok T entries \<longleftrightarrow>
     entries (hashdyn_init T) = {} \<and>
     (\<forall>h p x. entries (hashdyn_insert T h p x) = insert (p, x) (entries h)) \<and>
     (\<forall>h p. entries (hashdyn_remove_existing T h p) = {e \<in> entries h. fst e \<noteq> p}) \<and>
     (\<forall>h. set (hashdyn_elems T h) = fst ` entries h \<and> distinct (hashdyn_elems T h)) \<and>
     (\<forall>h cmp x. case hashdyn_search T h cmp x of
        Some p \<Rightarrow> (p, x) \<in> entries h \<and> cmp p
      | None \<Rightarrow> (\<forall>p. (p, x) \<in> entries h \<longrightarrow> \<not> cmp p)) \<and>
     list_elems T (list_init T) = [] \<and>
     (\<forall>l p. list_elems T (list_insert_tail T l p) = list_elems T l @ [p]) \<and>
     (\<forall>l p. list_elems T (list_remove_existing T l p) = remove1 p (list_elems T l))"

record rdkafka_topics =
  rd_kafka_topic_new :: "string \<Rightarrow> rkt option"
  rd_kafka_topic_name :: "rkt \<Rightarrow> string"

definition rdkafka_topics_ok :: "rdkafka_topics \<Rightarrow> bool" where
  "rdkafka_topics_ok R \<longleftrightarrow> (\<forall>name r. rd_kafka_topic_new R name = Some r \<longrightarrow> rd_kafka_topic_name R r = name)"

section \<open>Topics\<close>

definition hash_init :: "64 word" where
  "hash_init = 0x0123456789abcdef"

definition topic_live_time_s :: time_t where
  "topic_live_time_s = 15 * 60"

record topic_s =
  topic_rkt :: rkt
  topic_refcnt :: "64 word"
  topic_timestamp :: time_t

type_synonym topic_heap = "addr \<Rightarrow> topic_s cell option"

definition topics_db_get_rdkafka_topic :: "topic_s \<Rightarrow> rkt" where
  "topics_db_get_rdkafka_topic t = topic_rkt t"

text \<open>The decrement on a topic, and through a pointer.\<close>

definition topic_decref_cell :: "topic_s \<Rightarrow> topic_s cell" where
  "topic_decref_cell t =
     (let n = topic_refcnt t - 1 in if n = 0 then Freed else Live (t\<lparr>topic_refcnt := n\<rparr>))"

definition topic_decref :: "topic_heap \<Rightarrow> addr \<Rightarrow> topic_heap c_result" where
  "topic_decref H p =
     (case H p of
        None \<Rightarrow> Inl UseAfterFree
      | Some c \<Rightarrow> c_bind (release topic_decref_cell c) (\<lambda>c'. Inr (H(p \<mapsto> c'))))"

definition topics_cmp :: "rdkafka_topics \<Rightarrow> topic_s \<Rightarrow> string \<Rightarrow> bool" where
  "topics_cmp R t topic_name \<longleftrightarrow> strcmp0 (rd_kafka_topic_name R (topic_rkt t)) topic_name"

definition void_topics_cmp :: "rdkafka_topics \<Rightarrow> topic_heap \<Rightarrow> string \<Rightarrow> addr \<Rightarrow> bool" where
  "void_topics_cmp R H topic_name p =
     (case H p of Some (Live t) \<Rightarrow> topics_cmp R t topic_name | _ \<Rightarrow> False)"

text \<open>A new topic with one reference; \<open>a\<close> is what the allocator returns.\<close>

definition new_topic_s :: "rdkafka_topics \<Rightarrow> topic_heap \<Rightarrow> addr option \<Rightarrow> string \<Rightarrow> (addr option \<times> topic_heap)" where
  "new_topic_s R H a topic_name =
     (case rd_kafka_topic_new R topic_name of
        None \<Rightarrow> (None, H)
      | Some r \<Rightarrow>
          (case a of
             None \<Rightarrow> (None, H)
           | Some p \<Rightarrow> (Some p, H(p \<mapsto> Live \<lparr>topic_rkt = r, topic_refcnt = 1, topic_timestamp = 0\<rparr>))))"

section \<open>The database\<close>

record ('h, 'l) topics_db =
  db_hashtable :: 'h
  db_lru :: 'l

definition topics_db_new :: "('h, 'l) tommy \<Rightarrow> bool \<Rightarrow> ('h, 'l) topics_db option" where
  "topics_db_new T calloc_ok =
     (if calloc_ok then Some \<lparr>db_hashtable = hashdyn_init T, db_lru = list_init T\<rparr> else None)"

definition node_older_than :: "topic_s \<Rightarrow> time_t \<Rightarrow> bool" where
  "node_older_than t age \<longleftrightarrow> age - topic_timestamp t > 0"

text \<open>The walk over the use list reads the successor before it may remove the node.\<close>

fun purge_loop ::
  "('h, 'l) tommy \<Rightarrow> time_t \<Rightarrow> addr list \<Rightarrow> topic_heap \<Rightarrow> ('h, 'l) topics_db
   \<Rightarrow> (topic_heap \<times> ('h, 'l) topics_db) c_result" where
  "purge_loop T age_limit [] H db = Inr (H, db)"
| "purge_loop T age_limit (p # ps) H db =
     (case H p of
        Some (Live t) \<Rightarrow>
          if node_older_than t age_limit
          then let db1 = db\<lparr>db_hashtable := hashdyn_remove_existing T (db_hashtable db) p,
                            db_lru := list_remove_existing T (db_lru db) p\<rparr>
               in c_bind (topic_decref H p) (\<lambda>H1. purge_loop T age_limit ps H1 db1)
          else purge_loop T age_limit ps H db
      | _ \<Rightarrow> Inl UseAfterFree)"

definition purge_topics_older_than ::
  "('h, 'l) tommy \<Rightarrow> topic_heap \<Rightarrow> ('h, 'l) topics_db \<Rightarrow> time_t
   \<Rightarrow> (topic_heap \<times> ('h, 'l) topics_db) c_result" where
  "purge_topics_older_than T H db age_limit = purge_loop T age_limit (list_elems T (db_lru db)) H db"

text \<open>
  A search compares objects of the table, all of which have to be live; the model faults as soon as
  one of them is not.
\<close>

definition topics_search ::
  "('h, 'l) tommy \<Rightarrow> rdkafka_topics \<Rightarrow> topic_heap \<Rightarrow> ('h, 'l) topics_db \<Rightarrow> string \<Rightarrow> addr option c_result" where
  "topics_search T R H db topic =
     (if list_all (\<lambda>p. case H p of Some (Live _) \<Rightarrow> True | _ \<Rightarrow> False) (hashdyn_elems T (db_hashtable db))
      then Inr (hashdyn_search T (db_hashtable db) (void_topics_cmp R H topic) (hash_u64 T hash_init topic))
      else Inl UseAfterFree)"

text \<open>From the label rkt\_found on: purge, stamp, put at the end of the use list, take a reference.\<close>

definition rkt_found ::
  "('h, 'l) tommy \<Rightarrow> topic_heap \<Rightarrow> ('h, 'l) topics_db \<Rightarrow> addr \<Rightarrow> time_t
   \<Rightarrow> (addr \<times> topic_heap \<times> ('h, 'l) topics_db) c_result" where
  "rkt_found T H db ret now =
     c_bind (purge_topics_older_than T H db (now - topic_live_time_s)) (\<lambda>(H1, db1).
       case H1 ret of
         Some (Live t) \<Rightarrow>
           Inr (ret,
                H1(ret \<mapsto> Live (t\<lparr>topic_timestamp := now, topic_refcnt := topic_refcnt t + 1\<rparr>)),
                db1\<lparr>db_lru := list_insert_tail T (db_lru db1) ret\<rparr>)
       | _ \<Rightarrow> Inl UseAfterFree)"

text \<open>The first critical section: the topic, or nothing when it has to be created.\<close>

definition get_topic_lookup ::
  "('h, 'l) tommy \<Rightarrow> rdkafka_topics \<Rightarrow> topic_heap \<Rightarrow> ('h, 'l) topics_db \<Rightarrow> string \<Rightarrow> time_t
   \<Rightarrow> (addr \<times> topic_heap \<times> ('h, 'l) topics_db) option c_result" where
  "get_topic_lookup T R H db topic now =
     c_bind (topics_search T R H db topic) (\<lambda>found.
       case found of
         None \<Rightarrow> Inr None
       | Some p \<Rightarrow>
           c_bind (rkt_found T H (db\<lparr>db_lru := list_remove_existing T (db_lru db) p\<rparr>) p now) (\<lambda>r. Inr (Some r)))"

text \<open>The second critical section, with the topic \<open>ret\<close> that was created in between.\<close>

definition get_topic_insert ::
  "('h, 'l) tommy \<Rightarrow> rdkafka_topics \<Rightarrow> topic_heap \<Rightarrow> ('h, 'l) topics_db \<Rightarrow> string \<Rightarrow> time_t \<Rightarrow> addr
   \<Rightarrow> (addr \<times> topic_heap \<times> ('h, 'l) topics_db) c_result" where
  "get_topic_insert T R H db topic now ret =
     c_bind (topics_search T R H db topic) (\<lambda>found.
       case found of
         Some aux \<Rightarrow>
           c_bind (topic_decref H ret) (\<lambda>H1.
             rkt_found T H1 (db\<lparr>db_lru := list_remove_existing T (db_lru db) aux\<rparr>) aux now)
       | None \<Rightarrow>
           rkt_found T H (db\<lparr>db_hashtable :=
             hashdyn_insert T (db_hashtable db) ret (hash_u64 T hash_init topic)\<rparr>) ret now)"

definition topics_db_get_topic ::
  "('h, 'l) tommy \<Rightarrow> rdkafka_topics \<Rightarrow> addr option \<Rightarrow> topic_heap \<Rightarrow> ('h, 'l) topics_db \<Rightarrow> string \<Rightarrow> time_t
   \<Rightarrow> (addr option \<times> topic_heap \<times> ('h, 'l) topics_db) c_result" where
  "topics_db_get_topic T R a H db topic now =
     c_bind (get_topic_lookup T R H db topic now) (\<lambda>r.
       case r of
         Some (p, H1, db1) \<Rightarrow> Inr (Some p, H1, db1)
       | None \<Rightarrow>
           (case new_topic_s R H a topic of
              (None, H1) \<Rightarrow> Inr (None, H1, db)
            | (Some ret, H1) \<Rightarrow>
                c_bind (get_topic_insert T R H1 db topic now ret) (\<lambda>(p, H2, db2). Inr (Some p, H2, db2))))"

fun decref_all :: "topic_heap \<Rightarrow> addr list \<Rightarrow> topic_heap c_result" where
  "decref_all H [] = Inr H"
| "decref_all H (p # ps) = c_bind (topic_decref H p) (\<lambda>H1. decref_all H1 ps)"

definition topics_db_done :: "('h, 'l) tommy \<Rightarrow> topic_heap \<Rightarrow> ('h, 'l) topics_db \<Rightarrow> topic_heap c_result" where
  "topics_db_done T H db = decref_all H (hashdyn_elems T (db_hashtable db))"

section \<open>The wrapper of the HTTP decoder\<close>

record ('h, 'l) zz_database =
  zz_topics_db :: "('h, 'l) topics_db option"

definition init_zz_database :: "('h, 'l) tommy \<Rightarrow> bool \<Rightarrow> int \<times> ('h, 'l) zz_database" where
  "init_zz_database T calloc_ok =
     (let d = topics_db_new T calloc_ok in (if d \<noteq> None then 0 else 1, \<lparr>zz_topics_db = d\<rparr>))"

definition free_valid_zz_database :: "('h, 'l) tommy \<Rightarrow> topic_heap \<Rightarrow> ('h, 'l) zz_database \<Rightarrow> topic_heap c_result" where
  "free_valid_zz_database T H z =
     (case zz_topics_db z of None \<Rightarrow> Inr H | Some d \<Rightarrow> topics_db_done T H d)"

definition zz_http2k_database_get_topic ::
  "('h, 'l) tommy \<Rightarrow> rdkafka_topics \<Rightarrow> addr option \<Rightarrow> topic_heap \<Rightarrow> ('h, 'l) zz_database \<Rightarrow> string \<Rightarrow> time_t
   \<Rightarrow> (addr option \<times> topic_heap \<times> ('h, 'l) zz_database) c_result" where
  "zz_http2k_database_get_topic T R a H z topic now =
     (case zz_topics_db z of
        None \<Rightarrow> Inl NullDeref
      | Some d \<Rightarrow>
          c_bind (topics_db_get_topic T R a H d topic now) (\<lambda>(p, H1, d1).
            Inr (p, H1, z\<lparr>zz_topics_db := Some d1\<rparr>)))"

section \<open>Threads\<close>

text \<open>
  \<open>ts_held\<close> are the references that lookups returned and that were not released yet, \<open>ts_created\<close>
  the lookups between their two critical sections, with the name, the time and the topic each has
  created. The bound on the number of references stands for the size of the address space.
\<close>

record ('h, 'l) topics_sys =
  ts_heap :: topic_heap
  ts_db :: "('h, 'l) topics_db"
  ts_held :: "addr multiset"
  ts_created :: "(string \<times> time_t \<times> addr) multiset"

datatype ('h, 'l) topics_conf = TRunning "('h, 'l) topics_sys" | TFaulted c_fault

definition refs_bounded :: "('h, 'l) topics_sys \<Rightarrow> bool" where
  "refs_bounded s \<longleftrightarrow> size (ts_held s) + size (ts_created s) + 3 < 2 ^ 64"

inductive topics_step ::
  "('h, 'l) tommy \<Rightarrow> rdkafka_topics \<Rightarrow> ('h, 'l) topics_conf \<Rightarrow> ('h, 'l) topics_conf \<Rightarrow> bool"
  for T :: "('h, 'l) tommy" and R :: rdkafka_topics where
  lookup_hit: "refs_bounded s \<Longrightarrow>
    get_topic_lookup T R (ts_heap s) (ts_db s) topic now = Inr (Some (p, H, db)) \<Longrightarrow>
    topics_step T R (TRunning s) (TRunning (s\<lparr>ts_heap := H, ts_db := db, ts_held := add_mset p (ts_held s)\<rparr>))"
| lookup_miss: "refs_bounded s \<Longrightarrow>
    get_topic_lookup T R (ts_heap s) (ts_db s) topic now = Inr None \<Longrightarrow>
    (\<And>c. ts_heap s a = Some c \<Longrightarrow> c = Freed) \<Longrightarrow>
    new_topic_s R (ts_heap s) (Some a) topic = (Some a, H) \<Longrightarrow>
    topics_step T R (TRunning s)
      (TRunning (s\<lparr>ts_heap := H, ts_created := add_mset (topic, now, a) (ts_created s)\<rparr>))"
| lookup_fault: "get_topic_lookup T R (ts_heap s) (ts_db s) topic now = Inl e \<Longrightarrow>
    topics_step T R (TRunning s) (TFaulted e)"
| inserted: "ts_created s = add_mset (topic, now, a) created \<Longrightarrow>
    get_topic_insert T R (ts_heap s) (ts_db s) topic now a = Inr (p, H, db) \<Longrightarrow>
    topics_step T R (TRunning s)
      (TRunning (s\<lparr>ts_heap := H, ts_db := db, ts_held := add_mset p (ts_held s), ts_created := created\<rparr>))"
| inserted_fault: "ts_created s = add_mset (topic, now, a) created \<Longrightarrow>
    get_topic_insert T R (ts_heap s) (ts_db s) topic now a = Inl e \<Longrightarrow>
    topics_step T R (TRunning s) (TFaulted e)"
| dropped: "ts_held s = add_mset p held \<Longrightarrow> topic_decref (ts_heap s) p = Inr H \<Longrightarrow>
    topics_step T R (TRunning s) (TRunning (s\<lparr>ts_heap := H, ts_held := held\<rparr>))"
| dropped_fault: "ts_held s = add_mset p held \<Longrightarrow> topic_decref (ts_heap s) p = Inl e \<Longrightarrow>
    topics_step T R (TRunning s) (TFaulted e)"

inductive_cases topics_step_cases: "topics_step T R (TRunning s) c"

section \<open>Reference counts\<close>

interpretation topic: refcount "\<lambda>t. unat (topic_refcnt t)" "\<lambda>t. (topic_rkt t, topic_timestamp t)" topic_decref_cell
proof (unfold_locales, goal_cases)
  case (1 c)
  then have "topic_refcnt c = 1" by (metis unat_1 word_unat_eq_iff)
  then show ?case by (simp add: topic_decref_cell_def)
next
  case (2 c)
  then have "topic_refcnt c \<noteq> 0" by auto
  then have u: "unat (topic_refcnt c - 1) = unat (topic_refcnt c) - 1" by (rule unat_minus_one)
  with 2 have "0 < unat (topic_refcnt c - 1)" by linarith
  then have "topic_refcnt c - 1 \<noteq> 0" by (metis less_irrefl unsigned_0)
  with u show ?case by (simp add: topic_decref_cell_def Let_def)
qed

text \<open>Every live topic has as many references as \<open>f\<close> says it has owners, and the others have none.\<close>

definition cell_refs :: "topic_s cell option \<Rightarrow> nat \<Rightarrow> bool" where
  "cell_refs c n \<longleftrightarrow>
     (case c of Some (Live t) \<Rightarrow> unat (topic_refcnt t) = n \<and> 0 < n | _ \<Rightarrow> n = 0)"

definition refs_inv :: "topic_heap \<Rightarrow> (addr \<Rightarrow> nat) \<Rightarrow> bool" where
  "refs_inv H f \<longleftrightarrow> (\<forall>p. cell_refs (H p) (f p))"

lemma cell_refs_simps [simp]:
  "cell_refs None n \<longleftrightarrow> n = 0"
  "cell_refs (Some Freed) n \<longleftrightarrow> n = 0"
  "cell_refs (Some (Live t)) n \<longleftrightarrow> unat (topic_refcnt t) = n \<and> 0 < n"
  by (simp_all add: cell_refs_def)

lemma cell_refs_cases:
  assumes "cell_refs c n"
  obtains "c = None" "n = 0" | "c = Some Freed" "n = 0"
  | t where "c = Some (Live t)" "unat (topic_refcnt t) = n" "0 < n"
  using assms by (cases c; cases "the c") auto

lemma refs_inv_upd: "refs_inv H f \<Longrightarrow> cell_refs (Some c) n \<Longrightarrow> refs_inv (H(p \<mapsto> c)) (f(p := n))"
  by (auto simp: refs_inv_def)

definition tname :: "rdkafka_topics \<Rightarrow> topic_heap \<Rightarrow> addr \<Rightarrow> string option" where
  "tname R H p =
     (case H p of Some (Live t) \<Rightarrow> Some (rd_kafka_topic_name R (topic_rkt t)) | _ \<Rightarrow> None)"

definition tstamp :: "topic_heap \<Rightarrow> addr \<Rightarrow> time_t" where
  "tstamp H p = (case H p of Some (Live t) \<Rightarrow> topic_timestamp t | _ \<Rightarrow> 0)"

lemma refs_inv_live:
  assumes "refs_inv H f" and "0 < f p"
  shows "\<exists>t. H p = Some (Live t) \<and> unat (topic_refcnt t) = f p"
proof -
  have "cell_refs (H p) (f p)" using assms(1) by (simp add: refs_inv_def)
  then show ?thesis by (rule cell_refs_cases) (use assms(2) in auto)
qed

lemma refs_inv_fresh:
  assumes "refs_inv H f" and "\<And>c. H p = Some c \<Longrightarrow> c = Freed"
  shows "f p = 0"
proof -
  have "cell_refs (H p) (f p)" using assms(1) by (simp add: refs_inv_def)
  then show ?thesis by (rule cell_refs_cases) (use assms(2) in auto)
qed

lemma topic_decref_inv:
  assumes inv: "refs_inv H f" and pos: "0 < f p"
  shows "\<exists>H'. topic_decref H p = Inr H' \<and> refs_inv H' (f(p := f p - 1)) \<and> (\<forall>q. q \<noteq> p \<longrightarrow> H' q = H q) \<and>
    (1 < f p \<longrightarrow> tname R H' p = tname R H p \<and> tstamp H' p = tstamp H p)"
proof -
  obtain t where t: "H p = Some (Live t)" "unat (topic_refcnt t) = f p" using refs_inv_live [OF inv pos] by blast
  show ?thesis
  proof (cases "f p = 1")
    case True
    then have "topic_decref H p = Inr (H(p \<mapsto> Freed))"
      using t topic.decref_last [of t] by (simp add: topic_decref_def)
    with True refs_inv_upd [OF inv, of Freed 0 p] show ?thesis by simp
  next
    case False
    then have f: "1 < f p" using pos by linarith
    then obtain t' where t': "topic_decref_cell t = Live t'" "unat (topic_refcnt t') = f p - 1"
      "topic_rkt t' = topic_rkt t" "topic_timestamp t' = topic_timestamp t"
      using topic.decref_more [of t] t(2) by auto
    then have "topic_decref H p = Inr (H(p \<mapsto> Live t'))" using t by (simp add: topic_decref_def)
    with t t' f refs_inv_upd [OF inv, of "Live t'" "f p - 1" p] show ?thesis
      by (simp add: tname_def tstamp_def)
  qed
qed

lemma topic_incref_inv:
  assumes "refs_inv H f" and "H p = Some (Live t)" and "f p + 1 < 2 ^ 64"
  shows "refs_inv (H(p \<mapsto> Live (t\<lparr>topic_timestamp := now, topic_refcnt := topic_refcnt t + 1\<rparr>))) (f(p := f p + 1))"
proof -
  have "cell_refs (H p) (f p)" using assms(1) by (simp add: refs_inv_def)
  then have "unat (topic_refcnt t) = f p" using assms(2) by simp
  then have "unat (topic_refcnt t + 1) = f p + 1"
    using assms(3) unat_plus_of_nat [of "topic_refcnt t" 1] by simp
  then show ?thesis using assms(1) by (intro refs_inv_upd) simp_all
qed

section \<open>Invariant of the database\<close>

lemma tommy_okD:
  assumes "tommy_ok T E"
  shows "E (hashdyn_init T) = {}"
    and "E (hashdyn_insert T h p x) = insert (p, x) (E h)"
    and "E (hashdyn_remove_existing T h p) = {e \<in> E h. fst e \<noteq> p}"
    and "set (hashdyn_elems T h) = fst ` E h" and "distinct (hashdyn_elems T h)"
    and "hashdyn_search T h cmp x = Some q \<Longrightarrow> (q, x) \<in> E h \<and> cmp q"
    and "hashdyn_search T h cmp x = None \<Longrightarrow> (q, x) \<in> E h \<Longrightarrow> \<not> cmp q"
    and "list_elems T (list_init T) = []"
    and "list_elems T (list_insert_tail T l p) = list_elems T l @ [p]"
    and "list_elems T (list_remove_existing T l p) = remove1 p (list_elems T l)"
proof -
  have s: "case hashdyn_search T h cmp x of Some p \<Rightarrow> (p, x) \<in> E h \<and> cmp p
      | None \<Rightarrow> (\<forall>p. (p, x) \<in> E h \<longrightarrow> \<not> cmp p)"
    using assms by (simp add: tommy_ok_def)
  then show "hashdyn_search T h cmp x = Some q \<Longrightarrow> (q, x) \<in> E h \<and> cmp q"
    and "hashdyn_search T h cmp x = None \<Longrightarrow> (q, x) \<in> E h \<Longrightarrow> \<not> cmp q" by simp_all
qed (use assms in \<open>simp_all add: tommy_ok_def\<close>)

definition db_topics :: "('h \<Rightarrow> (addr \<times> tommy_hash_t) set) \<Rightarrow> ('h, 'l) topics_db \<Rightarrow> addr set" where
  "db_topics E db = fst ` E (db_hashtable db)"

definition owners ::
  "('h \<Rightarrow> (addr \<times> tommy_hash_t) set) \<Rightarrow> ('h, 'l) topics_db \<Rightarrow> (addr \<Rightarrow> nat) \<Rightarrow> addr \<Rightarrow> nat" where
  "owners E db ext p = of_bool (p \<in> db_topics E db) + ext p"

text \<open>
  The table holds live topics under the hash of their names, no two with the same name; the use list
  has the topics \<open>L\<close>, each once; and every topic has one reference for the database, if it is in the
  table, and \<open>ext\<close> others.
\<close>

definition db_inv ::
  "('h, 'l) tommy \<Rightarrow> rdkafka_topics \<Rightarrow> ('h \<Rightarrow> (addr \<times> tommy_hash_t) set) \<Rightarrow> topic_heap
   \<Rightarrow> ('h, 'l) topics_db \<Rightarrow> addr set \<Rightarrow> (addr \<Rightarrow> nat) \<Rightarrow> bool" where
  "db_inv T R E H db L ext \<longleftrightarrow>
     refs_inv H (owners E db ext) \<and>
     (\<forall>p x. (p, x) \<in> E (db_hashtable db) \<longrightarrow>
        (\<exists>n. tname R H p = Some n \<and> x = hash_u64 T hash_init n)) \<and>
     (\<forall>p q. p \<in> db_topics E db \<longrightarrow> q \<in> db_topics E db \<longrightarrow> tname R H p = tname R H q \<longrightarrow> p = q) \<and>
     distinct (list_elems T (db_lru db)) \<and> set (list_elems T (db_lru db)) = L"

lemma db_invD:
  assumes "db_inv T R E H db L ext"
  shows "refs_inv H (owners E db ext)"
    and "(p, x) \<in> E (db_hashtable db) \<Longrightarrow> \<exists>n. tname R H p = Some n \<and> x = hash_u64 T hash_init n"
    and "p \<in> db_topics E db \<Longrightarrow> q \<in> db_topics E db \<Longrightarrow> tname R H p = tname R H q \<Longrightarrow> p = q"
    and "distinct (list_elems T (db_lru db))" and "set (list_elems T (db_lru db)) = L"
  using assms by (simp_all add: db_inv_def)

lemma db_topics_live:
  assumes "db_inv T R E H db L ext" and "p \<in> db_topics E db"
  shows "\<exists>t. H p = Some (Live t)"
  using refs_inv_live [OF db_invD(1) [OF assms(1)], of p] assms(2) by (auto simp: owners_def)

lemma owners_add: "(owners E db ext)(p := owners E db ext p + 1) = owners E db (ext(p := ext p + 1))"
  by (auto simp: owners_def)

text \<open>One step of the purge.\<close>

lemma db_inv_purge_one:
  assumes ok: "tommy_ok T E" and inv: "db_inv T R E H db L ext" and p: "p \<in> db_topics E db"
  shows "\<exists>H'. topic_decref H p = Inr H' \<and>
    db_inv T R E H' (db\<lparr>db_hashtable := hashdyn_remove_existing T (db_hashtable db) p,
                       db_lru := list_remove_existing T (db_lru db) p\<rparr>) (L - {p}) ext \<and>
    (\<forall>q. q \<noteq> p \<longrightarrow> H' q = H q)"
proof -
  let ?db = "db\<lparr>db_hashtable := hashdyn_remove_existing T (db_hashtable db) p,
                db_lru := list_remove_existing T (db_lru db) p\<rparr>"
  note t = tommy_okD [OF ok]
  note i = db_invD [OF inv]
  have pos: "0 < owners E db ext p" using p by (simp add: owners_def)
  obtain H' where H': "topic_decref H p = Inr H'"
    "refs_inv H' ((owners E db ext)(p := owners E db ext p - 1))" "\<And>q. q \<noteq> p \<Longrightarrow> H' q = H q"
    using topic_decref_inv [OF i(1) pos] by blast
  have E': "E (db_hashtable ?db) = {e \<in> E (db_hashtable db). fst e \<noteq> p}" by (simp add: t)
  then have topics': "db_topics E ?db = db_topics E db - {p}" by (auto simp: db_topics_def)
  have "(owners E db ext)(p := owners E db ext p - 1) = owners E ?db ext"
    using p by (auto simp: owners_def topics')
  moreover have same: "tname R H' q = tname R H q" if "q \<noteq> p" for q using H'(3) that by (simp add: tname_def)
  ultimately have "db_inv T R E H' ?db (L - {p}) ext"
    using H'(2) i(2,3,4,5) unfolding db_inv_def topics' by (auto simp: E' t)
  with H' show ?thesis by blast
qed

definition expired :: "topic_heap \<Rightarrow> time_t \<Rightarrow> addr set \<Rightarrow> addr set" where
  "expired H age ps = {p \<in> ps. tstamp H p < age}"

lemma purge_loop_spec:
  assumes ok: "tommy_ok T E"
  shows "db_inv T R E H db L ext \<Longrightarrow> set ps \<subseteq> db_topics E db \<Longrightarrow> distinct ps \<Longrightarrow>
    \<exists>H' db'. purge_loop T age ps H db = Inr (H', db') \<and> db_inv T R E H' db' (L - expired H age (set ps)) ext \<and>
      db_topics E db' = db_topics E db - expired H age (set ps) \<and>
      (\<forall>q. q \<notin> expired H age (set ps) \<longrightarrow> H' q = H q)"
proof (induction ps arbitrary: H db L)
  case Nil
  then show ?case by (simp add: expired_def)
next
  case (Cons p ps)
  note t = tommy_okD [OF ok]
  have p: "p \<in> db_topics E db" using Cons.prems(2) by simp
  obtain tp where tp: "H p = Some (Live tp)" using db_topics_live [OF Cons.prems(1) p] by blast
  show ?case
  proof (cases "node_older_than tp age")
    case True
    let ?db = "db\<lparr>db_hashtable := hashdyn_remove_existing T (db_hashtable db) p,
                db_lru := list_remove_existing T (db_lru db) p\<rparr>"
    obtain H1 where H1: "topic_decref H p = Inr H1" "db_inv T R E H1 ?db (L - {p}) ext"
      "\<And>q. q \<noteq> p \<Longrightarrow> H1 q = H q"
      using db_inv_purge_one [OF ok Cons.prems(1) p] by blast
    have topics': "db_topics E ?db = db_topics E db - {p}" by (auto simp: db_topics_def t)
    have ex: "expired H1 age (set ps) = expired H age (set ps)"
    proof -
      have "tstamp H1 q = tstamp H q" if "q \<in> set ps" for q
      proof -
        have "q \<noteq> p" using that Cons.prems(3) by auto
        then show ?thesis using H1(3) by (simp add: tstamp_def)
      qed
      then show ?thesis by (auto simp: expired_def)
    qed
    have all: "expired H age (set (p # ps)) = insert p (expired H age (set ps))"
      using True tp by (auto simp: expired_def tstamp_def node_older_than_def)
    have "set ps \<subseteq> db_topics E ?db" using Cons.prems(2,3) topics' by auto
    with Cons.IH [OF H1(2) this] Cons.prems(3) obtain H' db' where
      r: "purge_loop T age ps H1 ?db = Inr (H', db')" "db_inv T R E H' db' (L - {p} - expired H age (set ps)) ext"
      "db_topics E db' = db_topics E ?db - expired H age (set ps)"
      "\<forall>q. q \<notin> expired H age (set ps) \<longrightarrow> H' q = H1 q" unfolding ex by auto
    have "purge_loop T age (p # ps) H db = Inr (H', db')" using r(1) H1(1) tp True by simp
    moreover have "L - {p} - expired H age (set ps) = L - expired H age (set (p # ps))"
      unfolding all by auto
    ultimately show ?thesis using r(2,3,4) H1(3) topics' all
      by (intro exI [of _ H'] exI [of _ db']) auto
  next
    case False
    then have "expired H age (set (p # ps)) = expired H age (set ps)"
      using tp by (auto simp: expired_def tstamp_def node_older_than_def)
    with Cons tp False show ?thesis by simp
  qed
qed

lemma rkt_found_spec:
  assumes ok: "tommy_ok T E" and inv: "db_inv T R E H db (db_topics E db - {ret}) ext"
    and ret: "ret \<in> db_topics E db" and bound: "ext ret + 2 < 2 ^ 64"
  shows "\<exists>H' db'. rkt_found T H db ret now = Inr (ret, H', db') \<and>
    db_inv T R E H' db' (db_topics E db') (ext(ret := ext ret + 1)) \<and>
    db_topics E db' = db_topics E db - expired H (now - topic_live_time_s) (db_topics E db - {ret}) \<and>
    (\<forall>q. q \<noteq> ret \<longrightarrow> q \<notin> expired H (now - topic_live_time_s) (db_topics E db - {ret}) \<longrightarrow> H' q = H q) \<and>
    tname R H' ret = tname R H ret \<and> tstamp H' ret = now"
proof -
  let ?D = "expired H (now - topic_live_time_s) (db_topics E db - {ret})"
  note t = tommy_okD [OF ok]
  have "set (list_elems T (db_lru db)) \<subseteq> db_topics E db" using db_invD(5) [OF inv] by auto
  from purge_loop_spec [OF ok inv this db_invD(4) [OF inv], of "now - topic_live_time_s"]
  obtain H1 db1 where pl: "purge_topics_older_than T H db (now - topic_live_time_s) = Inr (H1, db1)"
    "db_inv T R E H1 db1 (db_topics E db - {ret} - ?D) ext" "db_topics E db1 = db_topics E db - ?D"
    "\<forall>q. q \<notin> ?D \<longrightarrow> H1 q = H q"
    unfolding purge_topics_older_than_def db_invD(5) [OF inv] by auto
  have ret1: "ret \<in> db_topics E db1" using ret pl(3) by (simp add: expired_def)
  obtain tr where tr: "H1 ret = Some (Live tr)" using db_topics_live [OF pl(2) ret1] by blast
  have same: "H1 ret = H ret" using pl(4) by (simp add: expired_def)
  let ?H' = "H1(ret \<mapsto> Live (tr\<lparr>topic_timestamp := now, topic_refcnt := topic_refcnt tr + 1\<rparr>))"
  let ?db' = "db1\<lparr>db_lru := list_insert_tail T (db_lru db1) ret\<rparr>"
  have run: "rkt_found T H db ret now = Inr (ret, ?H', ?db')" using pl(1) tr by (simp add: rkt_found_def)
  have "owners E db1 ext ret + 1 < 2 ^ 64" using bound by (simp add: owners_def)
  then have refs: "refs_inv ?H' ((owners E db1 ext)(ret := owners E db1 ext ret + 1))"
    using db_invD(1) [OF pl(2)] tr by (intro topic_incref_inv)
  have topics': "db_topics E ?db' = db_topics E db1" by (simp add: db_topics_def)
  then have own': "owners E ?db' e = owners E db1 e" for e by (auto simp: owners_def)
  have names: "tname R ?H' = tname R H1" using tr by (auto simp: tname_def)
  have "db_inv T R E ?H' ?db' (db_topics E ?db') (ext(ret := ext ret + 1))"
    using refs db_invD(2,3,4,5) [OF pl(2)] ret1 pl(3)
    unfolding db_inv_def own' owners_add names topics' by (auto simp: t)
  moreover have "tname R ?H' ret = tname R H ret" using names same by (simp add: tname_def)
  moreover have "tstamp ?H' ret = now" by (simp add: tstamp_def)
  ultimately show ?thesis using run pl(3,4) topics' by (intro exI [of _ ?H'] exI [of _ ?db']) simp
qed

text \<open>Nothing in the database is older than the limit after a lookup.\<close>

lemma rkt_found_fresh:
  assumes "db_topics E db' = db_topics E db - expired H age (db_topics E db - {ret})"
    and "\<forall>q. q \<noteq> ret \<longrightarrow> q \<notin> expired H age (db_topics E db - {ret}) \<longrightarrow> H' q = H q"
    and "q \<in> db_topics E db'" and "q \<noteq> ret"
  shows "age \<le> tstamp H' q"
  using assms by (auto simp: expired_def tstamp_def)

section \<open>Lookups keep the invariant\<close>

lemma topics_search_spec:
  assumes ok: "tommy_ok T E" and inv: "db_inv T R E H db L ext"
  shows "\<exists>found. topics_search T R H db topic = Inr found \<and>
    (\<forall>p. found = Some p \<longleftrightarrow> p \<in> db_topics E db \<and> tname R H p = Some topic)"
proof -
  note t = tommy_okD [OF ok]
  note i = db_invD [OF inv]
  let ?s = "hashdyn_search T (db_hashtable db) (void_topics_cmp R H topic) (hash_u64 T hash_init topic)"
  have cmp: "void_topics_cmp R H topic p \<longleftrightarrow> tname R H p = Some topic" for p
    by (auto simp: void_topics_cmp_def tname_def topics_cmp_def strcmp0_def split: option.splits cell.splits)
  have "list_all (\<lambda>p. case H p of Some (Live _) \<Rightarrow> True | _ \<Rightarrow> False) (hashdyn_elems T (db_hashtable db))"
    using db_topics_live [OF inv] by (fastforce simp: list_all_iff t db_topics_def)
  then have run: "topics_search T R H db topic = Inr ?s" by (simp add: topics_search_def)
  have "?s = Some p \<longleftrightarrow> p \<in> db_topics E db \<and> tname R H p = Some topic" for p
  proof
    assume "?s = Some p"
    from t(6) [OF this] show "p \<in> db_topics E db \<and> tname R H p = Some topic"
      unfolding cmp db_topics_def by force
  next
    assume p: "p \<in> db_topics E db \<and> tname R H p = Some topic"
    then obtain x where x: "(p, x) \<in> E (db_hashtable db)" by (auto simp: db_topics_def)
    with i(2) p have px: "(p, hash_u64 T hash_init topic) \<in> E (db_hashtable db)" by fastforce
    show "?s = Some p"
    proof (cases ?s)
      case None
      from t(7) [OF None px] p show ?thesis unfolding cmp by simp
    next
      case (Some q)
      from t(6) [OF Some] have "q \<in> db_topics E db" "tname R H q = Some topic"
        unfolding cmp db_topics_def by force+
      with i(3) p Some show ?thesis by metis
    qed
  qed
  with run show ?thesis by blast
qed

lemma db_inv_lru_remove:
  assumes "tommy_ok T E" and "db_inv T R E H db (db_topics E db) ext"
  shows "db_inv T R E H (db\<lparr>db_lru := list_remove_existing T (db_lru db) p\<rparr>)
      (db_topics E (db\<lparr>db_lru := list_remove_existing T (db_lru db) p\<rparr>) - {p}) ext"
proof -
  have "db_topics E (db\<lparr>db_lru := l\<rparr>) = db_topics E db" for l by (simp add: db_topics_def)
  moreover from this have "owners E (db\<lparr>db_lru := l\<rparr>) ext = owners E db ext" for l
    by (auto simp: owners_def)
  ultimately show ?thesis
    using db_invD [OF assms(2)] unfolding db_inv_def by (auto simp: tommy_okD [OF assms(1)])
qed

lemma get_topic_lookup_spec:
  assumes ok: "tommy_ok T E" and inv: "db_inv T R E H db (db_topics E db) ext"
    and bound: "\<And>p. ext p + 2 < 2 ^ 64"
  shows "get_topic_lookup T R H db topic now = Inr None \<and>
      (\<forall>p \<in> db_topics E db. tname R H p \<noteq> Some topic) \<or>
    (\<exists>p H' db'. get_topic_lookup T R H db topic now = Inr (Some (p, H', db')) \<and>
      p \<in> db_topics E db \<and> tname R H p = Some topic \<and> tname R H' p = Some topic \<and> tstamp H' p = now \<and>
      db_inv T R E H' db' (db_topics E db') (ext(p := ext p + 1)) \<and>
      db_topics E db' = db_topics E db - expired H (now - topic_live_time_s) (db_topics E db - {p}) \<and>
      (\<forall>q. q \<noteq> p \<longrightarrow> q \<notin> expired H (now - topic_live_time_s) (db_topics E db - {p}) \<longrightarrow> H' q = H q))"
proof -
  obtain found where f: "topics_search T R H db topic = Inr found"
    "\<And>p. found = Some p \<longleftrightarrow> p \<in> db_topics E db \<and> tname R H p = Some topic"
    using topics_search_spec [OF ok inv] by blast
  show ?thesis
  proof (cases found)
    case None
    with f(2) have "\<forall>p \<in> db_topics E db. tname R H p \<noteq> Some topic" by (metis option.distinct(1))
    with f(1) None show ?thesis by (simp add: get_topic_lookup_def)
  next
    case (Some p)
    let ?db1 = "db\<lparr>db_lru := list_remove_existing T (db_lru db) p\<rparr>"
    have p: "p \<in> db_topics E db" "tname R H p = Some topic" using f(2) Some by auto
    have topics1: "db_topics E ?db1 = db_topics E db" by (simp add: db_topics_def)
    from rkt_found_spec [OF ok db_inv_lru_remove [OF ok inv] _ bound, of p now] p topics1 f(1) Some
    show ?thesis by (auto simp: get_topic_lookup_def)
  qed
qed

lemma db_inv_decref:
  assumes ok: "tommy_ok T E" and inv: "db_inv T R E H db L ext" and pos: "0 < ext p"
  shows "\<exists>H'. topic_decref H p = Inr H' \<and> db_inv T R E H' db L (ext(p := ext p - 1)) \<and>
    (\<forall>q. q \<noteq> p \<longrightarrow> H' q = H q)"
proof -
  note i = db_invD [OF inv]
  have "0 < owners E db ext p" using pos by (simp add: owners_def)
  from topic_decref_inv [OF i(1) this, of R] obtain H' where H': "topic_decref H p = Inr H'"
    "refs_inv H' ((owners E db ext)(p := owners E db ext p - 1))" "\<And>q. q \<noteq> p \<Longrightarrow> H' q = H q"
    "1 < owners E db ext p \<Longrightarrow> tname R H' p = tname R H p" by blast
  have own: "(owners E db ext)(p := owners E db ext p - 1) = owners E db (ext(p := ext p - 1))"
    using pos by (auto simp: owners_def)
  have same: "tname R H' q = tname R H q" if "q \<in> db_topics E db" for q
  proof (cases "q = p")
    case True
    with that pos show ?thesis using H'(4) by (simp add: owners_def)
  next
    case False
    then show ?thesis using H'(3) by (simp add: tname_def)
  qed
  have "db_inv T R E H' db L (ext(p := ext p - 1))"
    unfolding db_inv_def
  proof (intro conjI allI impI)
    show "refs_inv H' (owners E db (ext(p := ext p - 1)))" using H'(2) own by simp
  next
    fix q x assume q: "(q, x) \<in> E (db_hashtable db)"
    then have "q \<in> db_topics E db" by (force simp: db_topics_def)
    with i(2) [OF q] same show "\<exists>n. tname R H' q = Some n \<and> x = hash_u64 T hash_init n" by simp
  next
    fix q r assume "q \<in> db_topics E db" "r \<in> db_topics E db" "tname R H' q = tname R H' r"
    with same i(3) show "q = r" by simp
  qed (use i in auto)
  with H' show ?thesis by blast
qed

lemma db_inv_insert:
  assumes ok: "tommy_ok T E" and inv: "db_inv T R E H db (db_topics E db) ext"
    and new: "\<forall>p \<in> db_topics E db. tname R H p \<noteq> Some topic"
    and ret: "tname R H ret = Some topic" "0 < ext ret"
  shows "db_inv T R E H
      (db\<lparr>db_hashtable := hashdyn_insert T (db_hashtable db) ret (hash_u64 T hash_init topic)\<rparr>)
      (db_topics E (db\<lparr>db_hashtable := hashdyn_insert T (db_hashtable db) ret (hash_u64 T hash_init topic)\<rparr>) - {ret})
      (ext(ret := ext ret - 1))"
proof -
  let ?db = "db\<lparr>db_hashtable := hashdyn_insert T (db_hashtable db) ret (hash_u64 T hash_init topic)\<rparr>"
  note t = tommy_okD [OF ok]
  note i = db_invD [OF inv]
  have ret_new: "ret \<notin> db_topics E db" using new ret(1) by auto
  have topics': "db_topics E ?db = insert ret (db_topics E db)" by (simp add: db_topics_def t)
  have own: "owners E ?db (ext(ret := ext ret - 1)) = owners E db ext"
    using ret_new ret(2) by (auto simp: owners_def topics')
  show ?thesis
    unfolding db_inv_def own topics'
    using i new ret ret_new by (auto simp: t)
qed

text \<open>What inserting promises of its result: \<open>ext\<close> are the references outside the database.\<close>

definition topic_inserted ::
  "('h, 'l) tommy \<Rightarrow> rdkafka_topics \<Rightarrow> ('h \<Rightarrow> (addr \<times> tommy_hash_t) set) \<Rightarrow> topic_heap \<Rightarrow> ('h, 'l) topics_db \<Rightarrow> (addr \<Rightarrow> nat) \<Rightarrow> string \<Rightarrow> time_t \<Rightarrow> addr
   \<Rightarrow> addr \<Rightarrow> topic_heap \<Rightarrow> ('h, 'l) topics_db \<Rightarrow> addr set \<Rightarrow> bool" where
  "topic_inserted T R E H db ext topic now ret p H' db' X \<longleftrightarrow>
     tname R H' p = Some topic \<and> tstamp H' p = now \<and> p \<in> db_topics E db' \<and>
     db_inv T R E H' db' (db_topics E db') ((ext(ret := ext ret - 1))(p := (ext(ret := ext ret - 1)) p + 1)) \<and>
     db_topics E db' \<subseteq> insert ret (db_topics E db) \<and> X \<subseteq> db_topics E db \<and>
     (\<forall>q. q \<noteq> p \<longrightarrow> q \<noteq> ret \<longrightarrow> q \<notin> X \<longrightarrow> H' q = H q) \<and>
     (\<forall>q \<in> db_topics E db'. now - topic_live_time_s \<le> tstamp H' q)"

lemma get_topic_insert_found:
  assumes ok: "tommy_ok T E" and inv: "db_inv T R E H db (db_topics E db) ext"
    and bound: "\<And>p. (ext(ret := ext ret - 1)) p + 2 < 2 ^ 64"
    and ret: "ret \<notin> db_topics E db" "tname R H ret = Some topic" "0 < ext ret"
    and f: "topics_search T R H db topic = Inr (Some p)" and p: "p \<in> db_topics E db" "tname R H p = Some topic"
  shows "\<exists>H' db' X. get_topic_insert T R H db topic now ret = Inr (p, H', db') \<and> topic_inserted T R E H db ext topic now ret p H' db' X"
proof -
  have live: "now - topic_live_time_s \<le> now" by (simp add: topic_live_time_s_def)
  let ?ext = "ext(ret := ext ret - 1)" and ?age = "now - topic_live_time_s" and ?db1 = "db\<lparr>db_lru := list_remove_existing T (db_lru db) p\<rparr>"
  have topics1: "db_topics E ?db1 = db_topics E db" by (simp add: db_topics_def)
  have pr: "p \<noteq> ret" using p(1) ret(1) by auto
  obtain H1 where H1: "topic_decref H ret = Inr H1" "db_inv T R E H1 db (db_topics E db) ?ext"
    "\<And>q. q \<noteq> ret \<Longrightarrow> H1 q = H q" using db_inv_decref [OF ok inv ret(3)] by blast
  have p1: "tname R H1 p = Some topic" using p(2) H1(3) [OF pr] by (simp add: tname_def)
  obtain H' db' where r: "rkt_found T H1 ?db1 p now = Inr (p, H', db')"
    "db_inv T R E H' db' (db_topics E db') (?ext(p := ?ext p + 1))"
    "db_topics E db' = db_topics E ?db1 - expired H1 ?age (db_topics E ?db1 - {p})"
    "\<forall>q. q \<noteq> p \<longrightarrow> q \<notin> expired H1 ?age (db_topics E ?db1 - {p}) \<longrightarrow> H' q = H1 q"
    "tname R H' p = tname R H1 p" "tstamp H' p = now"
    using rkt_found_spec [OF ok db_inv_lru_remove [OF ok H1(2)] _ bound, of p now] p topics1
    by (metis (no_types, lifting))
  have "get_topic_insert T R H db topic now ret = Inr (p, H', db')"
    using f H1(1) r(1) by (simp add: get_topic_insert_def)
  moreover have "\<forall>q \<in> db_topics E db'. ?age \<le> tstamp H' q"
    using rkt_found_fresh [OF r(3,4)] r(6) live by metis
  moreover have "p \<in> db_topics E db'" using r(3) p topics1 by (simp add: expired_def)
  moreover have "expired H1 ?age (db_topics E ?db1 - {p}) \<subseteq> db_topics E db" using topics1 by (auto simp: expired_def)
  moreover have "db_topics E db' \<subseteq> insert ret (db_topics E db)" using r(3) topics1 by blast
  moreover have "\<forall>q. q \<noteq> p \<longrightarrow> q \<noteq> ret \<longrightarrow> q \<notin> expired H1 ?age (db_topics E ?db1 - {p}) \<longrightarrow> H' q = H q"
    using r(4) H1(3) by simp
  ultimately show ?thesis unfolding topic_inserted_def using r(2,5,6) p1 by metis
qed

lemma get_topic_insert_new:
  assumes ok: "tommy_ok T E" and inv: "db_inv T R E H db (db_topics E db) ext"
    and bound: "\<And>p. (ext(ret := ext ret - 1)) p + 2 < 2 ^ 64"
    and ret: "tname R H ret = Some topic" "0 < ext ret"
    and f: "topics_search T R H db topic = Inr None" and new: "\<forall>p \<in> db_topics E db. tname R H p \<noteq> Some topic"
  shows "\<exists>H' db' X. get_topic_insert T R H db topic now ret = Inr (ret, H', db') \<and> topic_inserted T R E H db ext topic now ret ret H' db' X"
proof -
  have live: "now - topic_live_time_s \<le> now" by (simp add: topic_live_time_s_def)
  let ?ext = "ext(ret := ext ret - 1)" and ?age = "now - topic_live_time_s"
  let ?db1 = "db\<lparr>db_hashtable := hashdyn_insert T (db_hashtable db) ret (hash_u64 T hash_init topic)\<rparr>"
  have topics1: "db_topics E ?db1 = insert ret (db_topics E db)" by (simp add: db_topics_def tommy_okD [OF ok])
  obtain H' db' where r: "rkt_found T H ?db1 ret now = Inr (ret, H', db')"
    "db_inv T R E H' db' (db_topics E db') (?ext(ret := ?ext ret + 1))"
    "db_topics E db' = db_topics E ?db1 - expired H ?age (db_topics E ?db1 - {ret})"
    "\<forall>q. q \<noteq> ret \<longrightarrow> q \<notin> expired H ?age (db_topics E ?db1 - {ret}) \<longrightarrow> H' q = H q"
    "tname R H' ret = tname R H ret" "tstamp H' ret = now"
    using rkt_found_spec [OF ok db_inv_insert [OF ok inv new ret] _ bound, of now] topics1
    by (metis (no_types, lifting) insertI1)
  have "get_topic_insert T R H db topic now ret = Inr (ret, H', db')" using f r(1) by (simp add: get_topic_insert_def)
  moreover have "\<forall>q \<in> db_topics E db'. ?age \<le> tstamp H' q"
    using rkt_found_fresh [OF r(3,4)] r(6) live by metis
  moreover have "ret \<in> db_topics E db'" using r(3) topics1 by (simp add: expired_def)
  moreover have "expired H ?age (db_topics E ?db1 - {ret}) \<subseteq> db_topics E db" using topics1 by (auto simp: expired_def)
  moreover have "db_topics E db' \<subseteq> insert ret (db_topics E db)" using r(3) topics1 by blast
  ultimately show ?thesis unfolding topic_inserted_def using r(2,4,5,6) ret(1) by metis
qed

lemma get_topic_insert_spec:
  assumes ok: "tommy_ok T E" and inv: "db_inv T R E H db (db_topics E db) ext"
    and bound: "\<And>p. ext p + 2 < 2 ^ 64"
    and ret: "ret \<notin> db_topics E db" "tname R H ret = Some topic" "0 < ext ret"
  shows "\<exists>p H' db' X. get_topic_insert T R H db topic now ret = Inr (p, H', db') \<and>
      tname R H' p = Some topic \<and> tstamp H' p = now \<and> p \<in> db_topics E db' \<and>
      db_inv T R E H' db' (db_topics E db') ((ext(ret := ext ret - 1))(p := (ext(ret := ext ret - 1)) p + 1)) \<and>
      db_topics E db' \<subseteq> insert ret (db_topics E db) \<and> X \<subseteq> db_topics E db \<and>
      (\<forall>q. q \<noteq> p \<longrightarrow> q \<noteq> ret \<longrightarrow> q \<notin> X \<longrightarrow> H' q = H q) \<and>
      (\<forall>q \<in> db_topics E db'. now - topic_live_time_s \<le> tstamp H' q)"
proof -
  have bound': "(ext(ret := ext ret - 1)) p + 2 < 2 ^ 64" for p using bound [of p] bound [of ret] by auto
  obtain found where f: "topics_search T R H db topic = Inr found"
    "\<And>p. found = Some p \<longleftrightarrow> p \<in> db_topics E db \<and> tname R H p = Some topic"
    using topics_search_spec [OF ok inv] by blast
  show ?thesis
  proof (cases found)
    case (Some p)
    with get_topic_insert_found [OF ok inv bound' ret, of p now] f show ?thesis unfolding topic_inserted_def by blast
  next
    case None
    then have "\<forall>p \<in> db_topics E db. tname R H p \<noteq> Some topic" using f(2) by (metis option.distinct(1))
    with get_topic_insert_new [OF ok inv bound' ret(2,3), of now] f(1) None show ?thesis unfolding topic_inserted_def by blast
  qed
qed

lemma db_inv_new_topic:
  assumes rk: "rdkafka_topics_ok R" and inv: "db_inv T R E H db L ext"
    and fresh: "\<And>c. H a = Some c \<Longrightarrow> c = Freed"
    and new: "new_topic_s R H (Some a) topic = (Some a, H')"
  shows "db_inv T R E H' db L (ext(a := 1))" and "tname R H' a = Some topic" and "a \<notin> db_topics E db"
    and "ext a = 0" and "\<And>q. q \<noteq> a \<Longrightarrow> H' q = H q"
proof -
  note i = db_invD [OF inv]
  have "owners E db ext a = 0" using i(1) fresh by (rule refs_inv_fresh)
  then show a: "a \<notin> db_topics E db" "ext a = 0" by (auto simp: owners_def)
  obtain r where r: "rd_kafka_topic_new R topic = Some r"
    "H' = H(a \<mapsto> Live \<lparr>topic_rkt = r, topic_refcnt = 1, topic_timestamp = 0\<rparr>)"
    using new by (auto simp: new_topic_s_def split: option.splits)
  show "tname R H' a = Some topic" using rk r by (simp add: rdkafka_topics_ok_def tname_def)
  show frame: "H' q = H q" if "q \<noteq> a" for q using that r(2) by simp
  have "refs_inv H' ((owners E db ext)(a := 1))" unfolding r(2) using i(1) by (rule refs_inv_upd) simp
  moreover have "(owners E db ext)(a := 1) = owners E db (ext(a := 1))" using a by (auto simp: owners_def)
  ultimately have refs: "refs_inv H' (owners E db (ext(a := 1)))" by simp
  have names: "tname R H' q = tname R H q" if "q \<in> db_topics E db" for q
    using that a(1) frame [of q] by (cases "q = a") (auto simp: tname_def)
  have "q \<in> db_topics E db" if "(q, x) \<in> E (db_hashtable db)" for q x
    using that by (force simp: db_topics_def)
  then show "db_inv T R E H' db L (ext(a := 1))"
    unfolding db_inv_def using refs names i(2-5) by metis
qed

section \<open>Threads keep the invariant\<close>

abbreviation created_addrs :: "(string \<times> time_t \<times> addr) multiset \<Rightarrow> addr multiset" where
  "created_addrs M \<equiv> image_mset (\<lambda>(_, _, a). a) M"

definition ext_refs :: "('h, 'l) topics_sys \<Rightarrow> addr \<Rightarrow> nat" where
  "ext_refs s p = count (ts_held s) p + count (created_addrs (ts_created s)) p"

definition sys_inv ::
  "('h, 'l) tommy \<Rightarrow> rdkafka_topics \<Rightarrow> ('h \<Rightarrow> (addr \<times> tommy_hash_t) set) \<Rightarrow> ('h, 'l) topics_sys \<Rightarrow> bool" where
  "sys_inv T R E s \<longleftrightarrow>
     db_inv T R E (ts_heap s) (ts_db s) (db_topics E (ts_db s)) (ext_refs s) \<and>
     (\<forall>n t a. (n, t, a) \<in># ts_created s \<longrightarrow>
        a \<notin> db_topics E (ts_db s) \<and> tname R (ts_heap s) a = Some n \<and> ext_refs s a = 1) \<and>
     size (ts_held s) + size (ts_created s) + 2 < 2 ^ 64"

lemma ext_refs_bound: "size (ts_held s) + size (ts_created s) + 2 < 2 ^ 64 \<Longrightarrow> ext_refs s p + 2 < 2 ^ 64"
proof -
  have "count (ts_held s) p \<le> size (ts_held s)" by (rule count_le_size)
  moreover have "count (created_addrs (ts_created s)) p \<le> size (created_addrs (ts_created s))"
    by (rule count_le_size)
  ultimately show "size (ts_held s) + size (ts_created s) + 2 < 2 ^ 64 \<Longrightarrow> ?thesis"
    by (simp add: ext_refs_def)
qed

lemma sys_inv_hit:
  assumes ok: "tommy_ok T E" and inv: "sys_inv T R E s" and b: "refs_bounded s"
    and look: "get_topic_lookup T R (ts_heap s) (ts_db s) topic now = Inr (Some (p, H, db))"
  shows "sys_inv T R E (s\<lparr>ts_heap := H, ts_db := db, ts_held := add_mset p (ts_held s)\<rparr>)"
proof -
  let ?s' = "s\<lparr>ts_heap := H, ts_db := db, ts_held := add_mset p (ts_held s)\<rparr>"
  let ?X = "expired (ts_heap s) (now - topic_live_time_s) (db_topics E (ts_db s) - {p})"
  have di: "db_inv T R E (ts_heap s) (ts_db s) (db_topics E (ts_db s)) (ext_refs s)"
    and sz: "size (ts_held s) + size (ts_created s) + 2 < 2 ^ 64"
    and cr: "\<And>n t a. (n, t, a) \<in># ts_created s \<Longrightarrow>
        a \<notin> db_topics E (ts_db s) \<and> tname R (ts_heap s) a = Some n \<and> ext_refs s a = 1"
    using inv by (auto simp: sys_inv_def)
  from get_topic_lookup_spec [OF ok di ext_refs_bound [OF sz], of topic now] look
  have p: "p \<in> db_topics E (ts_db s)"
    and di': "db_inv T R E H db (db_topics E db) ((ext_refs s)(p := ext_refs s p + 1))"
    and tp: "db_topics E db = db_topics E (ts_db s) - ?X"
    and fr: "\<And>q. q \<noteq> p \<Longrightarrow> q \<notin> ?X \<Longrightarrow> H q = ts_heap s q" by auto
  have ext: "ext_refs ?s' = (ext_refs s)(p := ext_refs s p + 1)" by (auto simp: ext_refs_def)
  have "a \<notin> db_topics E db \<and> tname R H a = Some n \<and> ext_refs ?s' a = 1"
    if "(n, t, a) \<in># ts_created s" for n t a
  proof -
    have "a \<noteq> p" "a \<notin> ?X" using cr [OF that] p by (auto simp: expired_def)
    with cr [OF that] fr [of a] tp show ?thesis unfolding ext by (simp add: tname_def)
  qed
  with di' sz b show ?thesis unfolding sys_inv_def ext by (simp add: refs_bounded_def)
qed

lemma sys_inv_miss:
  assumes ok: "tommy_ok T E" and rk: "rdkafka_topics_ok R" and inv: "sys_inv T R E s" and b: "refs_bounded s"
    and fresh: "\<And>c. ts_heap s a = Some c \<Longrightarrow> c = Freed"
    and new: "new_topic_s R (ts_heap s) (Some a) topic = (Some a, H)"
  shows "sys_inv T R E (s\<lparr>ts_heap := H, ts_created := add_mset (topic, now, a) (ts_created s)\<rparr>)"
proof -
  let ?s' = "s\<lparr>ts_heap := H, ts_created := add_mset (topic, now, a) (ts_created s)\<rparr>"
  have di: "db_inv T R E (ts_heap s) (ts_db s) (db_topics E (ts_db s)) (ext_refs s)"
    and sz: "size (ts_held s) + size (ts_created s) + 2 < 2 ^ 64"
    and cr: "\<And>n t a. (n, t, a) \<in># ts_created s \<Longrightarrow>
        a \<notin> db_topics E (ts_db s) \<and> tname R (ts_heap s) a = Some n \<and> ext_refs s a = 1"
    using inv by (auto simp: sys_inv_def)
  note n = db_inv_new_topic [OF rk di fresh new]
  have ext: "ext_refs ?s' = (ext_refs s)(a := 1)" using n(4) by (auto simp: ext_refs_def)
  have "db_inv T R E H (ts_db s) (db_topics E (ts_db s)) (ext_refs ?s')" using n(1) unfolding ext .
  moreover have "a' \<notin> db_topics E (ts_db s) \<and> tname R H a' = Some n \<and> ext_refs ?s' a' = 1"
    if "(n, t, a') \<in># add_mset (topic, now, a) (ts_created s)" for n t a'
  proof (cases "a' = a")
    case True
    moreover have "(n, t, a') \<notin># ts_created s" using cr [of n t a'] True n(4) by auto
    ultimately show ?thesis using that n(2,3) unfolding ext by simp
  next
    case False
    then show ?thesis using that cr [of n t a'] n(5) unfolding ext by (simp add: tname_def)
  qed
  ultimately show ?thesis using sz b unfolding sys_inv_def by (simp add: refs_bounded_def)
qed

lemma sys_inv_inserted:
  assumes ok: "tommy_ok T E" and inv: "sys_inv T R E s"
    and cre: "ts_created s = add_mset (topic, now, a) created"
  shows "\<exists>p H db. get_topic_insert T R (ts_heap s) (ts_db s) topic now a = Inr (p, H, db) \<and>
    sys_inv T R E (s\<lparr>ts_heap := H, ts_db := db, ts_held := add_mset p (ts_held s), ts_created := created\<rparr>)"
proof -
  have di: "db_inv T R E (ts_heap s) (ts_db s) (db_topics E (ts_db s)) (ext_refs s)"
    and sz: "size (ts_held s) + size (ts_created s) + 2 < 2 ^ 64"
    and cr: "\<And>n t a. (n, t, a) \<in># ts_created s \<Longrightarrow>
        a \<notin> db_topics E (ts_db s) \<and> tname R (ts_heap s) a = Some n \<and> ext_refs s a = 1"
    using inv by (auto simp: sys_inv_def)
  have a: "a \<notin> db_topics E (ts_db s)" "tname R (ts_heap s) a = Some topic" "ext_refs s a = 1"
    using cr [of topic now a] cre by auto
  then have pos: "0 < ext_refs s a" by simp
  let ?ext = "(ext_refs s)(a := ext_refs s a - 1)"
  obtain p H db X where r: "get_topic_insert T R (ts_heap s) (ts_db s) topic now a = Inr (p, H, db)"
    "p \<in> db_topics E db" "db_inv T R E H db (db_topics E db) (?ext(p := ?ext p + 1))"
    "db_topics E db \<subseteq> insert a (db_topics E (ts_db s))" "X \<subseteq> db_topics E (ts_db s)"
    "\<forall>q. q \<noteq> p \<longrightarrow> q \<noteq> a \<longrightarrow> q \<notin> X \<longrightarrow> H q = ts_heap s q"
    using get_topic_insert_spec [OF ok di ext_refs_bound [OF sz] a(1,2) pos, of now] by metis
  let ?s' = "s\<lparr>ts_heap := H, ts_db := db, ts_held := add_mset p (ts_held s), ts_created := created\<rparr>"
  have ext: "ext_refs ?s' = ?ext(p := ?ext p + 1)" using cre by (auto simp: ext_refs_def)
  have "b \<notin> db_topics E db \<and> tname R H b = Some n \<and> ext_refs ?s' b = 1"
    if "(n, t, b) \<in># created" for n t b
  proof -
    have b: "(n, t, b) \<in># ts_created s" using that cre by simp
    have "b \<in># created_addrs created" using that by force
    then have "0 < count (created_addrs created) b" by (simp only: count_greater_zero_iff)
    moreover have "ext_refs s a = count (ts_held s) a + (count (created_addrs created) a + 1)"
      using cre by (simp add: ext_refs_def)
    ultimately have "b \<noteq> a" using a(3)
      by (cases "b = a") (simp_all del: count_greater_zero_iff count_image_mset)
    moreover from this cr [OF b] r(2,4) have "b \<noteq> p" by blast
    moreover have "b \<notin> X" using cr [OF b] r(5) by blast
    ultimately show ?thesis using cr [OF b] r(4,6) unfolding ext by (auto simp: tname_def)
  qed
  with r(3) sz have "sys_inv T R E ?s'" unfolding sys_inv_def ext using cre by simp
  with r(1) show ?thesis by blast
qed

lemma sys_inv_dropped:
  assumes ok: "tommy_ok T E" and inv: "sys_inv T R E s" and held: "ts_held s = add_mset p held"
  shows "\<exists>H. topic_decref (ts_heap s) p = Inr H \<and> sys_inv T R E (s\<lparr>ts_heap := H, ts_held := held\<rparr>)"
proof -
  have di: "db_inv T R E (ts_heap s) (ts_db s) (db_topics E (ts_db s)) (ext_refs s)"
    and sz: "size (ts_held s) + size (ts_created s) + 2 < 2 ^ 64"
    and cr: "\<And>n t a. (n, t, a) \<in># ts_created s \<Longrightarrow>
        a \<notin> db_topics E (ts_db s) \<and> tname R (ts_heap s) a = Some n \<and> ext_refs s a = 1"
    using inv by (auto simp: sys_inv_def)
  have "0 < ext_refs s p" using held by (simp add: ext_refs_def)
  from db_inv_decref [OF ok di this] obtain H where H: "topic_decref (ts_heap s) p = Inr H"
    "db_inv T R E H (ts_db s) (db_topics E (ts_db s)) ((ext_refs s)(p := ext_refs s p - 1))"
    "\<And>q. q \<noteq> p \<Longrightarrow> H q = ts_heap s q" by blast
  let ?s' = "s\<lparr>ts_heap := H, ts_held := held\<rparr>"
  have ext: "ext_refs ?s' = (ext_refs s)(p := ext_refs s p - 1)" using held by (auto simp: ext_refs_def)
  have "tname R H b = Some n \<and> ext_refs ?s' b = 1 \<and> b \<notin> db_topics E (ts_db s)"
    if c: "(n, t, b) \<in># ts_created s" for n t b
  proof -
    have "b \<in># created_addrs (ts_created s)" using c by force
    then have "0 < count (created_addrs (ts_created s)) b" by (simp only: count_greater_zero_iff)
    moreover have "ext_refs s p = count held p + 1 + count (created_addrs (ts_created s)) p"
      using held by (simp add: ext_refs_def)
    ultimately have "b \<noteq> p" using cr [OF c]
      by (cases "b = p") (simp_all del: count_greater_zero_iff count_image_mset)
    with cr [OF c] H(3) show ?thesis unfolding ext by (simp add: tname_def)
  qed
  with H(2) sz held have "sys_inv T R E ?s'" unfolding sys_inv_def ext by simp
  with H(1) show ?thesis by blast
qed

lemma sys_inv_step:
  assumes "topics_step T R (TRunning s) c" and ok: "tommy_ok T E" and rk: "rdkafka_topics_ok R"
    and inv: "sys_inv T R E s"
  shows "\<exists>s'. c = TRunning s' \<and> sys_inv T R E s'"
  using assms(1)
proof (elim topics_step_cases, goal_cases)
  case (1 topic now p H db)
  then show ?case using sys_inv_hit [OF ok inv] by blast
next
  case (2 topic now a H)
  then show ?case using sys_inv_miss [OF ok rk inv] by blast
next
  case (3 topic now e)
  have "db_inv T R E (ts_heap s) (ts_db s) (db_topics E (ts_db s)) (ext_refs s)"
    "\<And>p. ext_refs s p + 2 < 2 ^ 64" using inv ext_refs_bound by (auto simp: sys_inv_def)
  from get_topic_lookup_spec [OF ok this, of topic now] 3 show ?case by auto
next
  case (4 topic now a created p H db)
  then show ?case using sys_inv_inserted [OF ok inv, of topic now a created] by force
next
  case (5 topic now a created e)
  then show ?case using sys_inv_inserted [OF ok inv, of topic now a created] by force
next
  case (6 p held H)
  then show ?case using sys_inv_dropped [OF ok inv, of p held] by force
next
  case (7 p held e)
  then show ?case using sys_inv_dropped [OF ok inv, of p held] by force
qed

lemma sys_inv_reachable:
  assumes "(topics_step T R)\<^sup>*\<^sup>* (TRunning s) c" and "tommy_ok T E" and "rdkafka_topics_ok R" and "sys_inv T R E s"
  shows "\<exists>s'. c = TRunning s' \<and> sys_inv T R E s'"
  using assms by (induction rule: rtranclp_induct) (auto dest: sys_inv_step)

lemma db_inv_start:
  "tommy_ok T E \<Longrightarrow> topics_db_new T True = Some db \<Longrightarrow>
   db_inv T R E (\<lambda>_. None) db (db_topics E db) (\<lambda>_. 0) \<and> db_topics E db = {}"
  by (auto simp: topics_db_new_def db_inv_def refs_inv_def owners_def db_topics_def tommy_okD)

text \<open>What the allocator returns is not an address in use.\<close>

definition fresh_addr :: "topic_heap \<Rightarrow> addr option \<Rightarrow> bool" where
  "fresh_addr H a \<longleftrightarrow> (\<forall>p c. a = Some p \<longrightarrow> H p = Some c \<longrightarrow> c = Freed)"

text \<open>A lookup that finds nothing creates the topic, inserts it and hands a reference out.\<close>

lemma get_topic_created:
  assumes "tommy_ok T E" and "rdkafka_topics_ok R" and "db_inv T R E H db (db_topics E db) ext" and "\<And>p. ext p + 2 < 2 ^ 64"
    and "\<And>c. H a = Some c \<Longrightarrow> c = Freed" and "new_topic_s R H (Some a) topic = (Some a, H1)"
  shows "\<exists>p H' db'. get_topic_insert T R H1 db topic now a = Inr (p, H', db') \<and> tname R H' p = Some topic \<and> tstamp H' p = now \<and>
    p \<in> db_topics E db' \<and> db_inv T R E H' db' (db_topics E db') (ext(p := ext p + 1)) \<and>
    (\<forall>q \<in> db_topics E db'. now - topic_live_time_s \<le> tstamp H' q)"
proof -
  note n = db_inv_new_topic [OF assms(2,3,5,6)]
  have b1: "(ext(a := 1)) p + 2 < 2 ^ 64" for p using assms(4) [of p] by simp
  have pos: "0 < (ext(a := 1)) a" by simp
  have ext: "(ext(a := 1))(a := (ext(a := 1)) a - 1) = ext" using n(4) by (auto simp: fun_eq_iff)
  from get_topic_insert_spec [OF assms(1) n(1) b1 n(3,2) pos, of now] show ?thesis unfolding ext by metis
qed

lemma topics_db_get_topic_keeps:
  assumes "tommy_ok T E" and "rdkafka_topics_ok R"
    and "db_inv T R E H db (db_topics E db) ext" and "\<And>p. ext p + 3 < 2 ^ 64"
    and "fresh_addr H a"
  shows "(\<exists>p H' db'. topics_db_get_topic T R a H db topic now = Inr (Some p, H', db') \<and>
      tname R H' p = Some topic \<and> tstamp H' p = now \<and> p \<in> db_topics E db' \<and>
      db_inv T R E H' db' (db_topics E db') (ext(p := ext p + 1)) \<and>
      (\<forall>q \<in> db_topics E db'. now - topic_live_time_s \<le> tstamp H' q)) \<or>
    topics_db_get_topic T R a H db topic now = Inr (None, H, db) \<and>
      (\<forall>p \<in> db_topics E db. tname R H p \<noteq> Some topic) \<and> (a = None \<or> rd_kafka_topic_new R topic = None)"
proof -
  let ?age = "now - topic_live_time_s"
  have bound: "ext p + 2 < 2 ^ 64" for p using assms(4) [of p] by linarith
  have live: "?age \<le> now" by (simp add: topic_live_time_s_def)
  from get_topic_lookup_spec [OF assms(1,3) bound, of topic now] show ?thesis
  proof (elim disjE exE conjE)
    fix p H' db'
    assume run: "get_topic_lookup T R H db topic now = Inr (Some (p, H', db'))" and p: "p \<in> db_topics E db"
      and r: "tname R H' p = Some topic" "tstamp H' p = now"
        "db_inv T R E H' db' (db_topics E db') (ext(p := ext p + 1))"
      and tp: "db_topics E db' = db_topics E db - expired H ?age (db_topics E db - {p})"
      and fr: "\<forall>q. q \<noteq> p \<longrightarrow> q \<notin> expired H ?age (db_topics E db - {p}) \<longrightarrow> H' q = H q"
    have "\<forall>q \<in> db_topics E db'. ?age \<le> tstamp H' q"
      using rkt_found_fresh [OF tp fr] r(2) live by metis
    moreover have "p \<in> db_topics E db'" using tp p by (simp add: expired_def)
    moreover have "topics_db_get_topic T R a H db topic now = Inr (Some p, H', db')"
      using run by (simp add: topics_db_get_topic_def)
    ultimately show ?thesis using r by blast
  next
    assume run: "get_topic_lookup T R H db topic now = Inr None"
      and none: "\<forall>p \<in> db_topics E db. tname R H p \<noteq> Some topic"
    show ?thesis
    proof (cases "a = None \<or> rd_kafka_topic_new R topic = None")
      case True
      then have "new_topic_s R H a topic = (None, H)" by (auto simp: new_topic_s_def split: option.split)
      with run none True show ?thesis by (simp add: topics_db_get_topic_def)
    next
      case False
      then obtain a' H1 where a': "a = Some a'" and new: "new_topic_s R H (Some a') topic = (Some a', H1)"
        by (auto simp: new_topic_s_def)
      have "\<And>c. H a' = Some c \<Longrightarrow> c = Freed" using assms(5) a' by (simp add: fresh_addr_def)
      from get_topic_created [OF assms(1-3) bound this new, of now] obtain p H' db'
        where r: "get_topic_insert T R H1 db topic now a' = Inr (p, H', db')" "tname R H' p = Some topic" "tstamp H' p = now" "p \<in> db_topics E db'"
          "db_inv T R E H' db' (db_topics E db') (ext(p := ext p + 1))" "\<forall>q \<in> db_topics E db'. ?age \<le> tstamp H' q" by blast
      have "topics_db_get_topic T R a H db topic now = Inr (Some p, H', db')"
        using run a' new r(1) by (simp add: topics_db_get_topic_def)
      with r(2-6) show ?thesis by blast
    qed
  qed
qed

section \<open>Properties\<close>


text \<open>C21: a lookup in a well-formed database returns a topic that has the requested name and one more
  reference, which the caller owns, and afterwards the database is well formed and holds no topic that
  was not used in the last fifteen minutes; it returns nothing only when the topic is not there and
  cannot be created, and then nothing has changed.\<close>

theorem topics_db_get_topic_spec:
  assumes "tommy_ok T E" and "rdkafka_topics_ok R"
    and "db_inv T R E H db (db_topics E db) ext" and "\<And>p. ext p + 3 < 2 ^ 64"
    and "fresh_addr H a"
  shows "(\<exists>p H' db'. topics_db_get_topic T R a H db topic now = Inr (Some p, H', db') \<and>
      tname R H' p = Some topic \<and> tstamp H' p = now \<and> p \<in> db_topics E db' \<and>
      db_inv T R E H' db' (db_topics E db') (ext(p := ext p + 1)) \<and>
      (\<forall>q \<in> db_topics E db'. now - topic_live_time_s \<le> tstamp H' q)) \<or>
    topics_db_get_topic T R a H db topic now = Inr (None, H, db) \<and>
      (\<forall>p \<in> db_topics E db. tname R H p \<noteq> Some topic) \<and> (a = None \<or> rd_kafka_topic_new R topic = None)"
  using assms by (rule topics_db_get_topic_keeps)

text \<open>A topic that is in the database under the requested name is the one a lookup returns, and a
  topic used less than fifteen minutes before a lookup of another name stays in the database.\<close>

lemma topics_db_get_topic_reuses:
  assumes "tommy_ok T E" and "db_inv T R E H db (db_topics E db) ext" and "\<And>p. ext p + 3 < 2 ^ 64"
    and "p \<in> db_topics E db" and "tname R H p = Some topic"
    and "q \<in> db_topics E db" and "now - tstamp H q \<le> 15 * 60"
  shows "\<exists>H' db'. topics_db_get_topic T R a H db topic now = Inr (Some p, H', db') \<and> q \<in> db_topics E db'"
proof -
  have bound: "ext p + 2 < 2 ^ 64" for p using assms(3) [of p] by linarith
  from get_topic_lookup_spec [OF assms(1,2) bound, of topic now] assms(4,5)
  obtain p' H' db' where r: "get_topic_lookup T R H db topic now = Inr (Some (p', H', db'))"
    "p' \<in> db_topics E db" "tname R H p' = Some topic"
    "db_topics E db' = db_topics E db - expired H (now - topic_live_time_s) (db_topics E db - {p'})" by blast
  have "p' = p" using db_invD(3) [OF assms(2) r(2) assms(4)] r(3) assms(5) by simp
  moreover have "q \<in> db_topics E db'" using r(4) assms(6,7) by (simp add: expired_def topic_live_time_s_def)
  ultimately show ?thesis using r(1) by (simp add: topics_db_get_topic_def)
qed

text \<open>Destroying the database drops its own references only: a topic is still live afterwards exactly
  when somebody else holds references to it, and it has as many as are held.\<close>

lemma topics_db_done_keeps_held:
  assumes "tommy_ok T E" and "db_inv T R E H db (db_topics E db) ext"
  shows "\<exists>H'. topics_db_done T H db = Inr H' \<and>
    (\<forall>p. case H' p of Some (Live t) \<Rightarrow> unat (topic_refcnt t) = ext p \<and> 0 < ext p | _ \<Rightarrow> ext p = 0)"
proof -
  have all: "distinct ps \<Longrightarrow> refs_inv H (\<lambda>p. of_bool (p \<in> set ps) + ext p) \<Longrightarrow>
      \<exists>H'. decref_all H ps = Inr H' \<and> refs_inv H' ext" for ps H
  proof (induction ps arbitrary: H)
    case (Cons p ps)
    from topic_decref_inv [OF Cons.prems(2), of p]
    obtain H1 where H1: "topic_decref H p = Inr H1"
      "refs_inv H1 ((\<lambda>q. of_bool (q \<in> set (p # ps)) + ext q)(p := ext p))" by auto
    have "(\<lambda>q. of_bool (q \<in> set (p # ps)) + ext q)(p := ext p) = (\<lambda>q. of_bool (q \<in> set ps) + ext q)"
      using Cons.prems(1) by (auto simp: fun_eq_iff)
    with Cons.IH [of H1] Cons.prems(1) H1 show ?case by simp
  qed simp
  have "owners E db ext = (\<lambda>p. of_bool (p \<in> set (hashdyn_elems T (db_hashtable db))) + ext p)"
    by (simp add: fun_eq_iff owners_def db_topics_def tommy_okD [OF assms(1)])
  with db_invD(1) [OF assms(2)] all [OF tommy_okD(5) [OF assms(1)]]
  obtain H' where H': "topics_db_done T H db = Inr H'" "refs_inv H' ext" by (auto simp: topics_db_done_def)
  have "case H' p of Some (Live t) \<Rightarrow> unat (topic_refcnt t) = ext p \<and> 0 < ext p | _ \<Rightarrow> ext p = 0" for p
    using H'(2) by (simp add: refs_inv_def cell_refs_def)
  with H'(1) show ?thesis by blast
qed

section \<open>Witnesses\<close>

text \<open>Association lists are containers that behave as documented.\<close>

definition alist_tommy :: "((addr \<times> tommy_hash_t) list, addr list) tommy" where
  "alist_tommy =
     \<lparr>hash_u64 = (\<lambda>seed s. of_nat (length s)),
      hashdyn_init = [],
      hashdyn_search = (\<lambda>h cmp x. map_option fst (List.find (\<lambda>e. snd e = x \<and> cmp (fst e)) h)),
      hashdyn_insert = (\<lambda>h p x. (p, x) # h),
      hashdyn_remove_existing = (\<lambda>h p. filter (\<lambda>e. fst e \<noteq> p) h),
      hashdyn_elems = (\<lambda>h. remdups (map fst h)),
      list_init = [],
      list_elems = (\<lambda>l. l),
      list_insert_tail = (\<lambda>l p. l @ [p]),
      list_remove_existing = (\<lambda>l p. remove1 p l)\<rparr>"

lemma alist_tommy_ok: "tommy_ok alist_tommy set"
proof -
  have "case map_option fst (List.find (\<lambda>e. snd e = x \<and> cmp (fst e)) h) of
        Some p \<Rightarrow> (p, x) \<in> set h \<and> cmp p | None \<Rightarrow> (\<forall>p. (p, x) \<in> set h \<longrightarrow> \<not> cmp p)"
    for h :: "(addr \<times> tommy_hash_t) list" and x cmp
    by (induction h) (auto split: option.splits)
  then show ?thesis by (auto simp: tommy_ok_def alist_tommy_def)
qed

definition one_topic :: rdkafka_topics where
  "one_topic = \<lparr>rd_kafka_topic_new = (\<lambda>name. if name = ''t'' then Some 7 else None),
     rd_kafka_topic_name = (\<lambda>_. ''t'')\<rparr>"

lemma one_topic_ok: "rdkafka_topics_ok one_topic"
  by (simp add: rdkafka_topics_ok_def one_topic_def)

abbreviation empty_db :: "((addr \<times> tommy_hash_t) list, addr list) topics_db" where
  "empty_db \<equiv> \<lparr>db_hashtable = [], db_lru = []\<rparr>"

lemma empty_db_new: "topics_db_new alist_tommy True = Some empty_db"
  by (simp add: topics_db_new_def alist_tommy_def)

lemma empty_db_inv: "db_inv alist_tommy one_topic set (\<lambda>_. None) empty_db (db_topics set empty_db) (\<lambda>_. 0)"
  using db_inv_start [OF alist_tommy_ok empty_db_new] by blast

lemma one_db_inv:
  "db_inv alist_tommy one_topic set
     ((\<lambda>_. None)(1 \<mapsto> Live \<lparr>topic_rkt = 7, topic_refcnt = 2, topic_timestamp = 0\<rparr>))
     \<lparr>db_hashtable = [(1, 1)], db_lru = [1]\<rparr> (db_topics set \<lparr>db_hashtable = [(1, 1)], db_lru = [1]\<rparr>) ((\<lambda>_. 0)(1 := 1))"
  by (auto simp: db_inv_def refs_inv_def owners_def db_topics_def alist_tommy_def one_topic_def tname_def)


theorem topics_db_get_topic_spec_witness:
  "\<exists>H' db'. topics_db_get_topic alist_tommy one_topic (Some 5) (\<lambda>_. None) empty_db ''t'' 100 =
      Inr (Some 5, H', db') \<and> tname one_topic H' 5 = Some ''t'' \<and> 5 \<in> db_topics set db'"
proof -
  have "topics_db_get_topic alist_tommy one_topic (Some 5) (\<lambda>_. None) empty_db ''t'' 100 =
      Inr (Some 5, (\<lambda>_. None)(5 \<mapsto> Live \<lparr>topic_rkt = 7, topic_refcnt = 2, topic_timestamp = 100\<rparr>),
           \<lparr>db_hashtable = [(5, 1)], db_lru = [5]\<rparr>)"
    by (simp add: topics_db_get_topic_def get_topic_lookup_def topics_search_def new_topic_s_def
        get_topic_insert_def rkt_found_def purge_topics_older_than_def alist_tommy_def one_topic_def)
  with topics_db_get_topic_spec [OF alist_tommy_ok one_topic_ok empty_db_inv, of "Some 5" "''t''" 100]
  show ?thesis by (auto simp: fresh_addr_def)
qed

end
