(* ===== verification/Decoder_Api.thy ===== *)
theory Decoder_Api
  imports CString Pair Kafka_Message_Array
begin

text \<open>
  The interface between listeners and decoders (\<^verbatim>\<open>src/decoder/decoder_api.h\<close>) and the session of the
  HTTP decoder (\<^verbatim>\<open>src/decoder/zz_http2k/zz_http2k_parser.h\<close>). The session's parser-specific part is a
  union in the source; here each parser extends the common record with its own fields.
\<close>

datatype decoder_callback_err =
    DECODER_CALLBACK_OK
  | DECODER_CALLBACK_BUFFER_FULL
  | DECODER_CALLBACK_INVALID_REQUEST
  | DECODER_CALLBACK_UNKNOWN_TOPIC
  | DECODER_CALLBACK_UNKNOWN_PARTITION
  | DECODER_CALLBACK_MSG_TOO_LARGE
  | DECODER_CALLBACK_HTTP_METHOD_NOT_ALLOWED
  | DECODER_CALLBACK_RESOURCE_NOT_FOUND
  | DECODER_CALLBACK_MEMORY_ERROR
  | DECODER_CALLBACK_GENERIC_ERROR

text \<open>The numbering of the enumeration, which orders it.\<close>

fun decoder_err_code :: "decoder_callback_err \<Rightarrow> nat" where
  "decoder_err_code DECODER_CALLBACK_OK = 0"
| "decoder_err_code DECODER_CALLBACK_BUFFER_FULL = 1"
| "decoder_err_code DECODER_CALLBACK_INVALID_REQUEST = 2"
| "decoder_err_code DECODER_CALLBACK_UNKNOWN_TOPIC = 3"
| "decoder_err_code DECODER_CALLBACK_UNKNOWN_PARTITION = 4"
| "decoder_err_code DECODER_CALLBACK_MSG_TOO_LARGE = 5"
| "decoder_err_code DECODER_CALLBACK_HTTP_METHOD_NOT_ALLOWED = 6"
| "decoder_err_code DECODER_CALLBACK_RESOURCE_NOT_FOUND = 7"
| "decoder_err_code DECODER_CALLBACK_MEMORY_ERROR = 8"
| "decoder_err_code DECODER_CALLBACK_GENERIC_ERROR = 9"

lemma decoder_err_code_inj: "decoder_err_code x = decoder_err_code y \<longleftrightarrow> x = y"
  by (cases x; cases y) simp_all

instantiation decoder_callback_err :: linorder
begin

definition less_eq_decoder_callback_err :: "decoder_callback_err \<Rightarrow> decoder_callback_err \<Rightarrow> bool" where
  "less_eq_decoder_callback_err x y \<longleftrightarrow> decoder_err_code x \<le> decoder_err_code y"

definition less_decoder_callback_err :: "decoder_callback_err \<Rightarrow> decoder_callback_err \<Rightarrow> bool" where
  "less_decoder_callback_err x y \<longleftrightarrow> decoder_err_code x < decoder_err_code y"

instance
  by standard
    (auto simp: less_eq_decoder_callback_err_def less_decoder_callback_err_def decoder_err_code_inj)

end

record zz_session =
  zs_topic_handler :: addr
  zs_kafka_msgs :: kafka_message_array
  zs_last_warning :: kafka_message_array_produce_state
  zs_messages_sent :: size_t
  zs_http_response :: n2k_string

text \<open>The bytes a message of a batch stands for, when its payload buffer has address \<open>base\<close> and bytes \<open>buf\<close>.\<close>

definition msg_bytes :: "addr \<Rightarrow> bytes \<Rightarrow> rd_kafka_message \<Rightarrow> bytes" where
  "msg_bytes base buf m = take (unat (rkm_len m)) (drop (unat (rkm_payload m - base)) buf)"

end
