(* ===== verification/Json_Parser.thy ===== *)
theory Json_Parser
  imports Decoder_Api Json_Escape
begin

text \<open>
  The JSON parser of the HTTP decoder (\<^verbatim>\<open>src/decoder/zz_http2k/zz_http2k_parser_json.c\<close>): it lets yajl
  walk over every chunk of a request and turns each outermost object into one Kafka message. Objects
  inside one chunk become messages of the chunk's batch; an object cut by a chunk boundary is
  collected in a string and produced on its own.

  yajl is a parameter: parsing a chunk gives the map callbacks in order, each with the number of bytes
  of the chunk consumed at that moment, and the status. The specification is \<open>objects\<close>, the outermost
  objects of the whole request; the development shows that the messages do not depend on how the
  request was cut into chunks.
\<close>

section \<open>The parser's parameters and state\<close>

datatype json_event = Start_map nat | End_map nat

datatype yajl_status = Yajl_ok | Yajl_error string

type_synonym 'y yajl_parse_fn = "'y \<Rightarrow> bytes \<Rightarrow> json_event list \<times> yajl_status \<times> 'y"

record 'y zz_json_session = zz_session +
  js_yajl_handler :: 'y
  js_stack_pos :: size_t
  js_in_buffer :: addr
  js_last_open_map :: addr
  js_last_object :: n2k_string

section \<open>Callbacks\<close>

definition zz_parse_start_json_map :: "nat \<Rightarrow> 'y zz_json_session \<Rightarrow> 'y zz_json_session" where
  "zz_parse_start_json_map curr_bytes_consumed sess =
     (let sess1 = (if js_stack_pos sess = 0
                   then sess\<lparr>js_last_open_map := js_in_buffer sess + of_nat curr_bytes_consumed - 1\<rparr>
                   else sess)
      in sess1\<lparr>js_stack_pos := js_stack_pos sess + 1\<rparr>)"

definition zz_parse_generate_rdkafka_message :: "nat \<Rightarrow> 'y zz_json_session \<Rightarrow> rd_kafka_message" where
  "zz_parse_generate_rdkafka_message bytes_consumed sess =
     (let end_msg = js_in_buffer sess + of_nat bytes_consumed
      in \<lparr>rkm_err = RD_KAFKA_RESP_ERR_NO_ERROR,
          rkm_payload = js_last_open_map sess,
          rkm_len = end_msg - js_last_open_map sess,
          rkm_private = 0\<rparr>)"

definition zz_parse_end_json_map0 ::
  "allocator \<Rightarrow> nat \<Rightarrow> 'y zz_json_session \<Rightarrow> 'y zz_json_session c_result" where
  "zz_parse_end_json_map0 al bytes_consumed sess =
     (let msg = zz_parse_generate_rdkafka_message bytes_consumed sess
      in c_bind (kafka_msg_array_add al (zs_kafka_msgs sess) msg) (\<lambda>(add_rc, array).
           Inr (sess\<lparr>zs_kafka_msgs := array, js_last_open_map := 0\<rparr>)))"

text \<open>
  The split message goes to librdkafka at once; the second result is what was handed over. Whether
  librdkafka takes the message or the session frees it, the string is empty afterwards.
\<close>

definition zz_parse_end_json_map_split ::
  "allocator \<Rightarrow> bytes \<Rightarrow> nat \<Rightarrow> 'y zz_json_session \<Rightarrow> 'y zz_json_session \<times> bytes list" where
  "zz_parse_end_json_map_split al buffer bytes_consumed sess =
     (let (append_rc, last_object) = string_append al (js_last_object sess) (take bytes_consumed buffer);
          sess1 = sess\<lparr>js_last_object := string_done last_object\<rparr>
      in if append_rc \<noteq> 0 then (sess1, []) else (sess1, [string_bytes last_object]))"

definition zz_parse_end_json_map ::
  "allocator \<Rightarrow> bytes \<Rightarrow> nat \<Rightarrow> 'y zz_json_session \<Rightarrow> ('y zz_json_session \<times> bytes list) c_result" where
  "zz_parse_end_json_map al buffer bytes_consumed sess =
     (let sess1 = sess\<lparr>js_stack_pos := js_stack_pos sess - 1\<rparr>
      in if js_stack_pos sess1 \<noteq> 0 then Inr (sess1, [])
         else if string_size (js_last_object sess1) > 0
              then Inr (zz_parse_end_json_map_split al buffer bytes_consumed sess1)
              else c_bind (zz_parse_end_json_map0 al bytes_consumed sess1) (\<lambda>sess2. Inr (sess2, [])))"

text \<open>yajl calls the callbacks one after the other; none of them ever cancels the parsing.\<close>

fun json_callbacks ::
  "allocator \<Rightarrow> bytes \<Rightarrow> json_event list \<Rightarrow> 'y zz_json_session \<Rightarrow> ('y zz_json_session \<times> bytes list) c_result" where
  "json_callbacks al buffer [] sess = Inr (sess, [])"
| "json_callbacks al buffer (Start_map n # evs) sess =
     json_callbacks al buffer evs (zz_parse_start_json_map n sess)"
| "json_callbacks al buffer (End_map n # evs) sess =
     c_bind (zz_parse_end_json_map al buffer n sess) (\<lambda>(sess1, out1).
       c_bind (json_callbacks al buffer evs sess1) (\<lambda>(sess2, out2). Inr (sess2, out1 @ out2)))"

section \<open>A chunk\<close>

text \<open>The rest of an object that is open at the end of the chunk is saved for the next one.\<close>

definition save_open_object :: "allocator \<Rightarrow> addr \<Rightarrow> bytes \<Rightarrow> 'y zz_json_session \<Rightarrow> 'y zz_json_session" where
  "save_open_object al buffer_addr buffer sess =
     (if js_last_open_map sess \<noteq> 0
      then sess\<lparr>js_last_object := snd (string_append al (js_last_object sess)
                  (drop (unat (js_last_open_map sess - buffer_addr)) buffer))\<rparr>
      else if string_size (js_last_object sess) \<noteq> 0
      then sess\<lparr>js_last_object := snd (string_append al (js_last_object sess) buffer)\<rparr>
      else sess)"

text \<open>The label err: the batch takes the buffer, if there are messages, and the chunk's pointers go.\<close>

definition finish_json_chunk :: "addr \<Rightarrow> 'y zz_json_session \<Rightarrow> 'y zz_json_session c_result" where
  "finish_json_chunk buffer_addr sess =
     c_bind (kafka_message_array_size (zs_kafka_msgs sess)) (\<lambda>n.
       c_bind (if n \<noteq> 0
               then kafka_message_array_set_payload_buffer0 (zs_kafka_msgs sess) buffer_addr False
               else Inr (zs_kafka_msgs sess)) (\<lambda>array.
         Inr (sess\<lparr>zs_kafka_msgs := array, js_in_buffer := 0, js_last_open_map := 0\<rparr>)))"

text \<open>
  \<open>buffer_addr\<close> is the address of the copy of the chunk, or nothing when it cannot be allocated.
\<close>

definition process_json_buffer ::
  "allocator \<Rightarrow> 'y yajl_parse_fn \<Rightarrow> addr option \<Rightarrow> bytes \<Rightarrow> 'y zz_json_session
   \<Rightarrow> (decoder_callback_err \<times> 'y zz_json_session \<times> bytes list) c_result" where
  "process_json_buffer al yajl_parse buffer_addr buffer session =
     (if length buffer = 0 then Inr (DECODER_CALLBACK_OK, session, [])
      else case buffer_addr of
        None \<Rightarrow> c_bind (finish_json_chunk 0 session) (\<lambda>s. Inr (DECODER_CALLBACK_MEMORY_ERROR, s, []))
      | Some a \<Rightarrow>
          let session1 = session\<lparr>js_in_buffer := a\<rparr>;
              (evs, stat, h) = yajl_parse (js_yajl_handler session1) buffer
          in c_bind (json_callbacks al buffer evs (session1\<lparr>js_yajl_handler := h\<rparr>)) (\<lambda>(session2, out).
               case stat of
                 Yajl_error str \<Rightarrow>
                   c_bind (finish_json_chunk a (session2\<lparr>zs_http_response :=
                       snd (string_append al (zs_http_response session2) str)\<rparr>)) (\<lambda>s.
                     Inr (DECODER_CALLBACK_INVALID_REQUEST, s, out))
               | Yajl_ok \<Rightarrow>
                   c_bind (finish_json_chunk a (save_open_object al a buffer session2)) (\<lambda>s.
                     Inr (DECODER_CALLBACK_OK, s, out))))"

section \<open>The session\<close>

definition free_zz_session_json :: "'y zz_json_session \<Rightarrow> 'y zz_json_session" where
  "free_zz_session_json sess = sess\<lparr>js_last_object := string_done (js_last_object sess)\<rparr>"

text \<open>The session is zeroed before, so that only the handle is set; the handle allows several values.\<close>

definition new_zz_session_json :: "'y option \<Rightarrow> 'y zz_json_session \<Rightarrow> int \<times> 'y zz_json_session" where
  "new_zz_session_json yajl_alloc sess =
     (case yajl_alloc of None \<Rightarrow> (-1, sess) | Some h \<Rightarrow> (0, sess\<lparr>js_yajl_handler := h\<rparr>))"

text \<open>The error message; not returning is the value None, as for the string operations it uses.\<close>

definition error_message_json ::
  "allocator \<Rightarrow> n2k_string \<Rightarrow> decoder_callback_err \<Rightarrow> nat \<Rightarrow> n2k_string c_result option" where
  "error_message_json al error_str decoder_rc messages_queued =
     (case string_printf al N2K_STRING_INITIALIZER (''{'' @ [QUOTE] @ ''messages_queued'' @ [QUOTE] @ '':'' @ dec_string messages_queued) of
        None \<Rightarrow> None
      | Some (Inl e) \<Rightarrow> Some (Inl e)
      | Some (Inr (printf_rc, ret)) \<Rightarrow>
          if \<not> printf_rc > 0 then Some (Inr ret)
          else if decoder_rc = DECODER_CALLBACK_OK
          then Some (Inr (snd (string_append_string al ret ''}'')))
          else (let ret1 = snd (string_append_string al ret
                      ('','' @ [QUOTE] @ ''json_decoder_error'' @ [QUOTE] @ '':'' @ [QUOTE]))
                in case string_append_json_string al ret1 (string_bytes error_str) of
                     None \<Rightarrow> None
                   | Some (Inl e) \<Rightarrow> Some (Inl e)
                   | Some (Inr (_, ret2)) \<Rightarrow>
                       (let ret3 = snd (string_append_string al ret2 [QUOTE])
                        in Some (Inr (snd (string_append_string al ret3 ''}''))))))"

section \<open>Requests\<close>

text \<open>
  A request is a sequence of chunks, each with the address of its copy; the decoder empties the batch
  before every chunk. The messages of the request are those handed over chunk by chunk, the split
  one of a chunk before those of its batch.
\<close>

fun json_request ::
  "allocator \<Rightarrow> 'y yajl_parse_fn \<Rightarrow> (addr \<times> bytes) list \<Rightarrow> 'y zz_json_session
   \<Rightarrow> (decoder_callback_err list \<times> 'y zz_json_session \<times> bytes list) c_result" where
  "json_request al yajl_parse [] sess = Inr ([], sess, [])"
| "json_request al yajl_parse ((a, c) # cs) sess =
     c_bind (process_json_buffer al yajl_parse (Some a) c
               (sess\<lparr>zs_kafka_msgs := kafka_msg_array_init (zs_kafka_msgs sess)\<rparr>)) (\<lambda>(rc, sess1, out).
       c_bind (json_request al yajl_parse cs sess1) (\<lambda>(rcs, sess2, out2).
         Inr (rc # rcs, sess2, out @ map (msg_bytes a c) (kma_msgs (zs_kafka_msgs sess1)) @ out2)))"

section \<open>The specification\<close>

fun event_pos :: "json_event \<Rightarrow> nat" where
  "event_pos (Start_map n) = n"
| "event_pos (End_map n) = n"

fun shift_event :: "nat \<Rightarrow> json_event \<Rightarrow> json_event" where
  "shift_event k (Start_map n) = Start_map (n + k)"
| "shift_event k (End_map n) = End_map (n + k)"

text \<open>
  Reading the events of the whole request: the depth, where the open outermost object starts, and the
  outermost objects so far, as pairs of a start and an end.
\<close>

record obj_state =
  ob_depth :: nat
  ob_start :: nat
  ob_done :: "(nat \<times> nat) list"

fun obj_step :: "obj_state \<Rightarrow> json_event \<Rightarrow> obj_state" where
  "obj_step st (Start_map n) =
     st\<lparr>ob_depth := ob_depth st + 1, ob_start := (if ob_depth st = 0 then n - 1 else ob_start st)\<rparr>"
| "obj_step st (End_map n) =
     st\<lparr>ob_depth := ob_depth st - 1,
        ob_done := (if ob_depth st = 1 then ob_done st @ [(ob_start st, n)] else ob_done st)\<rparr>"

definition objects :: "json_event list \<Rightarrow> obj_state" where
  "objects evs = foldl obj_step \<lparr>ob_depth = 0, ob_start = 0, ob_done = []\<rparr> evs"

definition slice :: "bytes \<Rightarrow> nat \<times> nat \<Rightarrow> bytes" where
  "slice D r = take (snd r - fst r) (drop (fst r) D)"

text \<open>Events come in the order of the text, and no object is closed that was not opened.\<close>

fun positions_ok :: "nat \<Rightarrow> nat \<Rightarrow> json_event list \<Rightarrow> bool" where
  "positions_ok lo hi [] \<longleftrightarrow> True"
| "positions_ok lo hi (e # evs) \<longleftrightarrow> lo < event_pos e \<and> event_pos e \<le> hi \<and> positions_ok (event_pos e) hi evs"

fun depth_ok :: "nat \<Rightarrow> json_event list \<Rightarrow> bool" where
  "depth_ok d [] \<longleftrightarrow> True"
| "depth_ok d (Start_map n # evs) \<longleftrightarrow> depth_ok (d + 1) evs"
| "depth_ok d (End_map n # evs) \<longleftrightarrow> 0 < d \<and> depth_ok (d - 1) evs"

text \<open>
  Feeding a parser the chunks of a text gives the events of the text, with positions in the text, if
  the parser finds no error and reports positions inside each chunk. \<open>yajl_stream\<close> is the documented
  behaviour of an incremental parser: the events do not depend on the chunks.
\<close>

fun feed :: "'y yajl_parse_fn \<Rightarrow> 'y \<Rightarrow> nat \<Rightarrow> bytes list \<Rightarrow> json_event list option" where
  "feed yp h off [] = Some []"
| "feed yp h off (c # cs) =
     (if c = [] then feed yp h off cs
      else case yp h c of
        (evs, Yajl_ok, h') \<Rightarrow>
          if positions_ok 0 (length c) evs
          then map_option ((@) (map (shift_event off) evs)) (feed yp h' (off + length c) cs)
          else None
      | _ \<Rightarrow> None)"

definition yajl_stream :: "'y yajl_parse_fn \<Rightarrow> 'y \<Rightarrow> bytes \<Rightarrow> json_event list \<Rightarrow> bool" where
  "yajl_stream yp h D evs \<longleftrightarrow> (\<forall>cs. concat cs = D \<longrightarrow> feed yp h 0 cs = Some evs) \<and> depth_ok 0 evs"

lemma depth_ok_shift [simp]: "depth_ok d (map (shift_event k) evs) = depth_ok d evs"
proof (induction evs arbitrary: d)
  case (Cons e evs)
  then show ?case by (cases e) simp_all
qed simp

lemma depth_ok_append:
  "depth_ok (ob_depth st) (evs1 @ evs2) \<longleftrightarrow>
     depth_ok (ob_depth st) evs1 \<and> depth_ok (ob_depth (foldl obj_step st evs1)) evs2"
proof (induction evs1 arbitrary: st)
  case (Cons e evs)
  show ?case
  proof (cases e)
    case (Start_map n)
    then show ?thesis using Cons [of "obj_step st e"] by simp
  next
    case (End_map n)
    then show ?thesis using Cons [of "obj_step st e"] by auto
  qed
qed simp

section \<open>One chunk implements the specification\<close>

text \<open>
  The relation between the specification's state and the session's in the middle of the chunk \<open>c\<close>
  (at address \<open>a\<close>), when the chunks before it hold the bytes \<open>P\<close> and the last callback was at byte \<open>lo\<close>
  of the chunk. \<open>out\<close> are the split messages, \<open>os0\<close> the number of objects done before the chunk.
\<close>

definition chunk_rel ::
  "bytes \<Rightarrow> addr \<Rightarrow> bytes \<Rightarrow> nat \<Rightarrow> nat \<Rightarrow> obj_state \<Rightarrow> 'y zz_json_session \<Rightarrow> bytes list \<Rightarrow> bool" where
  "chunk_rel P a c os0 lo st sess out \<longleftrightarrow>
     js_stack_pos sess = of_nat (ob_depth st) \<and> ob_depth st \<le> length P + lo \<and> lo \<le> length c \<and>
     js_in_buffer sess = a \<and>
     string_ok (js_last_object sess) \<and> kma_ok (zs_kafka_msgs sess) \<and>
     length (kma_msgs (zs_kafka_msgs sess)) \<le> lo \<and>
     (0 < ob_depth st \<longrightarrow> ob_start st < length P + lo) \<and>
     os0 \<le> length (ob_done st) \<and>
     map (slice (P @ c)) (drop os0 (ob_done st)) = out @ map (msg_bytes a c) (kma_msgs (zs_kafka_msgs sess)) \<and>
     (if ob_depth st = 0 then js_last_open_map sess = 0 \<and> string_bytes (js_last_object sess) = []
      else if ob_start st < length P
      then js_last_open_map sess = 0 \<and> string_bytes (js_last_object sess) = drop (ob_start st) P \<and>
           kma_msgs (zs_kafka_msgs sess) = []
      else js_last_open_map sess = a + of_nat (ob_start st - length P) \<and>
           string_bytes (js_last_object sess) = [])"

text \<open>The sizes for which the machine arithmetic of the code is exact.\<close>

definition chunk_fits :: "bytes \<Rightarrow> addr \<Rightarrow> bytes \<Rightarrow> bool" where
  "chunk_fits P a c \<longleftrightarrow> a \<noteq> 0 \<and> unat a + length c < 2 ^ 64 \<and>
     16 + 72 * (length P + length c) \<le> 2 ^ 31"

lemma of_nat_depth_0: "d < 2 ^ 63 \<Longrightarrow> (of_nat d :: size_t) = 0 \<longleftrightarrow> d = 0"
  using unat_of_nat_fits [of d] by (cases d) auto

lemma of_nat_depth_pred: "0 < d \<Longrightarrow> (of_nat d :: size_t) - 1 = of_nat (d - 1)"
  by (cases d) simp_all

lemma string_empty_iff:
  "string_ok s \<Longrightarrow> string_size s > 0 \<longleftrightarrow> string_bytes s \<noteq> []"
  using length_string_bytes [of s] by (cases "string_bytes s") (auto simp: string_size_def word_less_nat_alt)

lemma chunk_fitsD:
  assumes "chunk_fits P a c"
  shows "length P + length c \<le> 2 ^ 25" and "a \<noteq> 0" and "unat a + length c < 2 ^ 64"
    and "16 + 72 * (length P + length c) \<le> 2 ^ 31"
  using assms by (simp_all add: chunk_fits_def)

lemma chunk_rel_depth:
  assumes "chunk_rel P a c os0 lo st sess out" and "chunk_fits P a c"
  shows "ob_depth st < 2 ^ 63"
proof -
  have "ob_depth st \<le> length P + lo" "lo \<le> length c" using assms(1) by (simp_all add: chunk_rel_def)
  then have "ob_depth st \<le> 2 ^ 25" using chunk_fitsD(1) [OF assms(2)] by linarith
  then show ?thesis by simp
qed

lemma chunk_rel_start:
  assumes rel: "chunk_rel P a c os0 lo st sess out" and fits: "chunk_fits P a c"
    and n: "lo < n" "n \<le> length c"
  shows "chunk_rel P a c os0 n (obj_step st (Start_map (n + length P))) (zz_parse_start_json_map n sess) out"
proof (cases "ob_depth st = 0")
  case True
  have addr: "a + of_nat n - 1 = a + (of_nat (n - 1) :: addr)" using n(1) by (cases n) simp_all
  have "n + length P - 1 - length P = n - 1" "\<not> n + length P - 1 < length P" using n(1) by linarith+
  with True rel n addr show ?thesis by (simp add: chunk_rel_def zz_parse_start_json_map_def)
next
  case False
  have d: "ob_depth st < 2 ^ 63" using rel fits by (rule chunk_rel_depth)
  have "js_stack_pos sess \<noteq> 0" using rel of_nat_depth_0 [OF d] False by (simp add: chunk_rel_def)
  with False rel n show ?thesis by (simp add: chunk_rel_def zz_parse_start_json_map_def)
qed

text \<open>A message that lies within the chunk.\<close>

lemma msg_bytes_in_chunk:
  assumes fits: "chunk_fits P a c" and k: "length P \<le> k" "k < length P + n" "n \<le> length c"
    and sess: "js_in_buffer sess = a" "js_last_open_map sess = a + of_nat (k - length P)"
  shows "msg_bytes a c (zz_parse_generate_rdkafka_message n sess) = slice (P @ c) (k, n + length P)"
proof -
  have n: "n < 2 ^ 64" using k(3) chunk_fitsD(1) [OF fits] by simp
  have "(of_nat n - of_nat (k - length P) :: size_t) = of_nat (n - (k - length P))"
    using k by (intro of_nat_diff [symmetric]) linarith
  moreover have "unat (of_nat (n - (k - length P)) :: size_t) = n - (k - length P)"
    using n by (intro unat_of_nat_fits) linarith
  ultimately have "unat (of_nat n - of_nat (k - length P) :: size_t) = n - (k - length P)" by simp
  moreover have "unat (of_nat (k - length P) :: size_t) = k - length P"
    using k n by (intro unat_of_nat_fits) linarith
  moreover have "n + length P - k = n - (k - length P)" using k by linarith
  moreover have "slice (P @ c) (k, n + length P) = take (n + length P - k) (drop (k - length P) c)"
    using k(1) by (simp add: slice_def)
  ultimately show ?thesis
    by (simp only: msg_bytes_def zz_parse_generate_rdkafka_message_def Let_def rd_kafka_message.select_convs
        sess add_diff_cancel_left add_diff_cancel_left')
qed

lemma chunk_rel_end_inner:
  assumes rel: "chunk_rel P a c os0 lo st sess out" and fits: "chunk_fits P a c"
    and n: "lo < n" "n \<le> length c" and d: "1 < ob_depth st"
  shows "\<exists>sess'. zz_parse_end_json_map al c n sess = Inr (sess', []) \<and>
    chunk_rel P a c os0 n (obj_step st (End_map (n + length P))) sess' out"
proof -
  have d63: "ob_depth st - 1 < 2 ^ 63" using chunk_rel_depth [OF rel fits] by simp
  have pos: "js_stack_pos sess - 1 = of_nat (ob_depth st - 1)"
    using rel d of_nat_depth_pred [of "ob_depth st"] by (simp add: chunk_rel_def)
  then have "js_stack_pos sess - 1 \<noteq> 0" using of_nat_depth_0 [OF d63] d by simp
  then have "zz_parse_end_json_map al c n sess = Inr (sess\<lparr>js_stack_pos := js_stack_pos sess - 1\<rparr>, [])"
    by (simp add: zz_parse_end_json_map_def Let_def)
  moreover have "chunk_rel P a c os0 n (obj_step st (End_map (n + length P)))
      (sess\<lparr>js_stack_pos := js_stack_pos sess - 1\<rparr>) out"
    using rel n d pos by (auto simp: chunk_rel_def)
  ultimately show ?thesis by blast
qed

lemma chunk_rel_end_split:
  assumes rel: "chunk_rel P a c os0 lo st sess out" and fits: "chunk_fits P a c"
    and n: "lo < n" "n \<le> length c" and d: "ob_depth st = 1" and split: "ob_start st < length P"
    and al: "\<And>k. al_ok al k"
  shows "\<exists>sess' out1. zz_parse_end_json_map al c n sess = Inr (sess', out1) \<and>
    chunk_rel P a c os0 n (obj_step st (End_map (n + length P))) sess' (out @ out1)"
proof -
  let ?s1 = "sess\<lparr>js_stack_pos := js_stack_pos sess - 1\<rparr>"
  have lo: "string_ok (js_last_object sess)" "string_bytes (js_last_object sess) = drop (ob_start st) P"
    "kma_msgs (zs_kafka_msgs sess) = []" "js_stack_pos sess = 1"
    and dn: "map (slice (P @ c)) (drop os0 (ob_done st)) = out" "os0 \<le> length (ob_done st)"
    using rel d split by (simp_all add: chunk_rel_def)
  have size: "string_size (js_last_object sess) > 0" using string_empty_iff [OF lo(1)] lo(2) split by simp
  have "length (string_bytes (js_last_object sess)) = unat (str_size (js_last_object sess))"
    using lo(1) by (rule length_string_bytes)
  then have "unat (str_size (js_last_object sess)) \<le> length P" using lo(2) by simp
  then have room: "string_fits (js_last_object sess) (length (take n c))"
    using chunk_fitsD(1) [OF fits] n by (simp add: string_fits_def)
  obtain rc o' where app: "string_append al (js_last_object sess) (take n c) = (rc, o')" by fastforce
  have rc: "rc = 0" using string_append_granted [OF lo(1) room al] app by simp
  have bytes: "string_bytes o' = drop (ob_start st) P @ take n c"
    using string_append_spec [OF lo(1) room app] rc lo(2) by simp
  have whole: "slice (P @ c) (ob_start st, n + length P) = drop (ob_start st) P @ take n c"
    using split n by (simp add: slice_def)
  let ?s2 = "?s1\<lparr>js_last_object := string_done o'\<rparr>"
  have "zz_parse_end_json_map al c n sess = Inr (?s2, [string_bytes o'])"
    using lo(4) size app rc by (simp add: zz_parse_end_json_map_def zz_parse_end_json_map_split_def Let_def)
  moreover have "chunk_rel P a c os0 n (obj_step st (End_map (n + length P))) ?s2 (out @ [string_bytes o'])"
    using rel n d lo dn whole bytes split by (simp add: chunk_rel_def)
  ultimately show ?thesis by blast
qed

lemma chunk_rel_end_whole:
  assumes rel: "chunk_rel P a c os0 lo st sess out" and fits: "chunk_fits P a c"
    and n: "lo < n" "n \<le> length c" and d: "ob_depth st = 1" and whole: "\<not> ob_start st < length P"
    and al: "\<And>k. al_ok al k"
  shows "\<exists>sess' out1. zz_parse_end_json_map al c n sess = Inr (sess', out1) \<and>
    chunk_rel P a c os0 n (obj_step st (End_map (n + length P))) sess' (out @ out1)"
proof -
  let ?s1 = "sess\<lparr>js_stack_pos := js_stack_pos sess - 1\<rparr>"
  let ?msg = "zz_parse_generate_rdkafka_message n ?s1"
  have st: "string_ok (js_last_object sess)" "string_bytes (js_last_object sess) = []"
    "js_last_open_map sess = a + of_nat (ob_start st - length P)" "js_in_buffer sess = a"
    "js_stack_pos sess = 1" "kma_ok (zs_kafka_msgs sess)" "length (kma_msgs (zs_kafka_msgs sess)) \<le> lo"
    "ob_start st < length P + lo"
    and dn: "map (slice (P @ c)) (drop os0 (ob_done st)) = out @ map (msg_bytes a c) (kma_msgs (zs_kafka_msgs sess))"
      "os0 \<le> length (ob_done st)"
    using rel d whole by (simp_all add: chunk_rel_def)
  have size: "\<not> string_size (js_last_object sess) > 0" using string_empty_iff [OF st(1)] st(2) by simp
  have room: "kma_room (zs_kafka_msgs sess) 1" using st(7) n chunk_fitsD(4) [OF fits] by (simp add: kma_room_def)
  obtain array where add: "kafka_msg_array_add al (zs_kafka_msgs sess) ?msg = Inr (0, array)"
    using kafka_msg_array_add_granted [OF st(6) room al] by blast
  with kafka_msg_array_add_spec [OF st(6) room, of al ?msg]
  have ok: "kma_ok array" "kma_msgs array = kma_msgs (zs_kafka_msgs sess) @ [?msg]" by auto
  have bytes: "msg_bytes a c ?msg = slice (P @ c) (ob_start st, n + length P)"
    using whole st(3,4,8) n by (intro msg_bytes_in_chunk [OF fits]) simp_all
  let ?s2 = "?s1\<lparr>zs_kafka_msgs := array, js_last_open_map := 0\<rparr>"
  have "zz_parse_end_json_map al c n sess = Inr (?s2, [])"
    using st(5) size add by (simp add: zz_parse_end_json_map_def zz_parse_end_json_map0_def Let_def)
  moreover have "chunk_rel P a c os0 n (obj_step st (End_map (n + length P))) ?s2 (out @ [])"
    using rel n d ok dn bytes st by (simp add: chunk_rel_def)
  ultimately show ?thesis by blast
qed

lemma chunk_rel_callbacks:
  assumes "chunk_fits P a c" and "\<And>k. al_ok al k"
  shows "chunk_rel P a c os0 lo st sess out \<Longrightarrow> positions_ok lo (length c) evs \<Longrightarrow> depth_ok (ob_depth st) evs \<Longrightarrow>
    \<exists>sess' out1 lo'. json_callbacks al c evs sess = Inr (sess', out1) \<and>
      chunk_rel P a c os0 lo' (foldl obj_step st (map (shift_event (length P)) evs)) sess' (out @ out1)"
proof (induction evs arbitrary: lo st sess out)
  case Nil
  then show ?case by auto
next
  case (Cons ev evs)
  show ?case
  proof (cases ev)
    case (Start_map n)
    with Cons.prems(2,3) have n: "lo < n" "n \<le> length c"
      and ok: "positions_ok n (length c) evs" "depth_ok (ob_depth st + 1) evs" by simp_all
    from Cons.IH [OF chunk_rel_start [OF Cons.prems(1) assms(1) n]] ok Start_map show ?thesis by simp
  next
    case (End_map n)
    with Cons.prems(2,3) have n: "lo < n" "n \<le> length c" and d: "0 < ob_depth st"
      and ok: "positions_ok n (length c) evs" "depth_ok (ob_depth st - 1) evs" by simp_all
    have "\<exists>sess' out1. zz_parse_end_json_map al c n sess = Inr (sess', out1) \<and>
        chunk_rel P a c os0 n (obj_step st (End_map (n + length P))) sess' (out @ out1)"
    proof (cases "ob_depth st = 1")
      case True
      then show ?thesis
        using chunk_rel_end_split [OF Cons.prems(1) assms(1) n True _ assms(2)]
          chunk_rel_end_whole [OF Cons.prems(1) assms(1) n True _ assms(2)] by blast
    next
      case False
      with d have "1 < ob_depth st" by linarith
      from chunk_rel_end_inner [OF Cons.prems(1) assms(1) n this, of al] show ?thesis by auto
    qed
    then obtain s1 out1 where s1: "zz_parse_end_json_map al c n sess = Inr (s1, out1)"
      "chunk_rel P a c os0 n (obj_step st (End_map (n + length P))) s1 (out @ out1)" by blast
    from Cons.IH [OF s1(2)] ok obtain s2 out2 lo' where
      "json_callbacks al c evs s1 = Inr (s2, out2)"
      "chunk_rel P a c os0 lo' (foldl obj_step (obj_step st (End_map (n + length P)))
          (map (shift_event (length P)) evs)) s2 ((out @ out1) @ out2)" by auto
    with s1(1) End_map show ?thesis by auto
  qed
qed

section \<open>From chunk to chunk\<close>

text \<open>Between two chunks the session holds the beginning of the open object, if there is one.\<close>

definition sess_rel :: "bytes \<Rightarrow> obj_state \<Rightarrow> 'y zz_json_session \<Rightarrow> bool" where
  "sess_rel P st sess \<longleftrightarrow>
     js_stack_pos sess = of_nat (ob_depth st) \<and> ob_depth st \<le> length P \<and>
     (0 < ob_depth st \<longrightarrow> ob_start st < length P) \<and>
     string_ok (js_last_object sess) \<and> js_last_open_map sess = 0 \<and>
     string_bytes (js_last_object sess) = (if ob_depth st = 0 then [] else drop (ob_start st) P)"

lemma chunk_rel_begin:
  "sess_rel P st sess \<Longrightarrow>
   chunk_rel P a c (length (ob_done st)) 0 st
     (sess\<lparr>zs_kafka_msgs := kafka_msg_array_init q, js_in_buffer := a, js_yajl_handler := h\<rparr>) []"
  by (simp add: sess_rel_def chunk_rel_def)

text \<open>Saving a piece of an open object, and the place of an object that the chunk opened.\<close>

lemma open_object_append:
  assumes "string_ok l" and "\<And>k. al_ok al k" and "length (string_bytes l) + length d \<le> 2 ^ 31"
  shows "string_ok (snd (string_append al l d))" and "string_bytes (snd (string_append al l d)) = string_bytes l @ d"
proof -
  have fit: "string_fits l (length d)" using assms(3) length_string_bytes [OF assms(1)] by (simp add: string_fits_def)
  obtain rc l' where run: "string_append al l d = (rc, l')" by fastforce
  have "rc = 0" using string_append_granted [OF assms(1) fit assms(2)] run by simp
  with string_append_spec [OF assms(1) fit run] run
  show "string_ok (snd (string_append al l d))" "string_bytes (snd (string_append al l d)) = string_bytes l @ d" by simp_all
qed

lemma open_object_offset:
  assumes "chunk_fits P a c" and "k < length c"
  shows "a + of_nat k \<noteq> 0" and "unat (a + of_nat k - a) = k"
proof -
  have "unat (a + of_nat k) = unat a + k" using assms(2) chunk_fitsD(3) [OF assms(1)] by (intro unat_plus_of_nat) linarith
  moreover have "0 < unat a" using chunk_fitsD(2) [OF assms(1)] by (simp add: unat_gt_0)
  ultimately show "a + of_nat k \<noteq> 0" by (metis add_gr_0 less_irrefl unsigned_0)
  have "unat (of_nat k :: addr) = k" using assms(2) chunk_fitsD(1) [OF assms(1)] by (intro unat_of_nat_fits) simp
  then show "unat (a + of_nat k - a) = k" by simp
qed

lemma save_open_object_spec:
  assumes rel: "chunk_rel P a c os0 lo st sess out" and fits: "chunk_fits P a c" and al: "\<And>k. al_ok al k"
  shows "sess_rel (P @ c) st ((save_open_object al a c sess)\<lparr>js_in_buffer := 0, js_last_open_map := 0\<rparr>)"
    and "zs_kafka_msgs (save_open_object al a c sess) = zs_kafka_msgs sess"
    and "js_yajl_handler (save_open_object al a c sess) = js_yajl_handler sess"
    and "zs_last_warning (save_open_object al a c sess) = zs_last_warning sess"
    and "zs_topic_handler (save_open_object al a c sess) = zs_topic_handler sess"
proof -
  let ?o = "js_last_object sess"
  have r: "string_ok ?o" "js_stack_pos sess = of_nat (ob_depth st)" "ob_depth st \<le> length (P @ c)"
    "0 < ob_depth st \<Longrightarrow> ob_start st < length (P @ c)"
    using rel by (auto simp: chunk_rel_def)
  have app: "string_ok (snd (string_append al ?o d))" "string_bytes (snd (string_append al ?o d)) = string_bytes ?o @ d"
    if "length (string_bytes ?o) + length d \<le> length P + length c" for d
    using open_object_append [OF r(1) al, of d] that chunk_fitsD(1) [OF fits] by simp_all
  show "sess_rel (P @ c) st ((save_open_object al a c sess)\<lparr>js_in_buffer := 0, js_last_open_map := 0\<rparr>)"
  proof (cases "ob_depth st = 0")
    case True
    then have "js_last_open_map sess = 0" "string_bytes ?o = []" using rel by (simp_all add: chunk_rel_def)
    moreover from this have "string_size ?o = 0"
      using string_empty_iff [OF r(1)] by (simp add: word_gt_0)
    ultimately show ?thesis using True r by (simp add: save_open_object_def sess_rel_def)
  next
    case open_obj: False
    show ?thesis
    proof (cases "ob_start st < length P")
      case True
      then have s: "js_last_open_map sess = 0" "string_bytes ?o = drop (ob_start st) P"
        using rel open_obj by (simp_all add: chunk_rel_def)
      then have "string_size ?o \<noteq> 0" using string_empty_iff [OF r(1)] True by (simp add: word_gt_0)
      with s r open_obj True app [of c] show ?thesis by (simp add: save_open_object_def sess_rel_def)
    next
      case False
      let ?k = "ob_start st - length P"
      have s: "js_last_open_map sess = a + of_nat ?k" "string_bytes ?o = []"
        using rel open_obj False by (simp_all add: chunk_rel_def)
      have k: "?k < length c" using r(4) open_obj False by simp
      from open_object_offset [OF fits k] have "js_last_open_map sess \<noteq> 0" "unat (js_last_open_map sess - a) = ?k" by (simp_all add: s(1))
      moreover have "drop (ob_start st) (P @ c) = drop ?k c" using False by simp
      ultimately show ?thesis using s r open_obj False app [of "drop ?k c"]
        by (simp add: save_open_object_def sess_rel_def)
    qed
  qed
  show "zs_kafka_msgs (save_open_object al a c sess) = zs_kafka_msgs sess"
    and "js_yajl_handler (save_open_object al a c sess) = js_yajl_handler sess"
    and "zs_last_warning (save_open_object al a c sess) = zs_last_warning sess"
    and "zs_topic_handler (save_open_object al a c sess) = zs_topic_handler sess"
    by (simp_all add: save_open_object_def)
qed

lemma finish_json_chunk_spec:
  assumes "kma_ok (zs_kafka_msgs sess)"
  shows "\<exists>array. finish_json_chunk a sess =
      Inr (sess\<lparr>zs_kafka_msgs := array, js_in_buffer := 0, js_last_open_map := 0\<rparr>) \<and>
    kma_ok array \<and> kma_msgs array = kma_msgs (zs_kafka_msgs sess) \<and>
    (kma_msgs array \<noteq> [] \<longrightarrow> map_option payload_buffer (kma_internal array) = Some a)"
proof (cases "kma_internal (zs_kafka_msgs sess)")
  case None
  have "sess\<lparr>zs_kafka_msgs := zs_kafka_msgs sess, js_in_buffer := 0, js_last_open_map := 0\<rparr> =
      sess\<lparr>js_in_buffer := 0, js_last_open_map := 0\<rparr>" by simp
  with None assms show ?thesis
    by (intro exI [of _ "zs_kafka_msgs sess"])
      (simp add: finish_json_chunk_def kafka_message_array_size_def kma_ok_def kma_msgs_def)
next
  case (Some k)
  note k = kma_ok_SomeD [OF assms Some]
  have "kafka_message_array_size (zs_kafka_msgs sess) = Inr (karray_count k)"
    using Some k(4) by (simp add: kafka_message_array_size_def)
  then show ?thesis using Some k assms
    by (intro exI [of _ "(zs_kafka_msgs sess)\<lparr>kma_internal := Some (k\<lparr>payload_buffer := a\<rparr>)\<rparr>"])
      (simp add: finish_json_chunk_def kafka_message_array_set_payload_buffer0_def kma_ok_def kma_msgs_def)
qed

lemma json_callbacks_handler:
  "json_callbacks al c evs sess = Inr (sess', out) \<Longrightarrow>
   js_yajl_handler sess' = js_yajl_handler sess \<and> zs_http_response sess' = zs_http_response sess \<and>
   zs_last_warning sess' = zs_last_warning sess \<and> zs_topic_handler sess' = zs_topic_handler sess"
proof (induction evs arbitrary: sess out)
  case (Cons e evs)
  show ?case
  proof (cases e)
    case (Start_map n)
    with Cons show ?thesis by (fastforce simp: zz_parse_start_json_map_def Let_def split: if_splits)
  next
    case (End_map n)
    with Cons.prems obtain s1 out1 out2 where s1: "zz_parse_end_json_map al c n sess = Inr (s1, out1)"
      "json_callbacks al c evs s1 = Inr (sess', out2)" by (auto simp: c_bind_Inr_iff)
    have "js_yajl_handler s1 = js_yajl_handler sess \<and> zs_http_response s1 = zs_http_response sess \<and>
        zs_last_warning s1 = zs_last_warning sess \<and> zs_topic_handler s1 = zs_topic_handler sess"
      using s1(1) by (auto simp: zz_parse_end_json_map_def zz_parse_end_json_map0_def
          zz_parse_end_json_map_split_def Let_def c_bind_Inr_iff split: if_splits prod.splits)
    with Cons.IH [OF s1(2)] show ?thesis by simp
  qed
qed simp

lemma process_json_chunk:
  assumes rel: "sess_rel P st sess" and fits: "chunk_fits P a c" and ne: "c \<noteq> []"
    and yp: "yp (js_yajl_handler sess) c = (evs, Yajl_ok, h')" and ev: "positions_ok 0 (length c) evs"
    and dep: "depth_ok (ob_depth st) evs" and al: "\<And>k. al_ok al k"
    and st': "st' = foldl obj_step st (map (shift_event (length P)) evs)"
  shows "\<exists>sess' out. process_json_buffer al yp (Some a) c
        (sess\<lparr>zs_kafka_msgs := kafka_msg_array_init (zs_kafka_msgs sess)\<rparr>) = Inr (DECODER_CALLBACK_OK, sess', out) \<and>
      js_yajl_handler sess' = h' \<and> sess_rel (P @ c) st' sess' \<and> length (ob_done st) \<le> length (ob_done st') \<and>
      map (slice (P @ c)) (drop (length (ob_done st)) (ob_done st')) =
        out @ map (msg_bytes a c) (kma_msgs (zs_kafka_msgs sess')) \<and>
      kma_ok (zs_kafka_msgs sess') \<and>
      (kma_msgs (zs_kafka_msgs sess') \<noteq> [] \<longrightarrow>
        map_option payload_buffer (kma_internal (zs_kafka_msgs sess')) = Some a) \<and>
      zs_last_warning sess' = zs_last_warning sess \<and> zs_topic_handler sess' = zs_topic_handler sess"
proof -
  let ?s1 = "sess\<lparr>zs_kafka_msgs := kafka_msg_array_init (zs_kafka_msgs sess), js_in_buffer := a, js_yajl_handler := h'\<rparr>"
  from chunk_rel_callbacks [OF fits al chunk_rel_begin [OF rel, where q = "zs_kafka_msgs sess" and h = h'] ev dep] obtain s2 out lo' where
    s2: "json_callbacks al c evs ?s1 = Inr (s2, out)" "chunk_rel P a c (length (ob_done st)) lo' st' s2 out"
    unfolding st' by auto
  let ?s3 = "save_open_object al a c s2"
  note so = save_open_object_spec [OF s2(2) fits al]
  have "kma_ok (zs_kafka_msgs ?s3)" using s2(2) so(2) by (simp add: chunk_rel_def)
  from finish_json_chunk_spec [OF this, of a] obtain array where
    fin: "finish_json_chunk a ?s3 = Inr (?s3\<lparr>zs_kafka_msgs := array, js_in_buffer := 0, js_last_open_map := 0\<rparr>)"
      "kma_msgs array = kma_msgs (zs_kafka_msgs s2)" "kma_ok array"
      "kma_msgs array \<noteq> [] \<longrightarrow> map_option payload_buffer (kma_internal array) = Some a"
    unfolding so(2) by blast
  let ?s' = "?s3\<lparr>zs_kafka_msgs := array, js_in_buffer := 0, js_last_open_map := 0\<rparr>"
  have "process_json_buffer al yp (Some a) c (sess\<lparr>zs_kafka_msgs := kafka_msg_array_init (zs_kafka_msgs sess)\<rparr>) =
      Inr (DECODER_CALLBACK_OK, ?s', out)"
    using ne yp s2(1) fin(1) by (simp add: process_json_buffer_def)
  moreover have "js_yajl_handler ?s' = h'" using json_callbacks_handler [OF s2(1)] so(3) by simp
  moreover have "sess_rel (P @ c) st' ?s'" using so(1) by (simp add: sess_rel_def)
  moreover have "length (ob_done st) \<le> length (ob_done st')"
    "map (slice (P @ c)) (drop (length (ob_done st)) (ob_done st')) = out @ map (msg_bytes a c) (kma_msgs (zs_kafka_msgs ?s'))"
    using s2(2) fin(2) by (simp_all add: chunk_rel_def)
  moreover have "zs_last_warning ?s' = zs_last_warning sess" "zs_topic_handler ?s' = zs_topic_handler sess"
    using json_callbacks_handler [OF s2(1)] so(4,5) by simp_all
  moreover have "kma_ok (zs_kafka_msgs ?s')" "kma_msgs (zs_kafka_msgs ?s') \<noteq> [] \<longrightarrow>
      map_option payload_buffer (kma_internal (zs_kafka_msgs ?s')) = Some a" using fin(3,4) by simp_all
  ultimately show ?thesis by blast
qed

lemma slice_prefix: "snd r \<le> length P \<Longrightarrow> slice (P @ c) r = slice P r"
  by (auto simp: slice_def)

lemma obj_step_bound:
  assumes "\<forall>r \<in> set (ob_done st). snd r \<le> k" and "event_pos e \<le> n" and "k \<le> n"
  shows "\<forall>r \<in> set (ob_done (obj_step st e)). snd r \<le> n"
  using assms by (cases e) auto

lemma objects_bound:
  "\<forall>r \<in> set (ob_done st). snd r \<le> k \<Longrightarrow> \<forall>e \<in> set evs. event_pos e \<le> n \<Longrightarrow> k \<le> n \<Longrightarrow>
   \<forall>r \<in> set (ob_done (foldl obj_step st evs)). snd r \<le> n"
proof (induction evs arbitrary: st k)
  case (Cons e evs)
  have "\<forall>r \<in> set (ob_done (obj_step st e)). snd r \<le> n"
    using Cons.prems by (intro obj_step_bound [of st k]) simp_all
  then show ?case using Cons.IH [of "obj_step st e" n] Cons.prems(2) by simp
qed auto

lemma objects_extend: "\<exists>xs. ob_done (foldl obj_step st evs) = ob_done st @ xs"
proof (induction evs arbitrary: st)
  case (Cons e evs)
  obtain xs where "ob_done (foldl obj_step (obj_step st e) evs) = ob_done (obj_step st e) @ xs" using Cons by blast
  moreover obtain ys where "ob_done (obj_step st e) = ob_done st @ ys" by (cases e; cases "ob_depth st = 1") auto
  ultimately show ?case by simp
qed simp

lemma positions_ok_bound: "positions_ok lo hi evs \<Longrightarrow> e \<in> set evs \<Longrightarrow> event_pos e \<le> hi"
  by (induction evs arbitrary: lo) auto

lemma event_pos_shift: "event_pos (shift_event k e) = event_pos e + k"
  by (cases e) simp_all

text \<open>The objects before a chunk are those that were complete before it.\<close>

lemma objects_before:
  assumes "\<forall>r \<in> set (ob_done st). snd r \<le> length P"
    and "map (slice (P @ c)) (drop (length (ob_done st)) (ob_done (foldl obj_step st evs))) = ms"
  shows "map (slice (P @ c)) (ob_done (foldl obj_step st evs)) = map (slice P) (ob_done st) @ ms"
proof -
  have "take (length (ob_done st)) (ob_done (foldl obj_step st evs)) = ob_done st" using objects_extend [of st evs] by force
  then have "map (slice (P @ c)) (ob_done (foldl obj_step st evs)) = map (slice (P @ c)) (ob_done st) @ ms"
    using assms(2) by (metis append_take_drop_id map_append)
  moreover have "map (slice (P @ c)) (ob_done st) = map (slice P) (ob_done st)" using assms(1) slice_prefix by auto
  ultimately show ?thesis by simp
qed

lemma json_request_spec:
  assumes al: "\<And>k. al_ok al k"
    and addrs: "\<forall>(a, c) \<in> set cs. a \<noteq> 0 \<and> unat a + length c < 2 ^ 64"
    and size: "16 + 72 * (length P + length (concat (map snd cs))) \<le> 2 ^ 31"
    and rel: "sess_rel P st sess" and old: "\<forall>r \<in> set (ob_done st). snd r \<le> length P"
    and ev: "feed yp (js_yajl_handler sess) (length P) (map snd cs) = Some evs" and dep: "depth_ok (ob_depth st) evs"
  shows "\<exists>sess' msgs. json_request al yp cs sess = Inr (replicate (length cs) DECODER_CALLBACK_OK, sess', msgs) \<and>
    map (slice (P @ concat (map snd cs))) (ob_done (foldl obj_step st evs)) = map (slice P) (ob_done st) @ msgs"
  using assms
proof (induction cs arbitrary: P st sess evs)
  case Nil
  then show ?case by simp
next
  case (Cons ac cs)
  obtain a c where ac: "ac = (a, c)" by force
  let ?rest = "concat (map snd cs)"
  have sz: "16 + 72 * (length (P @ c) + length ?rest) \<le> 2 ^ 31" using Cons.prems(3) ac by (simp add: add.assoc)
  show ?case
  proof (cases "c = []")
    case True
    let ?s1 = "sess\<lparr>zs_kafka_msgs := kafka_msg_array_init (zs_kafka_msgs sess)\<rparr>"
    have "sess_rel P st ?s1" using Cons.prems(4) by (simp add: sess_rel_def)
    from Cons.IH [OF Cons.prems(1) _ _ this Cons.prems(5)] Cons.prems ac True sz obtain s2 msgs where
      "json_request al yp cs ?s1 = Inr (replicate (length cs) DECODER_CALLBACK_OK, s2, msgs)"
      "map (slice (P @ ?rest)) (ob_done (foldl obj_step st evs)) = map (slice P) (ob_done st) @ msgs" by auto
    with ac True show ?thesis by (simp add: process_json_buffer_def)
  next
    case False
    with Cons.prems(6) ac obtain evs1 h' evs2 where
      yp: "yp (js_yajl_handler sess) c = (evs1, Yajl_ok, h')" and pos: "positions_ok 0 (length c) evs1"
      and ev2: "feed yp h' (length P + length c) (map snd cs) = Some evs2"
      and evs: "evs = map (shift_event (length P)) evs1 @ evs2"
      by (auto split: prod.splits yajl_status.splits if_splits)
    let ?e1 = "map (shift_event (length P)) evs1"
    let ?st1 = "foldl obj_step st ?e1"
    have dep1: "depth_ok (ob_depth st) evs1" "depth_ok (ob_depth ?st1) evs2"
      using Cons.prems(7) evs by (simp_all add: depth_ok_append)
    have fits: "chunk_fits P a c" using Cons.prems(2) sz ac by (simp add: chunk_fits_def)
    obtain s1 out where s1: "process_json_buffer al yp (Some a) c
          (sess\<lparr>zs_kafka_msgs := kafka_msg_array_init (zs_kafka_msgs sess)\<rparr>) = Inr (DECODER_CALLBACK_OK, s1, out)"
        "js_yajl_handler s1 = h'" "sess_rel (P @ c) ?st1 s1"
      and done1: "length (ob_done st) \<le> length (ob_done ?st1)"
        "map (slice (P @ c)) (drop (length (ob_done st)) (ob_done ?st1)) =
          out @ map (msg_bytes a c) (kma_msgs (zs_kafka_msgs s1))"
      using process_json_chunk [where yp = yp, OF Cons.prems(4) fits False yp pos dep1(1) al refl] by blast
    have old1: "\<forall>r \<in> set (ob_done ?st1). snd r \<le> length (P @ c)"
      using Cons.prems(5) positions_ok_bound [OF pos] by (intro objects_bound) (auto simp: event_pos_shift)
    obtain s2 msgs where s2: "json_request al yp cs s1 = Inr (replicate (length cs) DECODER_CALLBACK_OK, s2, msgs)"
      "map (slice ((P @ c) @ ?rest)) (ob_done (foldl obj_step ?st1 evs2)) = map (slice (P @ c)) (ob_done ?st1) @ msgs"
      using Cons.IH [OF Cons.prems(1) _ sz s1(3) old1 _ dep1(2)] Cons.prems(2) ac ev2 s1(2) by auto
    show ?thesis using s1(1) s2 ac evs objects_before [OF Cons.prems(5) done1(2)] by simp
  qed
qed

section \<open>Properties\<close>

text \<open>A session as it is created: zeroed, with a fresh parser.\<close>

definition fresh_json_session :: "'y \<Rightarrow> 'y zz_json_session \<Rightarrow> bool" where
  "fresh_json_session h sess \<longleftrightarrow> js_yajl_handler sess = h \<and> js_stack_pos sess = 0 \<and>
     js_last_open_map sess = 0 \<and> js_last_object sess = N2K_STRING_INITIALIZER"

text \<open>C2: the messages a request produces are exactly its outermost JSON objects, byte for byte and in
  order, whatever the chunks the request arrives in: with an incremental parser, enough memory and a
  request of at most some 28 MiB, every chunk is answered with OK and the objects are the slices of the
  whole text that the specification reads off its events.\<close>

theorem json_request_chunking_independent:
  assumes "yajl_stream yp h D evs" and "concat (map snd cs) = D" and "\<And>k. al_ok al k"
    and "\<forall>(a, c) \<in> set cs. a \<noteq> 0 \<and> unat a + length c < 2 ^ 64"
    and "16 + 72 * length D \<le> 2 ^ 31" and "fresh_json_session h sess"
  shows "\<exists>sess'. json_request al yp cs sess =
    Inr (replicate (length cs) DECODER_CALLBACK_OK, sess', map (slice D) (ob_done (objects evs)))"
proof -
  let ?st = "\<lparr>ob_depth = 0, ob_start = 0, ob_done = []\<rparr>"
  have rel: "sess_rel [] ?st sess" using assms(6) by (simp add: fresh_json_session_def sess_rel_def)
  have ev: "feed yp (js_yajl_handler sess) (length ([] :: bytes)) (map snd cs) = Some evs"
    and dep: "depth_ok (ob_depth ?st) evs"
    using assms(1,2,6) by (simp_all add: yajl_stream_def fresh_json_session_def)
  have "16 + 72 * (length ([] :: bytes) + length (concat (map snd cs))) \<le> 2 ^ 31" using assms(2,5) by simp
  from json_request_spec [OF assms(3,4) this rel _ ev dep] show ?thesis
    unfolding assms(2) objects_def by auto
qed

text \<open>C23: when the parser reports an error the call answers with invalid request and appends the parser's
  message to the response, and the objects that were complete before the error are handed over all the
  same, the ones of the batch with the chunk's copy as their payload buffer.\<close>

theorem process_json_buffer_error:
  assumes "sess_rel P st sess" and "chunk_fits P a c" and "c \<noteq> []"
    and "yp (js_yajl_handler sess) c = (evs, Yajl_error str, h')" and "positions_ok 0 (length c) evs"
    and "depth_ok (ob_depth st) evs" and "\<And>k. al_ok al k"
    and "string_ok (zs_http_response sess)" and "string_fits (zs_http_response sess) (length str)"
  shows "\<exists>sess' out. process_json_buffer al yp (Some a) c
        (sess\<lparr>zs_kafka_msgs := kafka_msg_array_init (zs_kafka_msgs sess)\<rparr>) =
        Inr (DECODER_CALLBACK_INVALID_REQUEST, sess', out) \<and>
      string_bytes (zs_http_response sess') = string_bytes (zs_http_response sess) @ str \<and>
      map (slice (P @ c)) (drop (length (ob_done st))
          (ob_done (foldl obj_step st (map (shift_event (length P)) evs)))) =
        out @ map (msg_bytes a c) (kma_msgs (zs_kafka_msgs sess')) \<and>
      (kma_msgs (zs_kafka_msgs sess') \<noteq> [] \<longrightarrow>
        map_option payload_buffer (kma_internal (zs_kafka_msgs sess')) = Some a)"
proof -
  let ?s1 = "sess\<lparr>zs_kafka_msgs := kafka_msg_array_init (zs_kafka_msgs sess), js_in_buffer := a, js_yajl_handler := h'\<rparr>"
  let ?st' = "foldl obj_step st (map (shift_event (length P)) evs)"
  from chunk_rel_callbacks [OF assms(2,7) chunk_rel_begin [OF assms(1), where q = "zs_kafka_msgs sess" and h = h']
      assms(5,6)] obtain s2 out lo' where
    s2: "json_callbacks al c evs ?s1 = Inr (s2, out)" "chunk_rel P a c (length (ob_done st)) lo' ?st' s2 out" by auto
  have resp: "zs_http_response s2 = zs_http_response sess" using json_callbacks_handler [OF s2(1)] by simp
  obtain rc r' where app: "string_append al (zs_http_response sess) str = (rc, r')" by fastforce
  have "rc = 0" using string_append_granted [OF assms(8,9,7)] app by simp
  then have bytes: "string_bytes r' = string_bytes (zs_http_response sess) @ str"
    using string_append_spec [OF assms(8,9) app] by simp
  let ?s3 = "s2\<lparr>zs_http_response := r'\<rparr>"
  have zk: "zs_kafka_msgs ?s3 = zs_kafka_msgs s2" by simp
  have "kma_ok (zs_kafka_msgs ?s3)" using s2(2) by (simp add: chunk_rel_def)
  from finish_json_chunk_spec [OF this, of a] obtain array where
    fin: "finish_json_chunk a ?s3 = Inr (?s3\<lparr>zs_kafka_msgs := array, js_in_buffer := 0, js_last_open_map := 0\<rparr>)"
      "kma_msgs array = kma_msgs (zs_kafka_msgs s2)"
      "kma_msgs array \<noteq> [] \<longrightarrow> map_option payload_buffer (kma_internal array) = Some a"
    unfolding zk by blast
  have "process_json_buffer al yp (Some a) c (sess\<lparr>zs_kafka_msgs := kafka_msg_array_init (zs_kafka_msgs sess)\<rparr>) =
      Inr (DECODER_CALLBACK_INVALID_REQUEST, ?s3\<lparr>zs_kafka_msgs := array, js_in_buffer := 0, js_last_open_map := 0\<rparr>, out)"
    using assms(3,4) s2(1) fin(1) resp app by (simp add: process_json_buffer_def)
  with s2(2) fin(2,3) bytes show ?thesis by (auto simp: chunk_rel_def)
qed

text \<open>When the beginning of an object that spans two chunks could not be saved for lack of memory, the
  end of the object in the next chunk adds a message whose payload is the null pointer and whose length
  is the address of the byte after the object.\<close>

lemma json_lost_object_null_payload:
  assumes "js_stack_pos sess = 1" and "js_last_open_map sess = 0" and "js_last_object sess = N2K_STRING_INITIALIZER"
    and "kafka_msg_array_add al (zs_kafka_msgs sess)
      \<lparr>rkm_err = RD_KAFKA_RESP_ERR_NO_ERROR, rkm_payload = 0, rkm_len = js_in_buffer sess + of_nat n, rkm_private = 0\<rparr>
      = Inr (rc, array)"
  shows "zz_parse_end_json_map al c n sess =
    Inr (sess\<lparr>js_stack_pos := 0, zs_kafka_msgs := array, js_last_open_map := 0\<rparr>, [])"
  using assms
  by (simp add: zz_parse_end_json_map_def zz_parse_end_json_map0_def zz_parse_generate_rdkafka_message_def
      string_size_def N2K_STRING_INITIALIZER_def)

text \<open>The message of a failed request is the JSON object with the number of messages queued and the
  escaped text of the error, for error texts that fit the string's first block.\<close>

lemma error_message_json_correct:
  assumes "string_ok err" and "NUL \<notin> set (string_bytes err)" and "al_ok al STRING_MIN_SIZE"
    and "length (json_escape (string_bytes err)) \<le> 4000" and "n < 10 ^ 20" and "rc \<noteq> DECODER_CALLBACK_OK"
  shows "\<exists>s. error_message_json al err rc n = Some (Inr s) \<and> string_ok s \<and>
    string_bytes s = ''{'' @ [QUOTE] @ ''messages_queued'' @ [QUOTE] @ '':'' @ dec_string n @
      '','' @ [QUOTE] @ ''json_decoder_error'' @ [QUOTE] @ '':'' @ [QUOTE] @
      json_escape (string_bytes err) @ [QUOTE] @ ''}''"
proof -
  let ?p1 = "''{'' @ [QUOTE] @ ''messages_queued'' @ [QUOTE] @ '':'' @ dec_string n"
  let ?p2 = "'','' @ [QUOTE] @ ''json_decoder_error'' @ [QUOTE] @ '':'' @ [QUOTE]"
  have len1: "length ?p1 \<le> 39" using length_dec_string_le [of n 20] assms(5) by simp
  have len2: "length ?p2 = 23" by simp
  obtain s1 where s1: "string_printf al N2K_STRING_INITIALIZER ?p1 = Some (Inr (int (length ?p1), s1))"
    "string_ok s1" "string_bytes s1 = ?p1"
    using string_printf_small [of N2K_STRING_INITIALIZER ?p1 al] len1 assms(3)
    by (auto simp: N2K_STRING_INITIALIZER_def [THEN arg_cong, of str_size])
  have u1: "unat (str_size s1) = length ?p1" using length_string_bytes [OF s1(2)] s1(3) by simp
  obtain s2 where s2: "string_append al s1 ?p2 = (0, s2)" "string_ok s2" "string_bytes s2 = ?p1 @ ?p2"
    "unat (str_size s2) = length ?p1 + length ?p2"
    using string_append_small [OF s1(2), of ?p2 al] u1 len1 len2 s1(3) assms(3) by auto
  obtain s3 where s3: "string_append_json_string al s2 (string_bytes err) = Some (Inr (0, s3))" "string_ok s3"
    "string_bytes s3 = (?p1 @ ?p2) @ json_escape (string_bytes err)"
    using append_json_loop_small [OF s2(2) assms(2,3)] s2(3,4) len1 len2 assms(4)
    by (auto simp: string_append_json_string_def)
  have u3: "unat (str_size s3) = length ?p1 + length ?p2 + length (json_escape (string_bytes err))"
    using length_string_bytes [OF s3(2)] s3(3) by simp
  obtain s4 where s4: "string_append al s3 [QUOTE] = (0, s4)" "string_ok s4"
    "string_bytes s4 = string_bytes s3 @ [QUOTE]" "unat (str_size s4) = unat (str_size s3) + 1"
    using string_append_small [OF s3(2), of "[QUOTE]" al] u3 len1 len2 assms(3,4) by auto
  obtain s5 where s5: "string_append al s4 ''}'' = (0, s5)" "string_ok s5" "string_bytes s5 = string_bytes s4 @ ''}''"
    using string_append_small [OF s4(2), of "''}''" al] u3 s4(4) len1 len2 assms(3,4) by auto
  have "error_message_json al err rc n = Some (Inr s5)"
    using s1(1) s2(1) s3(1) s4(1) s5(1) assms(6)
    by (simp add: error_message_json_def string_append_string_def)
  with s5 s4 s3 show ?thesis by simp
qed

section \<open>Witnesses\<close>

text \<open>A parser that reports every brace, which is an incremental parser for text without strings.\<close>

fun brace_events :: "nat \<Rightarrow> bytes \<Rightarrow> json_event list" where
  "brace_events k [] = []"
| "brace_events k (c # cs) =
     (if c = CHR ''{'' then Start_map (k + 1) # brace_events (k + 1) cs
      else if c = CHR ''}'' then End_map (k + 1) # brace_events (k + 1) cs
      else brace_events (k + 1) cs)"

definition brace_parser :: "unit yajl_parse_fn" where
  "brace_parser h c = (brace_events 0 c, Yajl_ok, h)"

lemma brace_events_append: "brace_events k (a @ b) = brace_events k a @ brace_events (k + length a) b"
  by (induction a arbitrary: k) simp_all

lemma brace_events_shift: "map (shift_event k) (brace_events j c) = brace_events (j + k) c"
  by (induction c arbitrary: j) (simp_all add: add.commute)

lemma brace_positions: "lo \<le> k \<Longrightarrow> k + length c \<le> hi \<Longrightarrow> positions_ok lo hi (brace_events k c)"
  by (induction c arbitrary: lo k) simp_all

lemma brace_feed: "feed brace_parser h k cs = Some (brace_events k (concat cs))"
proof (induction cs arbitrary: k)
  case (Cons c cs)
  have "positions_ok 0 (length c) (brace_events 0 c)" by (rule brace_positions) simp_all
  with Cons show ?case
    by (simp add: brace_parser_def brace_events_shift brace_events_append)
qed simp

lemma brace_stream: "depth_ok 0 (brace_events 0 D) \<Longrightarrow> yajl_stream brace_parser () D (brace_events 0 D)"
  by (simp add: yajl_stream_def brace_feed)

abbreviation test_json_session :: "unit zz_json_session" where
  "test_json_session \<equiv> \<lparr>zs_topic_handler = 1, zs_kafka_msgs = KAFKA_MESSAGE_ARRAY_INITIALIZER,
     zs_last_warning = \<lparr>produce_error_last_time = [0, 0, 0, 0]\<rparr>, zs_messages_sent = 0,
     zs_http_response = N2K_STRING_INITIALIZER, js_yajl_handler = (), js_stack_pos = 0, js_in_buffer = 0,
     js_last_open_map = 0, js_last_object = N2K_STRING_INITIALIZER\<rparr>"

theorem json_request_chunking_independent_witness:
  "\<exists>sess'. json_request total_allocator brace_parser [(4096, ''{a}{''), (8192, ''b}'')] test_json_session =
    Inr ([DECODER_CALLBACK_OK, DECODER_CALLBACK_OK], sess', [''{a}'', ''{b}''])"
proof -
  let ?D = "''{a}{b}''"
  have s: "yajl_stream brace_parser () ?D (brace_events 0 ?D)" by (rule brace_stream) simp
  have "\<exists>sess'. json_request total_allocator brace_parser [(4096, ''{a}{''), (8192, ''b}'')] test_json_session =
    Inr (replicate (length [(4096 :: addr, ''{a}{''), (8192, ''b}'')]) DECODER_CALLBACK_OK, sess',
         map (slice ?D) (ob_done (objects (brace_events 0 ?D))))"
    by (rule json_request_chunking_independent [OF s])
      (simp_all add: fresh_json_session_def)
  then show ?thesis by (simp add: objects_def slice_def)
qed

theorem process_json_buffer_error_witness:
  "\<exists>sess' out. process_json_buffer total_allocator (\<lambda>h c. ([Start_map 1, End_map 3], Yajl_error ''bad'', h)) (Some 4096)
      ''{a}]'' (test_json_session\<lparr>zs_kafka_msgs := kafka_msg_array_init (zs_kafka_msgs test_json_session)\<rparr>) =
      Inr (DECODER_CALLBACK_INVALID_REQUEST, sess', out) \<and>
    string_bytes (zs_http_response sess') = ''bad'' \<and>
    [''{a}''] = out @ map (msg_bytes 4096 ''{a}]'') (kma_msgs (zs_kafka_msgs sess'))"
proof -
  have rel: "sess_rel [] \<lparr>ob_depth = 0, ob_start = 0, ob_done = []\<rparr> test_json_session"
    by (simp add: sess_rel_def)
  have fits: "chunk_fits [] 4096 ''{a}]''" by (simp add: chunk_fits_def)
  have sf: "string_fits (zs_http_response test_json_session) (length ''bad'')"
    by (simp add: string_fits_def N2K_STRING_INITIALIZER_def)
  from process_json_buffer_error [OF rel fits, where al = total_allocator and str = "''bad''" and h' = "()"
      and evs = "[Start_map 1, End_map 3]" and yp = "\<lambda>h c. ([Start_map 1, End_map 3], Yajl_error ''bad'', h)"] sf
  show ?thesis by (auto simp: slice_def)
qed

end
