(* ===== verification/Zz_Decoder.thy ===== *)
theory Zz_Decoder
  imports Json_Parser Topic_Database
begin

text \<open>
  The HTTP decoder: the session (\<^verbatim>\<open>src/decoder/zz_http2k/zz_http2k_parser.c\<close>) and the decoder's entry
  points (\<^verbatim>\<open>src/decoder/zz_http2k/zz_http2k_decoder.c\<close>). A session is opened for the topic that the URL
  and the consumer name, with a parser chosen by the content type; every chunk is parsed and its batch
  is produced. The two parsers are reached through function pointers in the source: here they are
  arguments of the operations that call them.
\<close>

section \<open>The session\<close>

definition url_specials :: string where
  "url_specials = '';/?:@=&''"

definition valid_prefix_str :: string where
  "valid_prefix_str = ''/v1/data/''"

text \<open>The topic named by a URL, or nothing where the code returns -1.\<close>

definition extract_url_topic :: "string \<Rightarrow> string option" where
  "extract_url_topic url =
     (if \<not> strncmp0 valid_prefix_str url (length valid_prefix_str) then None
      else let topic = drop (length valid_prefix_str) url;
               topic_size = strcspn topic url_specials
           in if topic_size = 0 then None else Some (take topic_size topic))"

definition is_xml_content_type :: "string option \<Rightarrow> bool" where
  "is_xml_content_type content_type =
     (case content_type of
        None \<Rightarrow> False
      | Some ct \<Rightarrow> if length ct < length ''xml'' then False
                   else strcasecmp0 (drop (length ct - length ''xml'') ct) ''xml'')"

text \<open>The name under which the topic is looked up: the consumer, if there is one, and the topic.\<close>

definition make_uuid_topic :: "string option \<Rightarrow> string \<Rightarrow> string" where
  "make_uuid_topic client_uuid topic =
     (case client_uuid of None \<Rightarrow> topic | Some uuid \<Rightarrow> uuid @ ''_'' @ topic)"

record ('h, 'l, 's) new_session_result =
  ns_rc :: int
  ns_session :: "'s option"
  ns_heap :: topic_heap
  ns_db :: "('h, 'l) zz_database"

text \<open>
  \<open>new_parser xml\<close> makes a zeroed session with the chosen parser for the topic it is given, or fails;
  \<open>a\<close> is the address the allocator has for a new topic.
\<close>

definition new_zz_session ::
  "('h, 'l) tommy \<Rightarrow> rdkafka_topics \<Rightarrow> addr option \<Rightarrow> (bool \<Rightarrow> addr \<Rightarrow> 's option c_result) \<Rightarrow> topic_heap
   \<Rightarrow> ('h, 'l) zz_database \<Rightarrow> keyval_list \<Rightarrow> time_t \<Rightarrow> ('h, 'l, 's) new_session_result c_result" where
  "new_zz_session T R a new_parser H zz_db msg_vars now =
     (case valueof msg_vars ''D-HTTP-URI'' strcmp0 of
        None \<Rightarrow> Inl NullDeref
      | Some url \<Rightarrow>
          (case extract_url_topic url of
             None \<Rightarrow> Inr \<lparr>ns_rc = -1, ns_session = None, ns_heap = H, ns_db = zz_db\<rparr>
           | Some topic \<Rightarrow>
               let client_uuid = valueof msg_vars ''X-Consumer-ID'' strcasecmp0;
                   uuid_topic = make_uuid_topic client_uuid topic
               in c_bind (zz_http2k_database_get_topic T R a H zz_db uuid_topic now) (\<lambda>(handler, H1, db1).
                    case handler of
                      None \<Rightarrow> Inr \<lparr>ns_rc = -1, ns_session = None, ns_heap = H1, ns_db = db1\<rparr>
                    | Some p \<Rightarrow>
                        let xml = is_xml_content_type (valueof msg_vars ''Content-type'' strcasecmp0)
                        in c_bind (new_parser xml p) (\<lambda>sess.
                             case sess of
                               Some s \<Rightarrow> Inr \<lparr>ns_rc = 0, ns_session = Some s, ns_heap = H1, ns_db = db1\<rparr>
                             | None \<Rightarrow>
                                 c_bind (topic_decref H1 p) (\<lambda>H2.
                                   Inr \<lparr>ns_rc = -1, ns_session = None, ns_heap = H2, ns_db = db1\<rparr>)))))"

definition free_zz_session ::
  "('m zz_session_scheme \<Rightarrow> 'm zz_session_scheme) \<Rightarrow> topic_heap \<Rightarrow> 'm zz_session_scheme \<Rightarrow> topic_heap c_result" where
  "free_zz_session free_session H sess =
     (let sess1 = sess\<lparr>zs_http_response := string_done (zs_http_response sess)\<rparr>;
          sess2 = free_session sess1
      in topic_decref H (zs_topic_handler sess2))"

section \<open>The decoder\<close>

definition zz_decoder_init :: "('h, 'l) tommy \<Rightarrow> bool \<Rightarrow> int \<times> ('h, 'l) zz_database" where
  "zz_decoder_init T calloc_ok =
     (let (init_db_rc, db) = init_zz_database T calloc_ok in (if init_db_rc \<noteq> 0 then -1 else 0, db))"

definition zz_decoder_done :: "('h, 'l) tommy \<Rightarrow> topic_heap \<Rightarrow> ('h, 'l) zz_database \<Rightarrow> topic_heap c_result" where
  "zz_decoder_done T H db = free_valid_zz_database T H db"

definition zz_name :: string where
  "zz_name = ''zz_http2k''"

definition size_align_to :: "size_t \<Rightarrow> size_t \<Rightarrow> size_t" where
  "size_align_to sz alignment =
     (if sz mod alignment = 0 then sz else (sz div alignment + 1) * alignment)"

definition zz_session_size :: "size_t \<Rightarrow> size_t" where
  "zz_session_size sizeof_session = size_align_to sizeof_session 16"

text \<open>
  What a call of the decoder leaves: the code, the response it points the listener at, the session, what
  the parser gave besides it (the messages the JSON parser handed over while parsing, the text the XML
  parser generated), the messages of the batch that is produced and the batch left to the delivery reports.
\<close>

record ('s, 'e) zz_decode_result =
  zd_rc :: decoder_callback_err
  zd_response :: "bytes option"
  zd_session :: 's
  zd_split :: "'e list"
  zd_msgs :: "rd_kafka_message list"
  zd_batch :: "kafka_message_array_internal cell option"

type_synonym ('s, 'e) process_buffer_fn = "bytes \<Rightarrow> 's \<Rightarrow> (decoder_callback_err \<times> 's \<times> 'e list) c_run"
type_synonym error_message_fn = "n2k_string \<Rightarrow> decoder_callback_err \<Rightarrow> nat \<Rightarrow> n2k_string c_run"

text \<open>The JSON parser behind the session's function pointer.\<close>

definition json_process_buffer :: "allocator \<Rightarrow> 'y yajl_parse_fn \<Rightarrow> addr option \<Rightarrow> ('y zz_json_session, bytes) process_buffer_fn" where
  "json_process_buffer al yajl_parse buffer_addr buffer session = run_r (process_json_buffer al yajl_parse buffer_addr buffer session)"

text \<open>Producing the chunk's batch: the number of messages, how many were sent, and what is left.\<close>

definition zz_produce ::
  "produce_batch_fn \<Rightarrow> (nat \<Rightarrow> time_t) \<Rightarrow> addr \<Rightarrow> 'm zz_session_scheme
   \<Rightarrow> (size_t \<times> size_t \<times> 'm zz_session_scheme \<times> kafka_message_array_internal cell option) c_result" where
  "zz_produce produce_batch now karray_addr session =
     c_bind (kafka_message_array_size (zs_kafka_msgs session)) (\<lambda>kafka_messages_count.
       if kafka_messages_count \<noteq> 0
       then c_bind (kafka_message_array_produce produce_batch now karray_addr (zs_kafka_msgs session) 0
                      (Some (zs_last_warning session))) (\<lambda>res.
              Inr (kafka_messages_count, pres_msgs_ok res,
                   session\<lparr>zs_kafka_msgs := KAFKA_MESSAGE_ARRAY_INITIALIZER,
                           zs_last_warning := (case pres_state res of Some st \<Rightarrow> st | None \<Rightarrow> zs_last_warning session)\<rparr>,
                   pres_karray res))
       else Inr (kafka_messages_count, 0, session\<lparr>zs_kafka_msgs := KAFKA_MESSAGE_ARRAY_INITIALIZER\<rparr>, None))"

definition zz_respond ::
  "error_message_fn \<Rightarrow> decoder_callback_err \<Rightarrow> size_t \<Rightarrow> size_t \<Rightarrow> 'm zz_session_scheme
   \<Rightarrow> (decoder_callback_err \<times> bytes option \<times> 'm zz_session_scheme) c_run" where
  "zz_respond error_message process_err kafka_messages_count kafka_messages_sent session =
     (if process_err \<noteq> DECODER_CALLBACK_OK \<or> kafka_messages_count \<noteq> kafka_messages_sent
      then (let rc = (if process_err \<noteq> DECODER_CALLBACK_OK then process_err else DECODER_CALLBACK_BUFFER_FULL)
            in r_bind (error_message (zs_http_response session) process_err (unat kafka_messages_sent)) (\<lambda>full_error.
                 let session1 = (if string_size full_error > 0 then session\<lparr>zs_http_response := full_error\<rparr>
                                 else session)
                 in r_return (rc, Some (string_bytes (zs_http_response session1)), session1)))
      else r_return (DECODER_CALLBACK_OK, None, session))"

definition zz_decode ::
  "('m zz_session_scheme, 'e) process_buffer_fn \<Rightarrow> error_message_fn \<Rightarrow> produce_batch_fn \<Rightarrow> (nat \<Rightarrow> time_t) \<Rightarrow> addr
   \<Rightarrow> bytes \<Rightarrow> keyval_list \<Rightarrow> 'm zz_session_scheme \<Rightarrow> ('m zz_session_scheme, 'e) zz_decode_result c_run" where
  "zz_decode process_buffer error_message produce_batch now karray_addr buffer props session =
     (let not_post = (case valueof props ''D-HTTP-method'' strcmp0 of
                        Some http_method \<Rightarrow> \<not> strcmp0 ''POST'' http_method
                      | None \<Rightarrow> False)
      in
      if not_post
      then r_return \<lparr>zd_rc = DECODER_CALLBACK_HTTP_METHOD_NOT_ALLOWED, zd_response = None, zd_session = session,
                     zd_split = [], zd_msgs = [], zd_batch = None\<rparr>
      else r_bind (process_buffer buffer (session\<lparr>zs_kafka_msgs := kafka_msg_array_init (zs_kafka_msgs session)\<rparr>))
             (\<lambda>(process_err, session1, split).
                r_bind (run_r (zz_produce produce_batch now karray_addr session1))
                  (\<lambda>(kafka_messages_count, kafka_messages_sent, session2, batch).
                     r_bind (zz_respond error_message process_err kafka_messages_count kafka_messages_sent session2)
                       (\<lambda>(rc, response, session3).
                          r_return \<lparr>zd_rc = rc, zd_response = response, zd_session = session3, zd_split = split,
                                    zd_msgs = kma_msgs (zs_kafka_msgs session1), zd_batch = batch\<rparr>))))"

section \<open>URLs and alignment\<close>

text \<open>C24: a URL names the topic \<open>t\<close> exactly when it is the prefix /v1/data/ followed by \<open>t\<close>, which is
  not empty and has none of the reserved characters, and \<open>t\<close> goes up to the end or to the first of them.\<close>

lemma extract_url_topic_iff:
  "extract_url_topic url = Some t \<longleftrightarrow>
     t \<noteq> [] \<and> set t \<inter> set url_specials = {} \<and>
     (\<exists>rest. url = ''/v1/data/'' @ t @ rest \<and> (rest = [] \<or> hd rest \<in> set url_specials))"
proof -
  let ?P = "\<lambda>c. c \<notin> set url_specials"
  have tw: "takeWhile ?P s = t \<longleftrightarrow> set t \<inter> set url_specials = {} \<and>
      (\<exists>rest. s = t @ rest \<and> (rest = [] \<or> hd rest \<in> set url_specials))" for s
  proof
    assume t: "takeWhile ?P s = t"
    have "s = t @ dropWhile ?P s" unfolding t [symmetric] by simp
    moreover have "dropWhile ?P s = [] \<or> hd (dropWhile ?P s) \<in> set url_specials"
      using hd_dropWhile [of ?P s] by auto
    moreover have "set t \<inter> set url_specials = {}" unfolding t [symmetric] by (auto dest: set_takeWhileD)
    ultimately show "set t \<inter> set url_specials = {} \<and>
      (\<exists>rest. s = t @ rest \<and> (rest = [] \<or> hd rest \<in> set url_specials))" by blast
  next
    assume "set t \<inter> set url_specials = {} \<and>
      (\<exists>rest. s = t @ rest \<and> (rest = [] \<or> hd rest \<in> set url_specials))"
    then obtain rest where "set t \<inter> set url_specials = {}" "s = t @ rest" "rest = [] \<or> hd rest \<in> set url_specials"
      by blast
    moreover from this have "takeWhile ?P (t @ rest) = t @ takeWhile ?P rest"
      by (intro takeWhile_append2) auto
    ultimately show "takeWhile ?P s = t" by (cases rest) auto
  qed
  have pre: "strncmp0 valid_prefix_str url (length valid_prefix_str) \<longleftrightarrow> (\<exists>s. url = ''/v1/data/'' @ s)"
    using strncmp0_prefix [of valid_prefix_str url] by (simp add: valid_prefix_str_def)
  show ?thesis
  proof (cases "\<exists>s. url = ''/v1/data/'' @ s")
    case True
    then obtain s where url: "url = ''/v1/data/'' @ s" by blast
    have "extract_url_topic url = (if takeWhile ?P s = [] then None else Some (takeWhile ?P s))"
      using pre True url
      by (simp add: extract_url_topic_def Let_def valid_prefix_str_def strcspn_def takeWhile_eq_take [symmetric])
    then have "extract_url_topic url = Some t \<longleftrightarrow> t \<noteq> [] \<and> takeWhile ?P s = t" by auto
    also have "\<dots> \<longleftrightarrow> t \<noteq> [] \<and> set t \<inter> set url_specials = {} \<and>
        (\<exists>rest. s = t @ rest \<and> (rest = [] \<or> hd rest \<in> set url_specials))" unfolding tw ..
    finally show ?thesis using url by simp
  next
    case False
    then have "extract_url_topic url = None" using pre by (simp add: extract_url_topic_def)
    with False show ?thesis by auto
  qed
qed

text \<open>The session size is rounded up to a multiple of the alignment, by less than the alignment.\<close>

lemma size_align_to_correct:
  assumes "0 < unat alignment" and "unat sz + unat alignment < 2 ^ 64"
  shows "unat alignment dvd unat (size_align_to sz alignment) \<and> unat sz \<le> unat (size_align_to sz alignment) \<and>
    unat (size_align_to sz alignment) < unat sz + unat alignment"
proof (cases "sz mod alignment = 0")
  case True
  then have "unat sz mod unat alignment = 0" by (metis unat_mod unsigned_0)
  with True assms show ?thesis by (simp add: size_align_to_def mod_eq_0_iff_dvd)
next
  case False
  let ?q = "unat sz div unat alignment" and ?r = "unat sz mod unat alignment"
  have nz: "?r \<noteq> 0" using False by (metis unat_mod unsigned_eq_0_iff)
  have eq: "?q * unat alignment + ?r = unat sz" by simp
  have lt: "?r < unat alignment" using assms(1) by simp
  have big: "(?q + 1) * unat alignment < 2 ^ 64" 
  proof -
    have "?q * unat alignment \<le> unat sz" using eq by linarith
    then have "(?q + 1) * unat alignment \<le> unat sz + unat alignment" by simp
    with assms(2) show ?thesis by linarith
  qed
  have "(?q + 1) * 1 \<le> (?q + 1) * unat alignment" using assms(1) by (intro mult_le_mono2) simp
  from le_less_trans [OF this big] have "?q + 1 < 2 ^ 64" by simp
  then have "unat (sz div alignment + 1) = ?q + 1"
    using unat_plus_of_nat [of "sz div alignment" 1] by (simp add: unat_div)
  then have "unat ((sz div alignment + 1) * alignment) = (?q + 1) * unat alignment"
    using big by (simp add: unat_word_ariths)
  with False have al: "unat (size_align_to sz alignment) = (?q + 1) * unat alignment" by (simp add: size_align_to_def)
  then have "unat alignment dvd unat (size_align_to sz alignment)" by simp
  moreover have "(?q + 1) * unat alignment = ?q * unat alignment + unat alignment" by simp
  ultimately show ?thesis using al eq nz lt by linarith
qed

section \<open>Sessions hold one reference of their topic\<close>

text \<open>What opening a session does: the parser's own faults apart, one reference of the right topic or none.\<close>

definition session_opened ::
  "('h, 'l) tommy \<Rightarrow> rdkafka_topics \<Rightarrow> ('h \<Rightarrow> (addr \<times> tommy_hash_t) set) \<Rightarrow> (addr \<Rightarrow> nat)
   \<Rightarrow> (bool \<Rightarrow> addr \<Rightarrow> 's option c_result) \<Rightarrow> keyval_list \<Rightarrow> string \<Rightarrow> ('h, 'l, 's) new_session_result \<Rightarrow> bool" where
  "session_opened T R E ext new_parser vars url res \<longleftrightarrow> (\<exists>db'. ns_db res = \<lparr>zz_topics_db = Some db'\<rparr> \<and>
    (ns_rc res = 0 \<and>
       (\<exists>p topic s. extract_url_topic url = Some topic \<and>
          tname R (ns_heap res) p = Some (make_uuid_topic (valueof vars ''X-Consumer-ID'' strcasecmp0) topic) \<and>
          new_parser (is_xml_content_type (valueof vars ''Content-type'' strcasecmp0)) p = Inr (Some s) \<and>
          ns_session res = Some s \<and>
          db_inv T R E (ns_heap res) db' (db_topics E db') (ext(p := ext p + 1)))
     \<or> ns_rc res = -1 \<and> ns_session res = None \<and> db_inv T R E (ns_heap res) db' (db_topics E db') ext))"

lemma new_zz_session_cases:
  assumes "tommy_ok T E" and "rdkafka_topics_ok R"
    and "db_inv T R E H db (db_topics E db) ext" and "\<And>p. ext p + 3 < 2 ^ 64"
    and "fresh_addr H a"
    and "valueof vars ''D-HTTP-URI'' strcmp0 = Some url"
  shows "(\<exists>e xml p. new_parser xml p = Inl e \<and>
      new_zz_session T R a new_parser H \<lparr>zz_topics_db = Some db\<rparr> vars now = Inl e) \<or>
    (\<exists>res. new_zz_session T R a new_parser H \<lparr>zz_topics_db = Some db\<rparr> vars now = Inr res \<and>
      session_opened T R E ext new_parser vars url res)"
proof (cases "extract_url_topic url")
  case None
  with assms(3,6) show ?thesis by (simp add: new_zz_session_def session_opened_def)
next
  case (Some topic)
  let ?name = "make_uuid_topic (valueof vars ''X-Consumer-ID'' strcasecmp0) topic"
  let ?xml = "is_xml_content_type (valueof vars ''Content-type'' strcasecmp0)"
  have get: "zz_http2k_database_get_topic T R a H \<lparr>zz_topics_db = Some db\<rparr> ?name now =
      c_bind (topics_db_get_topic T R a H db ?name now) (\<lambda>(p, H1, d1). Inr (p, H1, \<lparr>zz_topics_db = Some d1\<rparr>))"
    by (simp add: zz_http2k_database_get_topic_def)
  consider (found) p H' db' where "topics_db_get_topic T R a H db ?name now = Inr (Some p, H', db')"
      "tname R H' p = Some ?name" "db_inv T R E H' db' (db_topics E db') (ext(p := ext p + 1))"
    | (none) "topics_db_get_topic T R a H db ?name now = Inr (None, H, db)"
    using topics_db_get_topic_keeps [OF assms(1-5), of ?name now] by blast
  then show ?thesis
  proof cases
    case (found p H' db')
    consider (fault) e where "new_parser ?xml p = Inl e" | (failed) "new_parser ?xml p = Inr None"
      | (opened) s where "new_parser ?xml p = Inr (Some s)" by (metis old.sum.exhaust option.exhaust)
    then show ?thesis
    proof cases
      case fault
      with Some found assms(6) get show ?thesis by (auto simp: new_zz_session_def)
    next
      case failed
      have "0 < (ext(p := ext p + 1)) p" by simp
      moreover have "(ext(p := ext p + 1))(p := (ext(p := ext p + 1)) p - 1) = ext" by (simp add: fun_eq_iff)
      ultimately obtain H2 where "topic_decref H' p = Inr H2" "db_inv T R E H2 db' (db_topics E db') ext"
        using db_inv_decref [OF assms(1) found(3)] by metis
      then show ?thesis using found(1) Some failed assms(6) get by (simp add: new_zz_session_def session_opened_def)
    next
      case opened
      then show ?thesis using found Some assms(6) get by (auto simp: new_zz_session_def session_opened_def)
    qed
  next
    case none
    then show ?thesis using Some assms(3,6) get by (simp add: new_zz_session_def session_opened_def)
  qed
qed

lemma free_zz_session_decref:
  assumes "tommy_ok T E" and "db_inv T R E H db (db_topics E db) ext"
    and "0 < ext (zs_topic_handler sess)" and "\<And>s. zs_topic_handler (free_session s) = zs_topic_handler s"
  shows "\<exists>H'. free_zz_session free_session H sess = Inr H' \<and>
    db_inv T R E H' db (db_topics E db) (ext(zs_topic_handler sess := ext (zs_topic_handler sess) - 1))"
proof -
  have "zs_topic_handler (free_session (sess\<lparr>zs_http_response := string_done (zs_http_response sess)\<rparr>)) =
      zs_topic_handler sess" by (simp add: assms(4))
  with db_inv_decref [OF assms(1-3)] show ?thesis by (auto simp: free_zz_session_def Let_def)
qed

text \<open>C22: opening a session for a request with a valid URL gives a session whose topic has the name made of
  the consumer and the URL's topic, and the session owns one reference of it; when the session cannot be
  opened no reference is left behind.\<close>

theorem new_zz_session_refs:
  assumes "tommy_ok T E" and "rdkafka_topics_ok R"
    and "db_inv T R E H db (db_topics E db) ext" and "\<And>p. ext p + 3 < 2 ^ 64"
    and "fresh_addr H a"
    and "valueof vars ''D-HTTP-URI'' strcmp0 = Some url" and "\<And>xml p. new_parser xml p = Inr (np xml p)"
  shows "\<exists>res db'. new_zz_session T R a new_parser H \<lparr>zz_topics_db = Some db\<rparr> vars now = Inr res \<and>
    ns_db res = \<lparr>zz_topics_db = Some db'\<rparr> \<and>
    (ns_rc res = 0 \<and>
       (\<exists>p topic. extract_url_topic url = Some topic \<and>
          tname R (ns_heap res) p = Some (make_uuid_topic (valueof vars ''X-Consumer-ID'' strcasecmp0) topic) \<and>
          ns_session res = np (is_xml_content_type (valueof vars ''Content-type'' strcasecmp0)) p \<and>
          ns_session res \<noteq> None \<and>
          db_inv T R E (ns_heap res) db' (db_topics E db') (ext(p := ext p + 1)))
     \<or> ns_rc res = -1 \<and> ns_session res = None \<and> db_inv T R E (ns_heap res) db' (db_topics E db') ext)"
  using new_zz_session_cases [OF assms(1-6), of new_parser now] assms(7) by (fastforce simp: session_opened_def)

text \<open>Closing a session releases exactly the reference it owns.\<close>

lemma free_zz_session_refs:
  assumes "tommy_ok T E" and "db_inv T R E H db (db_topics E db) ext"
    and "0 < ext (zs_topic_handler sess)" and "\<And>s. zs_topic_handler (free_session s) = zs_topic_handler s"
  shows "\<exists>H'. free_zz_session free_session H sess = Inr H' \<and>
    db_inv T R E H' db (db_topics E db) (ext(zs_topic_handler sess := ext (zs_topic_handler sess) - 1))"
  by (rule free_zz_session_decref [OF assms])

section \<open>Decoding a chunk\<close>

text \<open>A request whose method is not POST is refused before anything is parsed: the session is as it
  was and nothing is produced.\<close>

lemma zz_decode_method_not_allowed:
  assumes "valueof props ''D-HTTP-method'' strcmp0 = Some meth" and "meth \<noteq> ''POST''"
  shows "zz_decode process_buffer error_message produce_batch now ka buffer props session =
    Some (Inr \<lparr>zd_rc = DECODER_CALLBACK_HTTP_METHOD_NOT_ALLOWED, zd_response = None, zd_session = session,
               zd_split = [], zd_msgs = [], zd_batch = None\<rparr>)"
  using assms by (simp add: zz_decode_def strcmp0_def)

lemma zz_produce_empty:
  "kma_ok (zs_kafka_msgs session) \<Longrightarrow> kma_msgs (zs_kafka_msgs session) = [] \<Longrightarrow>
   zz_produce pb now ka session = Inr (0, 0, session\<lparr>zs_kafka_msgs := KAFKA_MESSAGE_ARRAY_INITIALIZER\<rparr>, None)"
  using kafka_message_array_size_ok [of "zs_kafka_msgs session"] by (simp add: zz_produce_def)

lemma zz_produce_slots:
  assumes "zz_produce produce_batch now ka s = Inr (n, m, s', batch)"
  shows "produce_state_ok (zs_last_warning s') \<longleftrightarrow> produce_state_ok (zs_last_warning s)"
  using assms produce_slots
  by (fastforce simp: zz_produce_def c_bind_Inr_iff produce_state_ok_def warning_slots_def split: if_splits option.splits)
lemma zz_produce_batch:
  assumes ok: "kma_ok (zs_kafka_msgs session)" and k: "kma_internal (zs_kafka_msgs session) = Some k"
    and pb: "payload_buffer k \<noteq> 0" and doc: "produce_batch_ok produce_batch"
    and run: "produce_batch (owned_by ka (msgs k)) 0 = (rc, ms')"
    and safe: "warnings_safe (Some (zs_last_warning session)) ms'"
  shows "\<exists>session'. zz_produce produce_batch now ka session = Inr (karray_count k, karray_count k, session',
      Some (if rc = 0 then Freed else Live (k\<lparr>msgs := ms', karray_count := word_of_int rc\<rparr>))) \<and>
    (\<exists>w. session' = session\<lparr>zs_kafka_msgs := KAFKA_MESSAGE_ARRAY_INITIALIZER, zs_last_warning := w\<rparr>)"
proof -
  note kk = kma_ok_SomeD [OF ok k]
  have n: "kafka_message_array_size (zs_kafka_msgs session) = Inr (karray_count k)"
    using k kk(4) by (simp add: kafka_message_array_size_def)
  note rc = produce_batch_okD(5) [OF doc run]
  obtain st' log where "kafka_message_array_produce produce_batch now ka (zs_kafka_msgs session) 0
        (Some (zs_last_warning session)) =
      Inr \<lparr>pres_msgs_ok = of_nat (length (msgs k)), pres_array = KAFKA_MESSAGE_ARRAY_INITIALIZER,
        pres_karray = Some (with_refs (k\<lparr>msgs := ms'\<rparr>)
           (length (filter (\<lambda>m. rkm_err m = RD_KAFKA_RESP_ERR_NO_ERROR) ms'))),
        pres_state = st', pres_log = log\<rparr>"
    using produce_stolen [OF ok k pb doc run safe, of now] by blast
  then show ?thesis using n kk(3,5) rc by (auto simp: zz_produce_def with_refs_def)
qed

text \<open>With a librdkafka that behaves as documented, a full queue is never reported: a call answers that
  the buffer is full only if the parser did, because the producing counts refused messages as sent.\<close>

lemma zz_decode_never_buffer_full:
  assumes "valueof props ''D-HTTP-method'' strcmp0 = Some ''POST''"
    and "process_buffer buffer (session\<lparr>zs_kafka_msgs := kafka_msg_array_init (zs_kafka_msgs session)\<rparr>) =
      r_return (DECODER_CALLBACK_OK, session1, split)"
    and "kma_ok (zs_kafka_msgs session1)"
    and "kma_msgs (zs_kafka_msgs session1) \<noteq> [] \<Longrightarrow>
      map_option payload_buffer (kma_internal (zs_kafka_msgs session1)) = Some a" and "a \<noteq> 0"
    and "produce_batch_ok produce_batch"
    and "\<And>ms. warnings_safe (Some (zs_last_warning session1)) (snd (produce_batch ms 0))"
  shows "\<exists>res. zz_decode process_buffer error_message produce_batch now ka buffer props session = Some (Inr res) \<and>
    zd_rc res = DECODER_CALLBACK_OK \<and> zd_response res = None"
proof -
  have "\<exists>n session2 batch. zz_produce produce_batch now ka session1 = Inr (n, n, session2, batch)"
  proof (cases "kma_internal (zs_kafka_msgs session1)")
    case None
    then have "kma_msgs (zs_kafka_msgs session1) = []" by (simp add: kma_msgs_def)
    from zz_produce_empty [OF assms(3) this] show ?thesis by blast
  next
    case (Some k)
    then have "kma_msgs (zs_kafka_msgs session1) \<noteq> []"
      using kma_ok_SomeD(1) [OF assms(3) Some] by (simp add: kma_msgs_def)
    then have pb: "payload_buffer k \<noteq> 0" using assms(4,5) Some by simp
    obtain rc ms' where run: "produce_batch (owned_by ka (msgs k)) 0 = (rc, ms')" by fastforce
    have "warnings_safe (Some (zs_last_warning session1)) ms'" using assms(7) [of "owned_by ka (msgs k)"] run by simp
    from zz_produce_batch [OF assms(3) Some pb assms(6) run this] show ?thesis by blast
  qed
  then obtain n session2 batch where "zz_produce produce_batch now ka session1 = Inr (n, n, session2, batch)" by blast
  with assms(1,2) show ?thesis by (simp add: zz_decode_def strcmp0_def zz_respond_def run_r_def)
qed

text \<open>Producing what a chunk completed: the batch, if there is one, and the session then.\<close>

lemma zz_produce_messages:
  assumes ok: "kma_ok (zs_kafka_msgs s1)" and "kma_msgs (zs_kafka_msgs s1) \<noteq> [] \<longrightarrow>
      map_option payload_buffer (kma_internal (zs_kafka_msgs s1)) = Some a"
    and "a \<noteq> 0" and "produce_batch_ok produce_batch" and "\<And>ms. warnings_safe (Some (zs_last_warning s1)) (snd (produce_batch ms 0))"
  shows "\<exists>n w. zz_produce produce_batch now ka s1 = Inr (n, n, s1\<lparr>zs_kafka_msgs := KAFKA_MESSAGE_ARRAY_INITIALIZER, zs_last_warning := w\<rparr>,
      if kma_msgs (zs_kafka_msgs s1) = [] then None else Some
        (case produce_batch (owned_by ka (kma_msgs (zs_kafka_msgs s1))) 0 of (n, ms') \<Rightarrow>
           if n = 0 then Freed else Live \<lparr>payload_buffer = a, karray_count = word_of_int n, msgs = ms'\<rparr>)) \<and> produce_state_ok w"
proof (cases "kma_internal (zs_kafka_msgs s1)")
  case None
  then have empty: "kma_msgs (zs_kafka_msgs s1) = []" by (simp add: kma_msgs_def)
  have "produce_state_ok (zs_last_warning s1)" using assms(5) by (simp add: warnings_safe_def)
  with zz_produce_empty [OF ok empty] empty show ?thesis by (intro exI [of _ 0] exI [of _ "zs_last_warning s1"]) simp
next
  case (Some k)
  then have ms: "kma_msgs (zs_kafka_msgs s1) = msgs k" by (simp add: kma_msgs_def)
  have ne: "msgs k \<noteq> []" using kma_ok_SomeD(1) [OF ok Some] .
  then have pb: "payload_buffer k = a" using assms(2) ms Some by simp
  obtain rc ms' where run: "produce_batch (owned_by ka (msgs k)) 0 = (rc, ms')" by fastforce
  have "warnings_safe (Some (zs_last_warning s1)) ms'" using assms(5) [of "owned_by ka (msgs k)"] run by simp
  with pb assms(3) obtain w where s2: "zz_produce produce_batch now ka s1 = Inr (karray_count k, karray_count k,
      s1\<lparr>zs_kafka_msgs := KAFKA_MESSAGE_ARRAY_INITIALIZER, zs_last_warning := w\<rparr>,
      Some (if rc = 0 then Freed else Live (k\<lparr>msgs := ms', karray_count := word_of_int rc\<rparr>)))"
    using zz_produce_batch [OF ok Some _ assms(4) run] by metis
  have "k\<lparr>msgs := ms', karray_count := word_of_int rc\<rparr> = \<lparr>payload_buffer = a, karray_count = word_of_int rc, msgs = ms'\<rparr>"
    using pb by (cases k) simp
  moreover have "produce_state_ok w" using zz_produce_slots [OF s2] assms(5) by (simp add: warnings_safe_def)
  ultimately show ?thesis using s2 ms ne run by (intro exI [of _ "karray_count k"] exI [of _ w]) simp
qed

text \<open>A chunk of a JSON request, with what the next chunk and the end of the session need.\<close>

lemma decode_json_chunk:
  assumes "valueof props ''D-HTTP-method'' strcmp0 = Some ''POST''"
    and "sess_rel P st sess" and "chunk_fits P a c" and "c \<noteq> []"
    and "yp (js_yajl_handler sess) c = (evs, Yajl_ok, h')" and "positions_ok 0 (length c) evs"
    and "depth_ok (ob_depth st) evs" and "\<And>k. al_ok al k" and "produce_batch_ok produce_batch"
    and "\<And>ms. warnings_safe (Some (zs_last_warning sess)) (snd (produce_batch ms 0))"
  shows "\<exists>res ms. zz_decode (json_process_buffer al yp (Some a)) (error_message_json al) produce_batch now ka c props sess =
        Some (Inr res) \<and>
      zd_rc res = DECODER_CALLBACK_OK \<and> zd_response res = None \<and>
      sess_rel (P @ c) (foldl obj_step st (map (shift_event (length P)) evs)) (zd_session res) \<and>
      map (slice (P @ c)) (drop (length (ob_done st))
          (ob_done (foldl obj_step st (map (shift_event (length P)) evs)))) =
        zd_split res @ map (msg_bytes a c) ms \<and> zd_msgs res = ms \<and>
      js_yajl_handler (zd_session res) = h' \<and> zs_topic_handler (zd_session res) = zs_topic_handler sess \<and>
      produce_state_ok (zs_last_warning (zd_session res)) \<and>
      zd_batch res = (if ms = [] then None else Some
        (case produce_batch (owned_by ka ms) 0 of (n, ms') \<Rightarrow>
           if n = 0 then Freed
           else Live \<lparr>payload_buffer = a, karray_count = word_of_int n, msgs = ms'\<rparr>))"
proof -
  let ?st' = "foldl obj_step st (map (shift_event (length P)) evs)"
  obtain s1 out where s1: "process_json_buffer al yp (Some a) c
      (sess\<lparr>zs_kafka_msgs := kafka_msg_array_init (zs_kafka_msgs sess)\<rparr>) = Inr (DECODER_CALLBACK_OK, s1, out)"
    "sess_rel (P @ c) ?st' s1"
    "map (slice (P @ c)) (drop (length (ob_done st)) (ob_done ?st')) =
      out @ map (msg_bytes a c) (kma_msgs (zs_kafka_msgs s1))"
    and ok: "kma_ok (zs_kafka_msgs s1)" and buf: "kma_msgs (zs_kafka_msgs s1) \<noteq> [] \<longrightarrow>
        map_option payload_buffer (kma_internal (zs_kafka_msgs s1)) = Some a"
    and warn: "zs_last_warning s1 = zs_last_warning sess"
    and keep: "js_yajl_handler s1 = h'" "zs_topic_handler s1 = zs_topic_handler sess"
    using process_json_chunk [where yp = yp, OF assms(2-8) refl] by blast
  have "\<And>ms. warnings_safe (Some (zs_last_warning s1)) (snd (produce_batch ms 0))" using assms(10) warn by simp
  from zz_produce_messages [OF ok buf chunk_fitsD(2) [OF assms(3)] assms(9) this, of now ka] obtain n w batch
    where prod: "zz_produce produce_batch now ka s1 = Inr (n, n, s1\<lparr>zs_kafka_msgs := KAFKA_MESSAGE_ARRAY_INITIALIZER, zs_last_warning := w\<rparr>, batch)"
      and batch: "batch = (if kma_msgs (zs_kafka_msgs s1) = [] then None else Some
        (case produce_batch (owned_by ka (kma_msgs (zs_kafka_msgs s1))) 0 of (n, ms') \<Rightarrow>
           if n = 0 then Freed else Live \<lparr>payload_buffer = a, karray_count = word_of_int n, msgs = ms'\<rparr>))"
      and state: "produce_state_ok w" by blast
  let ?s2 = "s1\<lparr>zs_kafka_msgs := KAFKA_MESSAGE_ARRAY_INITIALIZER, zs_last_warning := w\<rparr>"
  let ?res = "\<lparr>zd_rc = DECODER_CALLBACK_OK, zd_response = None, zd_session = ?s2, zd_split = out, zd_msgs = kma_msgs (zs_kafka_msgs s1), zd_batch = batch\<rparr>"
  have "zz_decode (json_process_buffer al yp (Some a)) (error_message_json al) produce_batch now ka c props sess = Some (Inr ?res)"
    using assms(1) s1(1) prod by (simp add: zz_decode_def strcmp0_def zz_respond_def run_r_def json_process_buffer_def)
  moreover have "sess_rel (P @ c) ?st' ?s2" using s1(2) by (simp add: sess_rel_def)
  ultimately show ?thesis using s1(3) keep state batch by (intro exI [of _ ?res] exI [of _ "kma_msgs (zs_kafka_msgs s1)"]) simp
qed

text \<open>C5: decoding one chunk of a POST request as JSON answers OK, leaves the session ready for the next
  chunk, and hands librdkafka exactly the objects that the chunk completes: the one begun in an earlier
  chunk on its own, and the others as the batch, which keeps one reference per accepted message and owns
  the chunk's copy.\<close>

theorem zz_decode_json_chunk:
  assumes "valueof props ''D-HTTP-method'' strcmp0 = Some ''POST''"
    and "sess_rel P st sess" and "chunk_fits P a c" and "c \<noteq> []"
    and "yp (js_yajl_handler sess) c = (evs, Yajl_ok, h')" and "positions_ok 0 (length c) evs"
    and "depth_ok (ob_depth st) evs" and "\<And>k. al_ok al k" and "produce_batch_ok produce_batch"
    and "\<And>ms. warnings_safe (Some (zs_last_warning sess)) (snd (produce_batch ms 0))"
  shows "\<exists>res ms. zz_decode (json_process_buffer al yp (Some a)) (error_message_json al) produce_batch now ka c props sess =
        Some (Inr res) \<and>
      zd_rc res = DECODER_CALLBACK_OK \<and>
      sess_rel (P @ c) (foldl obj_step st (map (shift_event (length P)) evs)) (zd_session res) \<and>
      map (slice (P @ c)) (drop (length (ob_done st))
          (ob_done (foldl obj_step st (map (shift_event (length P)) evs)))) =
        zd_split res @ map (msg_bytes a c) ms \<and> zd_msgs res = ms \<and>
      zd_batch res = (if ms = [] then None else Some
        (case produce_batch (owned_by ka ms) 0 of (n, ms') \<Rightarrow>
           if n = 0 then Freed
           else Live \<lparr>payload_buffer = a, karray_count = word_of_int n, msgs = ms'\<rparr>))"
  using decode_json_chunk [where yp = yp and al = al and produce_batch = produce_batch, OF assms, of now ka] by blast

section \<open>Witnesses\<close>

abbreviation post_props :: keyval_list where
  "post_props \<equiv> [\<lparr>pair_key = ''D-HTTP-method'', pair_value = Some ''POST''\<rparr>,
     \<lparr>pair_key = ''D-HTTP-URI'', pair_value = Some ''/v1/data/t''\<rparr>]"

lemma post_props_lookup:
  "valueof post_props ''D-HTTP-method'' strcmp0 = Some ''POST''"
  "valueof post_props ''D-HTTP-URI'' strcmp0 = Some ''/v1/data/t''"
  by (simp_all add: strcmp0_def)

lemma accept_batch_warnings: "warnings_safe (Some (zs_last_warning test_json_session)) (snd (accept_batch ms 0))"
  by (simp add: warnings_safe_def accept_batch_def produce_state_ok_def)

theorem new_zz_session_refs_witness:
  "\<exists>res db'. new_zz_session alist_tommy one_topic (Some 5) (\<lambda>xml p. Inr (Some (xml, p))) (\<lambda>_. None)
      \<lparr>zz_topics_db = Some empty_db\<rparr> post_props 100 = Inr res \<and> ns_db res = \<lparr>zz_topics_db = Some db'\<rparr>"
  using new_zz_session_refs [OF alist_tommy_ok one_topic_ok empty_db_inv, of "Some 5" post_props
      "''/v1/data/t''" "\<lambda>xml p. Inr (Some (xml, p))" "\<lambda>xml p. Some (xml, p)" 100] post_props_lookup(2)
  by (auto simp: fresh_addr_def)

theorem zz_decode_json_chunk_witness:
  "\<exists>res ms. zz_decode (json_process_buffer total_allocator brace_parser (Some 4096)) (error_message_json total_allocator)
      accept_batch (\<lambda>_. 0) 77 ''{a}'' post_props test_json_session = Some (Inr res) \<and>
    zd_rc res = DECODER_CALLBACK_OK \<and> [''{a}''] = zd_split res @ map (msg_bytes 4096 ''{a}'') ms"
proof -
  have rel: "sess_rel [] \<lparr>ob_depth = 0, ob_start = 0, ob_done = []\<rparr> test_json_session"
    by (simp add: sess_rel_def)
  have fits: "chunk_fits [] 4096 ''{a}''" by (simp add: chunk_fits_def)
  have yp: "brace_parser (js_yajl_handler test_json_session) ''{a}'' = ([Start_map 1, End_map 3], Yajl_ok, ())"
    by (simp add: brace_parser_def)
  from zz_decode_json_chunk [where yp = brace_parser and al = total_allocator
      and produce_batch = accept_batch and ka = 77 and now = "\<lambda>_. 0",
      OF post_props_lookup(1) rel fits _ yp] refuse_batch_ok(2) accept_batch_warnings
  show ?thesis by (auto simp: slice_def)
qed

end
