(* ===== verification/Xml_Parser.thy ===== *)
theory Xml_Parser
  imports Decoder_Api
begin

text \<open>
  The XML parser of the HTTP decoder (\<^verbatim>\<open>src/decoder/zz_http2k/zz_http2k_parser_xml.c\<close>): expat calls
  handlers for the elements and the text of a document, and the handlers let yajl generate one JSON
  object per document, which becomes one Kafka message.

  expat and the generator are parameters. A generator call gives its status and the pieces of text it
  prints through the print callback; parsing a buffer gives the callbacks in order, each with what
  expat answers about the position at that moment. A handler that calls XML\_StopParser ends the
  delivery of callbacks. Error messages are printed with \<open>string_printf\<close>, so every operation that may
  report an error is of type \<open>c_run\<close>.
\<close>

section \<open>Parameters\<close>

datatype yajl_gen_status =
    yajl_gen_status_ok | yajl_gen_keys_must_be_strings | yajl_max_depth_exceeded | yajl_gen_in_error_state
  | yajl_gen_generation_complete | yajl_gen_invalid_number | yajl_gen_no_buf | yajl_gen_invalid_string
  | yajl_gen_other_status int

datatype gen_op = Gen_string bytes | Gen_map_open | Gen_map_close | Gen_array_open | Gen_array_close

datatype xml_error =
    XML_ERROR_NONE | XML_ERROR_NO_MEMORY | XML_ERROR_SYNTAX | XML_ERROR_NO_ELEMENTS | XML_ERROR_INVALID_TOKEN
  | XML_ERROR_UNCLOSED_TOKEN | XML_ERROR_PARTIAL_CHAR | XML_ERROR_TAG_MISMATCH | XML_ERROR_DUPLICATE_ATTRIBUTE
  | XML_ERROR_JUNK_AFTER_DOC_ELEMENT | XML_ERROR_PARAM_ENTITY_REF | XML_ERROR_UNDEFINED_ENTITY
  | XML_ERROR_RECURSIVE_ENTITY_REF | XML_ERROR_ASYNC_ENTITY | XML_ERROR_BAD_CHAR_REF
  | XML_ERROR_BINARY_ENTITY_REF | XML_ERROR_ATTRIBUTE_EXTERNAL_ENTITY_REF | XML_ERROR_MISPLACED_XML_PI
  | XML_ERROR_UNKNOWN_ENCODING | XML_ERROR_INCORRECT_ENCODING | XML_ERROR_UNCLOSED_CDATA_SECTION
  | XML_ERROR_EXTERNAL_ENTITY_HANDLING | XML_ERROR_NOT_STANDALONE | XML_ERROR_UNEXPECTED_STATE
  | XML_ERROR_ENTITY_DECLARED_IN_PE | XML_ERROR_FEATURE_REQUIRES_XML_DTD
  | XML_ERROR_CANT_CHANGE_FEATURE_ONCE_PARSING | XML_ERROR_UNBOUND_PREFIX | XML_ERROR_UNDECLARING_PREFIX
  | XML_ERROR_INCOMPLETE_PE | XML_ERROR_XML_DECL | XML_ERROR_TEXT_DECL | XML_ERROR_PUBLICID
  | XML_ERROR_SUSPENDED | XML_ERROR_NOT_SUSPENDED | XML_ERROR_ABORTED | XML_ERROR_FINISHED
  | XML_ERROR_SUSPEND_PE | XML_ERROR_RESERVED_PREFIX_XML | XML_ERROR_RESERVED_PREFIX_XMLNS
  | XML_ERROR_RESERVED_NAMESPACE_URI | XML_ERROR_INVALID_ARGUMENT | XML_ERROR_other int

datatype xml_status = XML_STATUS_ERROR | XML_STATUS_OK | XML_STATUS_SUSPENDED

text \<open>What expat answers about the current position.\<close>

record xml_where =
  xw_error :: xml_error
  xw_line :: nat
  xw_column :: nat
  xw_byte :: int

datatype xml_event =
    Start_element string "(string \<times> string) list"
  | End_element string
  | Character_data bytes

text \<open>A callback, the position during it, and the byte index expat reports when it stops there.\<close>

record xml_callback =
  xc_event :: xml_event
  xc_where :: xml_where
  xc_stop_byte :: int

record 'x xml_feed =
  xf_callbacks :: "xml_callback list"
  xf_status :: xml_status
  xf_where :: xml_where
  xf_parser :: 'x

record ('x, 'g) xml_lib =
  xml_parse :: "'x \<Rightarrow> bytes \<Rightarrow> 'x xml_feed"
  xml_parser_reset :: "'x \<Rightarrow> 'x"
  xml_error_string :: "xml_error \<Rightarrow> string"
  yajl_gen_call :: "gen_op \<Rightarrow> 'g \<Rightarrow> yajl_gen_status \<times> bytes list \<times> 'g"
  yajl_gen_reset :: "'g \<Rightarrow> 'g"
  yajl_temp_string :: "bytes \<Rightarrow> (yajl_gen_status \<times> bytes) option"

section \<open>The bit vector\<close>

definition CHAR_BIT :: nat where
  "CHAR_BIT = 8"

definition STACK_BYTES :: nat where
  "STACK_BYTES = 2 * 128 div CHAR_BIT"

definition bit_test :: "8 word list \<Rightarrow> nat \<Rightarrow> bool c_result" where
  "bit_test bit_vector bit_position =
     (if length bit_vector \<le> bit_position div CHAR_BIT then Inl OutOfBounds
      else Inr ((bit_vector ! (bit_position div CHAR_BIT)) AND push_bit (bit_position mod CHAR_BIT) 1 \<noteq> 0))"

definition bit_set :: "8 word list \<Rightarrow> nat \<Rightarrow> 8 word list c_result" where
  "bit_set bit_vector bit_position =
     (if length bit_vector \<le> bit_position div CHAR_BIT then Inl OutOfBounds
      else Inr (bit_vector[bit_position div CHAR_BIT :=
        (bit_vector ! (bit_position div CHAR_BIT)) OR push_bit (bit_position mod CHAR_BIT) 1]))"

definition bit_clear :: "8 word list \<Rightarrow> nat \<Rightarrow> 8 word list c_result" where
  "bit_clear bit_vector bit_position =
     (if length bit_vector \<le> bit_position div CHAR_BIT then Inl OutOfBounds
      else Inr (bit_vector[bit_position div CHAR_BIT :=
        (bit_vector ! (bit_position div CHAR_BIT)) AND NOT (push_bit (bit_position mod CHAR_BIT) 1)]))"

definition text_printed_bit_from_frame :: "size_t \<Rightarrow> nat" where
  "text_printed_bit_from_frame stack_position = unat (stack_position * 2)"

definition set_current_stack_text_printed :: "8 word list \<Rightarrow> size_t \<Rightarrow> 8 word list c_result" where
  "set_current_stack_text_printed bv stack_position = bit_set bv (text_printed_bit_from_frame stack_position)"

definition clear_current_stack_text_printed :: "8 word list \<Rightarrow> size_t \<Rightarrow> 8 word list c_result" where
  "clear_current_stack_text_printed bv stack_position = bit_clear bv (text_printed_bit_from_frame stack_position)"

definition test_current_stack_text_printed :: "8 word list \<Rightarrow> size_t \<Rightarrow> bool c_result" where
  "test_current_stack_text_printed bv stack_position = bit_test bv (text_printed_bit_from_frame stack_position)"

definition children_printed_bit_from_frame :: "size_t \<Rightarrow> nat" where
  "children_printed_bit_from_frame stack_position = unat (stack_position * 2 + 1)"

definition set_current_stack_children_printed :: "8 word list \<Rightarrow> size_t \<Rightarrow> 8 word list c_result" where
  "set_current_stack_children_printed bv stack_position = bit_set bv (children_printed_bit_from_frame stack_position)"

definition clear_current_stack_children_printed :: "8 word list \<Rightarrow> size_t \<Rightarrow> 8 word list c_result" where
  "clear_current_stack_children_printed bv stack_position = bit_clear bv (children_printed_bit_from_frame stack_position)"

definition test_current_stack_children_printed :: "8 word list \<Rightarrow> size_t \<Rightarrow> bool c_result" where
  "test_current_stack_children_printed bv stack_position = bit_test bv (children_printed_bit_from_frame stack_position)"

section \<open>Error tables\<close>

record code_str =
  cs_err :: string
  cs_err_code :: decoder_callback_err

definition xml_invalid_request_errors :: "xml_error list" where
  "xml_invalid_request_errors =
     [XML_ERROR_SYNTAX, XML_ERROR_NO_ELEMENTS, XML_ERROR_INVALID_TOKEN, XML_ERROR_UNCLOSED_TOKEN,
      XML_ERROR_PARTIAL_CHAR, XML_ERROR_TAG_MISMATCH, XML_ERROR_DUPLICATE_ATTRIBUTE,
      XML_ERROR_JUNK_AFTER_DOC_ELEMENT, XML_ERROR_PARAM_ENTITY_REF, XML_ERROR_UNDEFINED_ENTITY,
      XML_ERROR_RECURSIVE_ENTITY_REF, XML_ERROR_ASYNC_ENTITY, XML_ERROR_BAD_CHAR_REF,
      XML_ERROR_BINARY_ENTITY_REF, XML_ERROR_ATTRIBUTE_EXTERNAL_ENTITY_REF, XML_ERROR_MISPLACED_XML_PI,
      XML_ERROR_UNKNOWN_ENCODING, XML_ERROR_INCORRECT_ENCODING, XML_ERROR_UNCLOSED_CDATA_SECTION,
      XML_ERROR_EXTERNAL_ENTITY_HANDLING, XML_ERROR_NOT_STANDALONE, XML_ERROR_UNEXPECTED_STATE,
      XML_ERROR_ENTITY_DECLARED_IN_PE, XML_ERROR_FEATURE_REQUIRES_XML_DTD,
      XML_ERROR_CANT_CHANGE_FEATURE_ONCE_PARSING, XML_ERROR_UNBOUND_PREFIX, XML_ERROR_UNDECLARING_PREFIX,
      XML_ERROR_INCOMPLETE_PE, XML_ERROR_XML_DECL, XML_ERROR_TEXT_DECL, XML_ERROR_PUBLICID,
      XML_ERROR_NOT_SUSPENDED, XML_ERROR_RESERVED_PREFIX_XML, XML_ERROR_RESERVED_PREFIX_XMLNS,
      XML_ERROR_RESERVED_NAMESPACE_URI]"

definition expat_err2codestr :: "(xml_error \<Rightarrow> string) \<Rightarrow> xml_error \<Rightarrow> code_str" where
  "expat_err2codestr error_string e =
     \<lparr>cs_err = error_string e,
      cs_err_code =
        (if e = XML_ERROR_NONE then DECODER_CALLBACK_OK
         else if e = XML_ERROR_NO_MEMORY then DECODER_CALLBACK_MEMORY_ERROR
         else if e \<in> set xml_invalid_request_errors then DECODER_CALLBACK_INVALID_REQUEST
         else DECODER_CALLBACK_GENERIC_ERROR)\<rparr>"

fun yajl_gen_err2codestr :: "yajl_gen_status \<Rightarrow> code_str" where
  "yajl_gen_err2codestr yajl_gen_status_ok = \<lparr>cs_err = ''No error'', cs_err_code = DECODER_CALLBACK_OK\<rparr>"
| "yajl_gen_err2codestr yajl_gen_keys_must_be_strings =
     \<lparr>cs_err = ''Must generate a string here'', cs_err_code = DECODER_CALLBACK_GENERIC_ERROR\<rparr>"
| "yajl_gen_err2codestr yajl_max_depth_exceeded =
     \<lparr>cs_err = ''JSON max depth (%d) exceeded'', cs_err_code = DECODER_CALLBACK_INVALID_REQUEST\<rparr>"
| "yajl_gen_err2codestr yajl_gen_in_error_state =
     \<lparr>cs_err = ''Trying to generate in an error state'', cs_err_code = DECODER_CALLBACK_GENERIC_ERROR\<rparr>"
| "yajl_gen_err2codestr yajl_gen_generation_complete =
     \<lparr>cs_err = ''Trying to generate over a complete JSON document'', cs_err_code = DECODER_CALLBACK_GENERIC_ERROR\<rparr>"
| "yajl_gen_err2codestr yajl_gen_invalid_number =
     \<lparr>cs_err = ''Invalid double on yajl_gen'', cs_err_code = DECODER_CALLBACK_GENERIC_ERROR\<rparr>"
| "yajl_gen_err2codestr yajl_gen_no_buf =
     \<lparr>cs_err = ''Trying to generate with no buffer'', cs_err_code = DECODER_CALLBACK_GENERIC_ERROR\<rparr>"
| "yajl_gen_err2codestr yajl_gen_invalid_string =
     \<lparr>cs_err = ''Trying to generate an invalid utf-8 string'', cs_err_code = DECODER_CALLBACK_INVALID_REQUEST\<rparr>"
| "yajl_gen_err2codestr (yajl_gen_other_status _) =
     \<lparr>cs_err = ''Unknown error'', cs_err_code = DECODER_CALLBACK_GENERIC_ERROR\<rparr>"

section \<open>The session and its errors\<close>

definition NO_JSON_LAST_OPEN_MAP :: int where
  "NO_JSON_LAST_OPEN_MAP = -1"

record ('x, 'g) zz_xml_session = zz_session +
  xs_gen_buf :: n2k_string
  xs_last_open_map :: int
  xs_stack_pos :: size_t
  xs_bits :: "8 word list"
  xs_expat :: 'x
  xs_gen :: 'g
  xs_rc :: decoder_callback_err
  xs_stopped :: bool

text \<open>The signed decimal conversion of printf.\<close>

definition dec_int :: "int \<Rightarrow> string" where
  "dec_int i = (if i < 0 then ''-'' @ dec_string (nat (- i)) else dec_string (nat i))"

definition xml_error_text :: "string \<Rightarrow> string \<Rightarrow> string \<Rightarrow> xml_where \<Rightarrow> string" where
  "xml_error_text what json_text xml_text w =
     ''<errors><error><what>'' @ what @ ''</what><json><detail>'' @ json_text @
     ''</<detail></json><input_parser><detail>'' @ xml_text @ ''</detail><line>'' @ dec_string (xw_line w) @
     ''</line><column>'' @ dec_string (xw_column w) @ ''</column><byte>'' @ dec_int (xw_byte w) @
     ''</byte></input_parser></error></errors>''"

definition queue_xml_error0 ::
  "allocator \<Rightarrow> string \<Rightarrow> string \<Rightarrow> string \<Rightarrow> decoder_callback_err \<Rightarrow> xml_where \<Rightarrow> ('x, 'g) zz_xml_session
   \<Rightarrow> ('x, 'g) zz_xml_session c_run" where
  "queue_xml_error0 al what json_text xml_text return_code w session =
     (let session1 = session\<lparr>xs_rc := return_code\<rparr>
      in r_bind (string_printf al (zs_http_response session1) (xml_error_text what json_text xml_text w))
           (\<lambda>(string_printf_rc, resp).
              let session2 = session1\<lparr>zs_http_response := resp\<rparr>
              in r_return (if string_printf_rc < 0 then session2 else session2\<lparr>xs_stopped := True\<rparr>)))"

definition queue_xml_error ::
  "allocator \<Rightarrow> ('x, 'g) xml_lib \<Rightarrow> xml_where \<Rightarrow> string \<Rightarrow> yajl_gen_status \<Rightarrow> ('x, 'g) zz_xml_session
   \<Rightarrow> ('x, 'g) zz_xml_session c_run" where
  "queue_xml_error al L w what gen_status session =
     (let yajl_rc = yajl_gen_err2codestr gen_status;
          xml_rc = expat_err2codestr (xml_error_string L) (xw_error w);
          return_code = (if cs_err_code yajl_rc \<noteq> DECODER_CALLBACK_OK then cs_err_code yajl_rc
                         else cs_err_code xml_rc)
      in queue_xml_error0 al what (cs_err yajl_rc) (cs_err xml_rc) return_code w session)"

section \<open>Generating\<close>

definition yajl_print_callback ::
  "allocator \<Rightarrow> ('x, 'g) xml_lib \<Rightarrow> xml_where \<Rightarrow> bytes \<Rightarrow> ('x, 'g) zz_xml_session
   \<Rightarrow> ('x, 'g) zz_xml_session c_run" where
  "yajl_print_callback al L w str sess =
     (let (append_rc, buf) = string_append al (xs_gen_buf sess) str;
          sess1 = sess\<lparr>xs_gen_buf := buf\<rparr>
      in if append_rc \<noteq> 0
         then queue_xml_error al L w ''Unable to append JSON text (OOM?)'' yajl_gen_status_ok sess1
         else r_return sess1)"

fun print_pieces ::
  "allocator \<Rightarrow> ('x, 'g) xml_lib \<Rightarrow> xml_where \<Rightarrow> bytes list \<Rightarrow> ('x, 'g) zz_xml_session
   \<Rightarrow> ('x, 'g) zz_xml_session c_run" where
  "print_pieces al L w [] sess = r_return sess"
| "print_pieces al L w (d # ds) sess = r_bind (yajl_print_callback al L w d sess) (print_pieces al L w ds)"

definition gen_call ::
  "allocator \<Rightarrow> ('x, 'g) xml_lib \<Rightarrow> xml_where \<Rightarrow> gen_op \<Rightarrow> ('x, 'g) zz_xml_session
   \<Rightarrow> (yajl_gen_status \<times> ('x, 'g) zz_xml_session) c_run" where
  "gen_call al L w oper sess =
     (case yajl_gen_call L oper (xs_gen sess) of
        (status, pieces, g) \<Rightarrow>
          r_bind (print_pieces al L w pieces (sess\<lparr>xs_gen := g\<rparr>)) (\<lambda>sess1. r_return (status, sess1)))"

text \<open>
  A sequence of generator calls, each with the text of its error: the first call that fails ends the
  sequence (the macro GEN\_OR\_GOTO\_ERR). A key with its value is two calls with the same text.
\<close>

type_synonym gen_err = "(yajl_gen_status \<times> string) option"

fun gen_seq ::
  "allocator \<Rightarrow> ('x, 'g) xml_lib \<Rightarrow> xml_where \<Rightarrow> (gen_op \<times> string) list \<Rightarrow> ('x, 'g) zz_xml_session
   \<Rightarrow> (gen_err \<times> ('x, 'g) zz_xml_session) c_run" where
  "gen_seq al L w [] sess = r_return (None, sess)"
| "gen_seq al L w ((oper, what) # ops) sess =
     r_bind (gen_call al L w oper sess) (\<lambda>(status, sess1).
       if status \<noteq> yajl_gen_status_ok then r_return (Some (status, what), sess1)
       else gen_seq al L w ops sess1)"

definition yajl_gen_key_value :: "string \<Rightarrow> string \<Rightarrow> bytes \<Rightarrow> (gen_op \<times> string) list" where
  "yajl_gen_key_value what key value = [(Gen_string key, what), (Gen_string value, what)]"

section \<open>Handlers\<close>

text \<open>The label err of the element handlers.\<close>

definition xml_element_err ::
  "allocator \<Rightarrow> ('x, 'g) xml_lib \<Rightarrow> xml_where \<Rightarrow> gen_err \<times> ('x, 'g) zz_xml_session
   \<Rightarrow> ('x, 'g) zz_xml_session c_run" where
  "xml_element_err al L w r =
     (case r of
        (None, sess) \<Rightarrow> r_return sess
      | (Some (status, what), sess) \<Rightarrow>
          r_bind (queue_xml_error al L w what status sess) (\<lambda>sess1.
            r_return (sess1\<lparr>xs_last_open_map := NO_JSON_LAST_OPEN_MAP\<rparr>)))"

definition attributes_ops :: "(string \<times> string) list \<Rightarrow> (gen_op \<times> string) list" where
  "attributes_ops attr =
     (if attr = [] then []
      else [(Gen_string ''attributes'', ''Can't gen JSON attributes key''),
            (Gen_map_open, ''Can't gen JSON attributes open brace'')] @
           concat (map (\<lambda>(k, v). yajl_gen_key_value ''Can't gen JSON attribute key + val'' k v) attr) @
           [(Gen_map_close, ''Can't gen JSON close brace'')])"

definition element_ops :: "string \<Rightarrow> (string \<times> string) list \<Rightarrow> (gen_op \<times> string) list" where
  "element_ops el attr =
     (Gen_map_open, ''Can't gen JSON object open brace'') #
     yajl_gen_key_value ''Can't gen JSON text'' ''tag'' el @ attributes_ops attr"

text \<open>What opens the element inside its parent: the first child opens the array, a later one closes the one before.\<close>

definition open_in_parent ::
  "allocator \<Rightarrow> ('x, 'g) xml_lib \<Rightarrow> xml_where \<Rightarrow> ('x, 'g) zz_xml_session
   \<Rightarrow> (gen_err \<times> ('x, 'g) zz_xml_session) c_run" where
  "open_in_parent al L w sess =
     (if xs_stack_pos sess = 0
      then r_return (None, sess\<lparr>xs_last_open_map := sint (string_size (xs_gen_buf sess))\<rparr>)
      else r_bind (run_r (test_current_stack_children_printed (xs_bits sess) (xs_stack_pos sess))) (\<lambda>printed.
        if \<not> printed
        then r_bind (gen_seq al L w [(Gen_string ''children'', ''Can't gen JSON children key''),
                                     (Gen_array_open, ''Can't gen JSON child array open bracket'')] sess)
               (\<lambda>(err, sess1).
                  if err \<noteq> None then r_return (err, sess1)
                  else r_bind (run_r (set_current_stack_children_printed (xs_bits sess1) (xs_stack_pos sess1)))
                         (\<lambda>bits. r_return (None, sess1\<lparr>xs_bits := bits\<rparr>)))
        else gen_seq al L w [(Gen_map_close, ''Can't gen JSON child array close brace'')] sess))"

definition zz_parse_start_xml_element ::
  "allocator \<Rightarrow> ('x, 'g) xml_lib \<Rightarrow> xml_where \<Rightarrow> string \<Rightarrow> (string \<times> string) list \<Rightarrow> ('x, 'g) zz_xml_session
   \<Rightarrow> ('x, 'g) zz_xml_session c_run" where
  "zz_parse_start_xml_element al L w el attr sess =
     (if string_size (zs_http_response sess) > 0 then r_return sess
      else r_bind (open_in_parent al L w sess) (\<lambda>(err, sess1).
        if err \<noteq> None then xml_element_err al L w (err, sess1)
        else let sess2 = sess1\<lparr>xs_stack_pos := xs_stack_pos sess1 + 1\<rparr>
             in r_bind (run_r (clear_current_stack_text_printed (xs_bits sess2) (xs_stack_pos sess2))) (\<lambda>bits1.
                r_bind (run_r (clear_current_stack_children_printed bits1 (xs_stack_pos sess2))) (\<lambda>bits2.
                r_bind (gen_seq al L w (element_ops el attr) (sess2\<lparr>xs_bits := bits2\<rparr>))
                  (xml_element_err al L w)))))"

definition close_children ::
  "allocator \<Rightarrow> ('x, 'g) xml_lib \<Rightarrow> xml_where \<Rightarrow> ('x, 'g) zz_xml_session
   \<Rightarrow> (gen_err \<times> ('x, 'g) zz_xml_session) c_run" where
  "close_children al L w sess =
     r_bind (run_r (test_current_stack_children_printed (xs_bits sess) (xs_stack_pos sess))) (\<lambda>printed.
       if printed
       then gen_seq al L w [(Gen_map_close, ''Can't gen child JSON close key''),
                            (Gen_array_close, ''Can't gen JSON child array close bracket'')] sess
       else r_return (None, sess))"

definition zz_parse_end_xml_element ::
  "allocator \<Rightarrow> ('x, 'g) xml_lib \<Rightarrow> xml_where \<Rightarrow> ('x, 'g) zz_xml_session \<Rightarrow> ('x, 'g) zz_xml_session c_run" where
  "zz_parse_end_xml_element al L w sess =
     (if string_size (zs_http_response sess) > 0 then r_return sess
      else r_bind (close_children al L w sess) (\<lambda>(err, sess1).
          if err \<noteq> None then xml_element_err al L w (err, sess1)
          else let sess2 = sess1\<lparr>xs_stack_pos := xs_stack_pos sess1 - 1\<rparr>
               in if xs_stack_pos sess2 > 0 then r_return sess2
                  else r_bind (gen_seq al L w [(Gen_map_close, ''Can't gen child JSON close key'')] sess2)
                         (\<lambda>(err, sess3).
                    if err \<noteq> None then xml_element_err al L w (err, sess3)
                    else let msg = \<lparr>rkm_err = RD_KAFKA_RESP_ERR_NO_ERROR,
                                    rkm_payload = word_of_int (xs_last_open_map sess3),
                                    rkm_len = string_size (xs_gen_buf sess3) - word_of_int (xs_last_open_map sess3),
                                    rkm_private = 0\<rparr>
                         in r_bind (run_r (kafka_msg_array_add al (zs_kafka_msgs sess3) msg)) (\<lambda>(add_rc, array).
                              let sess4 = sess3\<lparr>zs_kafka_msgs := array,
                                                xs_last_open_map := NO_JSON_LAST_OPEN_MAP,
                                                xs_gen := yajl_gen_reset L (xs_gen sess3)\<rparr>
                              in r_bind (if add_rc \<noteq> 0
                                         then queue_xml_error al L w ''Couldn't add kafka message (OOM?)''
                                                yajl_gen_status_ok sess4
                                         else r_return sess4) (\<lambda>sess5.
                                   r_return (sess5\<lparr>xs_stopped := True\<rparr>))))))"

text \<open>The first call for an element generates a key and the text, the next ones extend the last string.\<close>

definition zz_parse_xml_character_data ::
  "allocator \<Rightarrow> ('x, 'g) xml_lib \<Rightarrow> xml_where \<Rightarrow> bytes \<Rightarrow> ('x, 'g) zz_xml_session
   \<Rightarrow> ('x, 'g) zz_xml_session c_run" where
  "zz_parse_xml_character_data al L w characters sess =
     (let pos = xs_stack_pos sess
      in r_bind (run_r (test_current_stack_text_printed (xs_bits sess) pos)) (\<lambda>text_printed.
         if \<not> text_printed
         then r_bind (run_r (test_current_stack_children_printed (xs_bits sess) pos)) (\<lambda>children_printed.
                let key = (if children_printed then ''tail'' else ''text'')
                in r_bind (gen_seq al L w
                            (yajl_gen_key_value ''Can't gen JSON attribute key + val in XML tag text'' key characters) sess)
                     (\<lambda>(err, sess1).
                        case err of
                          Some (_, what) \<Rightarrow> queue_xml_error al L w what yajl_gen_status_ok sess1
                        | None \<Rightarrow> r_bind (run_r (set_current_stack_text_printed (xs_bits sess1) pos))
                                   (\<lambda>bits. r_return (sess1\<lparr>xs_bits := bits\<rparr>))))
         else (case yajl_temp_string L characters of
                 None \<Rightarrow> queue_xml_error al L w ''Can't allocate temporary JSON generator (OOM?)'' yajl_gen_status_ok sess
               | Some (status, buf) \<Rightarrow>
                   if status \<noteq> yajl_gen_status_ok
                   then queue_xml_error al L w ''Can't generate XML text in JSON string'' yajl_gen_status_ok sess
                   else r_bind (run_r (string_pop_back (xs_gen_buf sess))) (\<lambda>popped.
                          r_return (sess\<lparr>xs_gen_buf := snd (string_append al popped (drop 1 buf))\<rparr>)))))"

definition xml_handler ::
  "allocator \<Rightarrow> ('x, 'g) xml_lib \<Rightarrow> xml_callback \<Rightarrow> ('x, 'g) zz_xml_session \<Rightarrow> ('x, 'g) zz_xml_session c_run" where
  "xml_handler al L c sess =
     (case xc_event c of
        Start_element el attr \<Rightarrow> zz_parse_start_xml_element al L (xc_where c) el attr sess
      | End_element _ \<Rightarrow> zz_parse_end_xml_element al L (xc_where c) sess
      | Character_data d \<Rightarrow> zz_parse_xml_character_data al L (xc_where c) d sess)"

section \<open>A chunk\<close>

text \<open>expat delivers the callbacks until one of them stops it; the byte index it reports then is the third result.\<close>

fun xml_deliver ::
  "allocator \<Rightarrow> ('x, 'g) xml_lib \<Rightarrow> xml_callback list \<Rightarrow> ('x, 'g) zz_xml_session
   \<Rightarrow> (('x, 'g) zz_xml_session \<times> int option) c_run" where
  "xml_deliver al L [] sess = r_return (sess, None)"
| "xml_deliver al L (c # cs) sess =
     r_bind (xml_handler al L c sess) (\<lambda>sess1.
       if xs_stopped sess1 then r_return (sess1, Some (xc_stop_byte c)) else xml_deliver al L cs sess1)"

definition zz_reset_xml_handler ::
  "('x, 'g) xml_lib \<Rightarrow> bool \<Rightarrow> ('x, 'g) zz_xml_session \<Rightarrow> ('x, 'g) zz_xml_session" where
  "zz_reset_xml_handler L do_parser_status_reset sess =
     (if do_parser_status_reset then sess\<lparr>xs_expat := xml_parser_reset L (xs_expat sess), xs_stopped := False\<rparr>
      else sess)"

text \<open>XML\_Parse: the status and the position after it; a stopped parser reports an abort.\<close>

definition XML_Parse ::
  "allocator \<Rightarrow> ('x, 'g) xml_lib \<Rightarrow> bytes \<Rightarrow> ('x, 'g) zz_xml_session
   \<Rightarrow> (xml_status \<times> xml_where \<times> ('x, 'g) zz_xml_session) c_run" where
  "XML_Parse al L buffer sess =
     (let feed = xml_parse L (xs_expat sess) buffer
      in r_bind (xml_deliver al L (xf_callbacks feed) (sess\<lparr>xs_expat := xf_parser feed\<rparr>)) (\<lambda>(sess1, stop).
           case stop of
             None \<Rightarrow> r_return (xf_status feed, xf_where feed, sess1)
           | Some byte \<Rightarrow> r_return (XML_STATUS_ERROR, (xf_where feed)\<lparr>xw_error := XML_ERROR_ABORTED, xw_byte := byte\<rparr>, sess1)))"

partial_function (option) process_xml_loop ::
  "allocator \<Rightarrow> ('x, 'g) xml_lib \<Rightarrow> bytes \<Rightarrow> ('x, 'g) zz_xml_session \<Rightarrow> ('x, 'g) zz_xml_session c_run" where
  "process_xml_loop al L buffer session =
     (if \<not> (length buffer > 0 \<and> string_size (zs_http_response session) = 0) then r_return session
      else r_bind (XML_Parse al L buffer session) (\<lambda>(stat, w, session1).
        let true_error = (if stat = XML_STATUS_SUSPENDED then str_buf (zs_http_response session1) \<noteq> None
                          else if stat \<noteq> XML_STATUS_ERROR then False
                          else xw_error w \<noteq> XML_ERROR_JUNK_AFTER_DOC_ELEMENT \<and> xw_error w \<noteq> XML_ERROR_ABORTED)
        in if stat = XML_STATUS_OK then r_return session1
           else if true_error then queue_xml_error al L w ''Error parsing XML'' yajl_gen_status_ok session1
           else if xw_byte w \<le> 0 \<and> string_size (zs_http_response session1) = 0
           then queue_xml_error al L w ''Can't get parse offset'' yajl_gen_status_ok session1
           else if xw_byte w < 0 \<or> int (length buffer) < xw_byte w then Some (Inl OutOfBounds)
           else process_xml_loop al L (drop (nat (xw_byte w)) buffer) (zz_reset_xml_handler L True session1)))"

definition process_xml_buffer ::
  "allocator \<Rightarrow> ('x, 'g) xml_lib \<Rightarrow> addr \<Rightarrow> bytes \<Rightarrow> ('x, 'g) zz_xml_session
   \<Rightarrow> (decoder_callback_err \<times> ('x, 'g) zz_xml_session \<times> bytes) c_run" where
  "process_xml_buffer al L buf_addr buffer session =
     r_bind (process_xml_loop al L buffer session) (\<lambda>session1.
       r_bind (run_r (kafka_message_array_size (zs_kafka_msgs session1))) (\<lambda>n.
         if n \<noteq> 0
         then r_bind (run_r (kafka_message_array_set_payload_buffer0 (zs_kafka_msgs session1)
                (if str_buf (xs_gen_buf session1) = None then 0 else buf_addr) True)) (\<lambda>array.
                r_return (xs_rc session1, session1\<lparr>zs_kafka_msgs := array, xs_gen_buf := N2K_STRING_INITIALIZER\<rparr>,
                          string_bytes (xs_gen_buf session1)))
         else r_return (xs_rc session1, session1\<lparr>xs_gen_buf := N2K_STRING_INITIALIZER\<rparr>, [])))"

section \<open>Opening and closing\<close>

definition xml_error_message ::
  "allocator \<Rightarrow> n2k_string \<Rightarrow> decoder_callback_err \<Rightarrow> nat \<Rightarrow> n2k_string c_run" where
  "xml_error_message al error_str decoder_rc messages_queued =
     r_bind (string_printf al N2K_STRING_INITIALIZER
       (''<result><messages_queued>'' @ dec_string messages_queued @ ''</messages_queued>'' @
        (if decoder_rc = DECODER_CALLBACK_OK then [] else string_bytes error_str) @ ''</result>''))
       (\<lambda>(rc, ret). r_return ret)"

definition XML_ParserFree :: "'x cell \<Rightarrow> 'x cell c_result" where
  "XML_ParserFree h = (case h of Freed \<Rightarrow> Inl DoubleFree | Live _ \<Rightarrow> Inr Freed)"

text \<open>The error branch frees the parser and then jumps to the label that frees it.\<close>

definition new_zz_session_xml ::
  "'x option \<Rightarrow> 'g option \<Rightarrow> ('x, 'g) zz_xml_session \<Rightarrow> (int \<times> ('x, 'g) zz_xml_session) c_result" where
  "new_zz_session_xml xml_parser_create yajl_gen_alloc sess =
     (case xml_parser_create of
        None \<Rightarrow> Inr (-1, sess)
      | Some x \<Rightarrow>
          (case yajl_gen_alloc of
             None \<Rightarrow> c_bind (XML_ParserFree (Live x)) (\<lambda>h. c_bind (XML_ParserFree h) (\<lambda>_. Inr (-1, sess)))
           | Some g \<Rightarrow> Inr (0, sess\<lparr>xs_expat := x, xs_gen := g, xs_last_open_map := NO_JSON_LAST_OPEN_MAP\<rparr>)))"

text \<open>Closing releases the generator and the parser; the generated text is never kept between chunks.\<close>

definition free_zz_session_xml :: "('x, 'g) zz_xml_session \<Rightarrow> 'g \<times> 'x" where
  "free_zz_session_xml sess = (xs_gen sess, xs_expat sess)"

section \<open>The interface of an array of flags\<close>

locale flag_array =
  fixes test :: "'b \<Rightarrow> nat \<Rightarrow> bool c_result"
    and set_flag :: "'b \<Rightarrow> nat \<Rightarrow> 'b c_result"
    and clear_flag :: "'b \<Rightarrow> nat \<Rightarrow> 'b c_result"
    and valid :: "'b \<Rightarrow> bool"
    and limit :: nat
    and flag :: "'b \<Rightarrow> nat \<Rightarrow> bool"
  assumes test_flag: "valid v \<Longrightarrow> i < limit \<Longrightarrow> test v i = Inr (flag v i)"
    and set_flag: "valid v \<Longrightarrow> i < limit \<Longrightarrow> \<exists>v'. set_flag v i = Inr v' \<and> valid v' \<and>
      (\<forall>j < limit. flag v' j \<longleftrightarrow> j = i \<or> flag v j)"
    and clear_flag: "valid v \<Longrightarrow> i < limit \<Longrightarrow> \<exists>v'. clear_flag v i = Inr v' \<and> valid v' \<and>
      (\<forall>j < limit. flag v' j \<longleftrightarrow> j \<noteq> i \<and> flag v j)"
begin

lemma clear_two:
  assumes "valid v" and "i < limit" and "k < limit"
  shows "\<exists>v1 v2. clear_flag v i = Inr v1 \<and> clear_flag v1 k = Inr v2 \<and> valid v2 \<and>
    (\<forall>j < limit. flag v2 j \<longleftrightarrow> j \<noteq> i \<and> j \<noteq> k \<and> flag v j)"
proof -
  obtain v1 where v1: "clear_flag v i = Inr v1" "valid v1" "\<forall>j < limit. flag v1 j \<longleftrightarrow> j \<noteq> i \<and> flag v j"
    using clear_flag [OF assms(1,2)] by blast
  moreover obtain v2 where "clear_flag v1 k = Inr v2" "valid v2" "\<forall>j < limit. flag v2 j \<longleftrightarrow> j \<noteq> k \<and> flag v1 j"
    using clear_flag [OF v1(2) assms(3)] by blast
  ultimately show ?thesis by blast
qed

end

definition vector_flag :: "8 word list \<Rightarrow> nat \<Rightarrow> bool" where
  "vector_flag bv i = bit (bv ! (i div 8)) (i mod 8)"

lemma vector_position: "i < 256 \<Longrightarrow> length bv = 32 \<Longrightarrow> \<not> length bv \<le> i div 8"
  by simp

lemma same_position: "i div 8 = j div 8 \<Longrightarrow> i mod 8 = j mod 8 \<Longrightarrow> i = (j :: nat)"
  by (metis div_mult_mod_eq)

interpretation flags: flag_array bit_test bit_set bit_clear "\<lambda>v. length v = 32" 256 vector_flag
proof (unfold_locales, goal_cases)
  case (1 v i)
  then show ?case
    using vector_position [of i v] by (simp add: bit_test_def CHAR_BIT_def vector_flag_def bit_iff_and_push_bit_not_eq_0)
next
  case (2 v i)
  have "vector_flag (v[i div 8 := v ! (i div 8) OR push_bit (i mod 8) 1]) j \<longleftrightarrow> j = i \<or> vector_flag v j" if "j < 256" for j
    using 2 that same_position [of j i]
    by (cases "j div 8 = i div 8") (auto simp: vector_flag_def nth_list_update bit_simps)
  with 2 show ?case using vector_position [of i v] by (simp add: bit_set_def CHAR_BIT_def)
next
  case (3 v i)
  have "vector_flag (v[i div 8 := v ! (i div 8) AND NOT (push_bit (i mod 8) 1)]) j \<longleftrightarrow> j \<noteq> i \<and> vector_flag v j" if "j < 256" for j
    using 3 that same_position [of j i]
    by (cases "j div 8 = i div 8") (auto simp: vector_flag_def nth_list_update bit_simps dest: bit_imp_le_length)
  with 3 show ?case using vector_position [of i v] by (simp add: bit_clear_def CHAR_BIT_def)
qed

text \<open>The two flags of a stack frame.\<close>

definition tflag :: "8 word list \<Rightarrow> nat \<Rightarrow> bool" where
  "tflag v q = vector_flag v (2 * q)"

definition cflag :: "8 word list \<Rightarrow> nat \<Rightarrow> bool" where
  "cflag v q = vector_flag v (2 * q + 1)"

lemma frame_bits:
  assumes "q \<le> 127"
  shows "text_printed_bit_from_frame (of_nat q) = 2 * q" and "children_printed_bit_from_frame (of_nat q) = 2 * q + 1"
proof -
  have e: "(of_nat q * 2 :: size_t) = of_nat (2 * q)" "(of_nat (2 * q) + 1 :: size_t) = of_nat (2 * q + 1)" by simp_all
  have u1: "unat (of_nat (2 * q) :: size_t) = 2 * q"
    by (rule unat_of_nat_fits) (use assms in simp)
  have u2: "unat (of_nat (2 * q + 1) :: size_t) = 2 * q + 1"
    by (rule unat_of_nat_fits) (use assms in simp)
  show "text_printed_bit_from_frame (of_nat q) = 2 * q"
    and "children_printed_bit_from_frame (of_nat q) = 2 * q + 1"
    unfolding text_printed_bit_from_frame_def children_printed_bit_from_frame_def e u1 u2 by (rule refl)+
qed

lemma frame_parity: "Suc (2 * r) \<noteq> 2 * q" "2 * r \<noteq> Suc (2 * q)"
  by presburger+

lemma frame_test:
  assumes "length v = 32" and "q \<le> 127"
  shows "test_current_stack_text_printed v (of_nat q) = Inr (tflag v q)"
    and "test_current_stack_children_printed v (of_nat q) = Inr (cflag v q)"
  using flags.test_flag [OF assms(1)] assms(2)
  by (simp_all add: test_current_stack_text_printed_def test_current_stack_children_printed_def frame_bits
      tflag_def cflag_def)

lemma frame_set_text:
  assumes "length v = 32" and "q \<le> 127"
  shows "\<exists>v'. set_current_stack_text_printed v (of_nat q) = Inr v' \<and> length v' = 32 \<and>
    (\<forall>r \<le> 127. (tflag v' r \<longleftrightarrow> r = q \<or> tflag v r) \<and> (cflag v' r \<longleftrightarrow> cflag v r))"
proof -
  have q: "2 * q < 256" using assms(2) by simp
  obtain v' where v': "bit_set v (2 * q) = Inr v'" "length v' = 32"
    "\<And>j. j < 256 \<Longrightarrow> vector_flag v' j \<longleftrightarrow> j = 2 * q \<or> vector_flag v j"
    using flags.set_flag [OF assms(1) q] by blast
  have "(tflag v' r \<longleftrightarrow> r = q \<or> tflag v r) \<and> (cflag v' r \<longleftrightarrow> cflag v r)" if "r \<le> 127" for r
    using v'(3) [of "2 * r"] v'(3) [of "2 * r + 1"] that by (auto simp: tflag_def cflag_def frame_parity)
  with v' assms(2) show ?thesis by (simp add: set_current_stack_text_printed_def frame_bits)
qed

lemma frame_set_children:
  assumes "length v = 32" and "q \<le> 127"
  shows "\<exists>v'. set_current_stack_children_printed v (of_nat q) = Inr v' \<and> length v' = 32 \<and>
    (\<forall>r \<le> 127. (cflag v' r \<longleftrightarrow> r = q \<or> cflag v r) \<and> (tflag v' r \<longleftrightarrow> tflag v r))"
proof -
  have q: "2 * q + 1 < 256" using assms(2) by simp
  obtain v' where v': "bit_set v (2 * q + 1) = Inr v'" "length v' = 32"
    "\<And>j. j < 256 \<Longrightarrow> vector_flag v' j \<longleftrightarrow> j = 2 * q + 1 \<or> vector_flag v j"
    using flags.set_flag [OF assms(1) q] by blast
  have "(cflag v' r \<longleftrightarrow> r = q \<or> cflag v r) \<and> (tflag v' r \<longleftrightarrow> tflag v r)" if "r \<le> 127" for r
    using v'(3) [of "2 * r"] v'(3) [of "2 * r + 1"] that by (auto simp: tflag_def cflag_def frame_parity)
  with v' assms(2) show ?thesis by (simp add: set_current_stack_children_printed_def frame_bits)
qed

lemma frame_clear:
  assumes "length v = 32" and "q \<le> 127"
  shows "\<exists>v1 v2. clear_current_stack_text_printed v (of_nat q) = Inr v1 \<and>
    clear_current_stack_children_printed v1 (of_nat q) = Inr v2 \<and> length v2 = 32 \<and>
    (\<forall>r \<le> 127. (tflag v2 r \<longleftrightarrow> r \<noteq> q \<and> tflag v r) \<and> (cflag v2 r \<longleftrightarrow> r \<noteq> q \<and> cflag v r))"
proof -
  have q: "2 * q < 256" "2 * q + 1 < 256" using assms(2) by simp_all
  obtain v1 v2 where v: "bit_clear v (2 * q) = Inr v1" "bit_clear v1 (2 * q + 1) = Inr v2" "length v2 = 32"
    "\<And>j. j < 256 \<Longrightarrow> vector_flag v2 j \<longleftrightarrow> j \<noteq> 2 * q \<and> j \<noteq> 2 * q + 1 \<and> vector_flag v j"
    using flags.clear_two [OF assms(1) q] by blast
  have "(tflag v2 r \<longleftrightarrow> r \<noteq> q \<and> tflag v r) \<and> (cflag v2 r \<longleftrightarrow> r \<noteq> q \<and> cflag v r)" if "r \<le> 127" for r
    using v(4) [of "2 * r"] v(4) [of "2 * r + 1"] that by (auto simp: tflag_def cflag_def frame_parity)
  with v assms(2) show ?thesis
    by (simp add: clear_current_stack_text_printed_def clear_current_stack_children_printed_def frame_bits)
qed

section \<open>Generator calls that succeed\<close>

text \<open>The text a sequence of generator calls prints from a given state, if every call succeeds.\<close>

fun gen_run :: "('x, 'g) xml_lib \<Rightarrow> gen_op list \<Rightarrow> 'g \<Rightarrow> (bytes \<times> 'g) option" where
  "gen_run L [] g = Some ([], g)"
| "gen_run L (oper # ops) g =
     (case yajl_gen_call L oper g of
        (status, pieces, g1) \<Rightarrow>
          if status \<noteq> yajl_gen_status_ok then None
          else map_option (\<lambda>(out, g2). (concat pieces @ out, g2)) (gen_run L ops g1))"

lemma gen_run_append:
  "gen_run L (ops1 @ ops2) g =
     (case gen_run L ops1 g of
        None \<Rightarrow> None
      | Some (out1, g1) \<Rightarrow> map_option (\<lambda>(out2, g2). (out1 @ out2, g2)) (gen_run L ops2 g1))"
proof (induction ops1 arbitrary: g)
  case Nil
  show ?case by (cases "gen_run L ops2 g") auto
next
  case (Cons oper ops1)
  obtain status pieces g1 where c: "yajl_gen_call L oper g = (status, pieces, g1)" by (metis prod_cases3)
  show ?case
  proof (cases "gen_run L ops1 g1")
    case None
    with c Cons show ?thesis by simp
  next
    case (Some og)
    with c Cons show ?thesis by (cases og; cases "gen_run L ops2 (snd og)") auto
  qed
qed

lemma gen_run_appendE:
  assumes "gen_run L (ops1 @ ops2) g = Some (out, g2)"
  obtains out1 g1 out2 where "gen_run L ops1 g = Some (out1, g1)" "gen_run L ops2 g1 = Some (out2, g2)" "out = out1 @ out2"
  using assms by (auto simp: gen_run_append split: option.splits)

lemma print_pieces_granted:
  assumes "\<And>k. al_ok al k" and "string_ok (xs_gen_buf sess)"
    and "unat (str_size (xs_gen_buf sess)) + length (concat ds) \<le> 2 ^ 31"
  shows "\<exists>b. print_pieces al L w ds sess = r_return (sess\<lparr>xs_gen_buf := b\<rparr>) \<and> string_ok b \<and>
    string_bytes b = string_bytes (xs_gen_buf sess) @ concat ds"
  using assms(2,3)
proof (induction ds arbitrary: sess)
  case Nil
  then show ?case by (intro exI [of _ "xs_gen_buf sess"]) simp
next
  case (Cons d ds)
  let ?b = "xs_gen_buf sess"
  have fits: "string_fits ?b (length d)" using Cons.prems(2) by (simp add: string_fits_def)
  obtain rc b1 where app: "string_append al ?b d = (rc, b1)" by fastforce
  have rc: "rc = 0" using string_append_granted [OF Cons.prems(1) fits assms(1)] app by simp
  have b1: "string_ok b1" "string_bytes b1 = string_bytes ?b @ d" "str_size b1 = str_size ?b + of_nat (length d)"
    using string_append_spec [OF Cons.prems(1) fits app] rc by auto
  have "unat (str_size b1) = unat (str_size ?b) + length d"
    unfolding b1(3) using fits by (intro unat_plus_of_nat) (simp add: string_fits_def)
  then have "\<exists>b. print_pieces al L w ds (sess\<lparr>xs_gen_buf := b1\<rparr>) = r_return (sess\<lparr>xs_gen_buf := b1\<rparr>\<lparr>xs_gen_buf := b\<rparr>) \<and>
      string_ok b \<and> string_bytes b = string_bytes b1 @ concat ds"
    using Cons.IH [of "sess\<lparr>xs_gen_buf := b1\<rparr>"] b1(1) Cons.prems(2) by simp
  with app rc b1(2) show ?case by (auto simp: yajl_print_callback_def)
qed

lemma gen_seq_run:
  assumes al: "\<And>k. al_ok al k"
  shows "gen_run L (map fst ops) (xs_gen sess) = Some (out, g') \<Longrightarrow> string_ok (xs_gen_buf sess) \<Longrightarrow>
    length (string_bytes (xs_gen_buf sess)) + length out \<le> 2 ^ 31 \<Longrightarrow>
    \<exists>b. gen_seq al L w ops sess = r_return (None, sess\<lparr>xs_gen := g', xs_gen_buf := b\<rparr>) \<and> string_ok b \<and>
      string_bytes b = string_bytes (xs_gen_buf sess) @ out"
proof (induction ops arbitrary: sess out)
  case Nil
  then show ?case by (intro exI [of _ "xs_gen_buf sess"]) simp
next
  case (Cons ow ops)
  obtain oper what where ow: "ow = (oper, what)" by force
  obtain pieces g1 out2 where call: "yajl_gen_call L oper (xs_gen sess) = (yajl_gen_status_ok, pieces, g1)"
    "gen_run L (map fst ops) g1 = Some (out2, g')" "out = concat pieces @ out2"
    using Cons.prems(1) ow by (auto split: prod.splits if_splits)
  have len: "length (string_bytes (xs_gen_buf sess)) = unat (str_size (xs_gen_buf sess))"
    using Cons.prems(2) by (rule length_string_bytes)
  obtain b where b: "print_pieces al L w pieces (sess\<lparr>xs_gen := g1\<rparr>) = r_return (sess\<lparr>xs_gen := g1, xs_gen_buf := b\<rparr>)"
    "string_ok b" "string_bytes b = string_bytes (xs_gen_buf sess) @ concat pieces"
    using print_pieces_granted [OF al, of "sess\<lparr>xs_gen := g1\<rparr>" pieces L w] Cons.prems(2,3) len call(3) by auto
  have gc: "gen_call al L w oper sess = r_return (yajl_gen_status_ok, sess\<lparr>xs_gen := g1, xs_gen_buf := b\<rparr>)"
    using call(1) b(1) by (simp add: gen_call_def)
  from Cons.IH [of "sess\<lparr>xs_gen := g1, xs_gen_buf := b\<rparr>" out2] call(2,3) b(2,3) Cons.prems(3)
  obtain b2 where "gen_seq al L w ops (sess\<lparr>xs_gen := g1, xs_gen_buf := b\<rparr>) =
      r_return (None, sess\<lparr>xs_gen := g', xs_gen_buf := b2\<rparr>)" "string_ok b2"
    "string_bytes b2 = string_bytes b @ out2" by auto
  with gc ow b(3) call(3) show ?case by auto
qed

end
