(* ===== verification/Xml_Document.thy ===== *)
theory Xml_Document
  imports Xml_Parser
begin

text \<open>
  What the XML parser promises: a document is a tree, and the handlers render it as the JSON object
  that a recursive description of the tree gives (\<open>json_ops\<close>), although the code closes an object only
  when the next sibling starts or the parent ends. The theory relates the two element by element,
  lifts the result to a chunk that holds any number of documents, and shows where the code leaves
  that contract: text after a child element, a document cut by a chunk boundary, and an allocation
  failure at the opening of the session.
\<close>

section \<open>Documents\<close>

datatype xml_tree = Elem (tree_tag: string) (tree_attrs: "(string \<times> string) list")
  (tree_text: "bytes option") (tree_children: "xml_tree list")

text \<open>The callbacks of a document whose text comes before the children of its element, in one piece.\<close>

definition text_events :: "bytes option \<Rightarrow> xml_event list" where
  "text_events t = (case t of None \<Rightarrow> [] | Some d \<Rightarrow> [Character_data d])"

fun events :: "xml_tree \<Rightarrow> xml_event list" where
  "events (Elem tag attrs content children) =
     [Start_element tag attrs] @ text_events content @ concat (map events children) @ [End_element tag]"

fun height :: "xml_tree \<Rightarrow> nat" where
  "height (Elem tag attrs content children) = Suc (fold max (map height children) 0)"

section \<open>The JSON of a document\<close>

definition head_ops :: "string \<Rightarrow> (string \<times> string) list \<Rightarrow> gen_op list" where
  "head_ops tag attrs = [Gen_map_open, Gen_string ''tag'', Gen_string tag] @
     (if attrs = [] then []
      else [Gen_string ''attributes'', Gen_map_open] @
           concat (map (\<lambda>(k, v). [Gen_string k, Gen_string v]) attrs) @ [Gen_map_close])"

definition text_ops :: "bytes option \<Rightarrow> gen_op list" where
  "text_ops t = (case t of None \<Rightarrow> [] | Some d \<Rightarrow> [Gen_string ''text'', Gen_string d])"

fun json_ops :: "xml_tree \<Rightarrow> gen_op list" where
  "json_ops (Elem tag attrs content children) =
     head_ops tag attrs @ text_ops content @
     (if children = [] then []
      else [Gen_string ''children'', Gen_array_open] @ concat (map json_ops children) @ [Gen_array_close]) @
     [Gen_map_close]"

text \<open>The same calls up to the closing of the object, as the handlers make them: what opens an element inside its parent.\<close>

definition sep_ops :: "bool \<Rightarrow> gen_op list" where
  "sep_ops printed = (if printed then [Gen_map_close] else [Gen_string ''children'', Gen_array_open])"

definition close_ops :: "bool \<Rightarrow> gen_op list" where
  "close_ops printed = (if printed then [Gen_map_close, Gen_array_close] else [])"

fun body_ops :: "xml_tree \<Rightarrow> gen_op list" and children_ops :: "bool \<Rightarrow> xml_tree list \<Rightarrow> gen_op list" where
  "body_ops (Elem tag attrs content children) =
     head_ops tag attrs @ text_ops content @ children_ops False children @ close_ops (children \<noteq> [])"
| "children_ops printed [] = []"
| "children_ops printed (t # ts) = sep_ops printed @ body_ops t @ children_ops True ts"

lemma children_ops_json:
  assumes "\<And>t. t \<in> set ts \<Longrightarrow> json_ops t = body_ops t @ [Gen_map_close]"
  shows "ts \<noteq> [] \<Longrightarrow> children_ops printed ts @ [Gen_map_close] = sep_ops printed @ concat (map json_ops ts)"
  using assms
proof (induction ts arbitrary: printed)
  case (Cons t ts)
  have t: "json_ops t = body_ops t @ [Gen_map_close]" using Cons.prems(2) by simp
  show ?case
  proof (cases "ts = []")
    case False
    with Cons have "children_ops True ts @ [Gen_map_close] = sep_ops True @ concat (map json_ops ts)" by simp
    with t show ?thesis by (simp add: sep_ops_def)
  qed (simp add: t)
qed simp

lemma json_ops_body: "json_ops t = body_ops t @ [Gen_map_close]"
proof (induction t)
  case (Elem tag attrs content children)
  show ?case
  proof (cases "children = []")
    case False
    have "children_ops False children @ [Gen_map_close] = sep_ops False @ concat (map json_ops children)"
      using children_ops_json [of children, OF Elem False] .
    with False show ?thesis by (simp add: close_ops_def sep_ops_def)
  qed (simp add: close_ops_def)
qed

lemma height_child: "t \<in> set ts \<Longrightarrow> height t \<le> fold max (map height ts) k"
proof (induction ts arbitrary: k)
  case (Cons u us)
  have mono: "m \<le> fold max (map height us) m" for m
  proof (induction us arbitrary: m)
    case (Cons x xs)
    have "m \<le> max (height x) m" by simp
    also have "\<dots> \<le> fold max (map height xs) (max (height x) m)" by (rule Cons)
    finally show ?case by simp
  qed simp
  show ?case
  proof (cases "t = u")
    case True
    have "height u \<le> max (height u) k" by simp
    also have "\<dots> \<le> fold max (map height us) (max (height u) k)" by (rule mono)
    finally show ?thesis using True by simp
  next
    case False
    with Cons show ?thesis by simp
  qed
qed simp

section \<open>One handler at a time\<close>

text \<open>A session in the middle of a document, with \<open>p\<close> open elements and no error.\<close>

definition ready :: "nat \<Rightarrow> ('x, 'g) zz_xml_session \<Rightarrow> bool" where
  "ready p sess \<longleftrightarrow> xs_stack_pos sess = of_nat p \<and> length (xs_bits sess) = 32 \<and> string_ok (xs_gen_buf sess) \<and>
     string_size (zs_http_response sess) = 0 \<and> \<not> xs_stopped sess"

lemma gen_seq_ready:
  assumes "\<And>k. al_ok al k" and "ready p sess" and "gen_run L (map fst ops) (xs_gen sess) = Some (out, g')"
    and "length (string_bytes (xs_gen_buf sess)) + length out \<le> 2 ^ 31"
  obtains b where "gen_seq al L w ops sess = r_return (None, sess\<lparr>xs_gen := g', xs_gen_buf := b\<rparr>)" "string_ok b"
    "string_bytes b = string_bytes (xs_gen_buf sess) @ out"
  using gen_seq_run [OF assms(1,3) _ assms(4), of w] assms(2) by (auto simp: ready_def)

lemma element_ops_fst:
  "map fst (element_ops el attr) = head_ops el attr"
proof -
  have "map fst (concat (map (\<lambda>(k, v). yajl_gen_key_value w k v) xs)) = concat (map (\<lambda>(k, v). [Gen_string k, Gen_string v]) xs)"
    for w and xs :: "(string \<times> string) list"
    by (induction xs) (auto simp: yajl_gen_key_value_def)
  from this [of "''Can't gen JSON attribute key + val''" attr] show ?thesis
    unfolding element_ops_def attributes_ops_def head_ops_def
    by (simp del: append.simps) (simp add: yajl_gen_key_value_def)
qed

lemma of_nat_pos: "p \<le> 127 \<Longrightarrow> (of_nat p :: size_t) = 0 \<longleftrightarrow> p = 0"
  using unat_of_nat_fits [of p] by (auto simp: unsigned_eq_0_iff)

lemma open_in_parent_ready:
  assumes al: "\<And>k. al_ok al k" and r: "ready p sess" and p: "0 < p" "p < 127"
    and run: "gen_run L (sep_ops (cflag (xs_bits sess) p)) (xs_gen sess) = Some (out, g')"
    and fits: "length (string_bytes (xs_gen_buf sess)) + length out \<le> 2 ^ 31"
  shows "\<exists>b v. open_in_parent al L w sess = r_return (None, sess\<lparr>xs_gen := g', xs_gen_buf := b, xs_bits := v\<rparr>) \<and>
    string_ok b \<and> string_bytes b = string_bytes (xs_gen_buf sess) @ out \<and> length v = 32 \<and> cflag v p \<and>
    (\<forall>r \<le> 127. tflag v r = tflag (xs_bits sess) r) \<and> (\<forall>r < p. cflag v r = cflag (xs_bits sess) r)"
proof -
  have nz: "xs_stack_pos sess \<noteq> 0" using r p of_nat_pos [of p] by (simp add: ready_def)
  have len: "length (xs_bits sess) = 32" and pos: "xs_stack_pos sess = of_nat p" using r by (simp_all add: ready_def)
  have test: "test_current_stack_children_printed (xs_bits sess) (of_nat p) = Inr (cflag (xs_bits sess) p)"
    using len p by (intro frame_test) simp_all
  show ?thesis
  proof (cases "cflag (xs_bits sess) p")
    case True
    with run have run': "gen_run L (map fst [(Gen_map_close, ''Can't gen JSON child array close brace'')]) (xs_gen sess) = Some (out, g')"
      by (simp add: sep_ops_def)
    obtain b where "gen_seq al L w [(Gen_map_close, ''Can't gen JSON child array close brace'')] sess =
        r_return (None, sess\<lparr>xs_gen := g', xs_gen_buf := b\<rparr>)" "string_ok b" "string_bytes b = string_bytes (xs_gen_buf sess) @ out"
      using gen_seq_ready [OF al r run' fits] .
    with nz test pos len True show ?thesis
      by (intro exI [of _ b] exI [of _ "xs_bits sess"]) (simp add: open_in_parent_def run_r_def del: gen_seq.simps)
  next
    case False
    let ?ops = "[(Gen_string ''children'', ''Can't gen JSON children key''),
      (Gen_array_open, ''Can't gen JSON child array open bracket'')]"
    from False run have run': "gen_run L (map fst ?ops) (xs_gen sess) = Some (out, g')"
      by (simp add: sep_ops_def)
    obtain b where b: "gen_seq al L w ?ops sess = r_return (None, sess\<lparr>xs_gen := g', xs_gen_buf := b\<rparr>)" "string_ok b"
      "string_bytes b = string_bytes (xs_gen_buf sess) @ out"
      using gen_seq_ready [OF al r run' fits] .
    obtain v where v: "set_current_stack_children_printed (xs_bits sess) (of_nat p) = Inr v" "length v = 32"
      "\<forall>r \<le> 127. (cflag v r \<longleftrightarrow> r = p \<or> cflag (xs_bits sess) r) \<and> (tflag v r \<longleftrightarrow> tflag (xs_bits sess) r)"
      using frame_set_children [OF len, of p] p by auto
    from nz test pos False b v p show ?thesis
      by (intro exI [of _ b] exI [of _ v]) (simp add: open_in_parent_def run_r_def del: gen_seq.simps)
  qed
qed

lemma start_root:
  assumes al: "\<And>k. al_ok al k" and r: "ready 0 sess" and run: "gen_run L (head_ops el attr) (xs_gen sess) = Some (out, g')"
    and fits: "length (string_bytes (xs_gen_buf sess)) + length out \<le> 2 ^ 31"
  shows "\<exists>b v. zz_parse_start_xml_element al L w el attr sess =
      r_return (sess\<lparr>xs_gen := g', xs_gen_buf := b, xs_bits := v, xs_stack_pos := 1,
        xs_last_open_map := int (length (string_bytes (xs_gen_buf sess)))\<rparr>) \<and>
    string_ok b \<and> string_bytes b = string_bytes (xs_gen_buf sess) @ out \<and> length v = 32 \<and>
    \<not> tflag v 1 \<and> \<not> cflag v 1"
proof -
  let ?s = "sess\<lparr>xs_last_open_map := int (length (string_bytes (xs_gen_buf sess))), xs_stack_pos := 1\<rparr>"
  obtain v1 v where v: "clear_current_stack_text_printed (xs_bits sess) 1 = Inr v1"
    "clear_current_stack_children_printed v1 1 = Inr v" "length v = 32" "\<not> tflag v 1" "\<not> cflag v 1"
    using frame_clear [of "xs_bits sess" 1] r by (auto simp: ready_def)
  have r': "ready 1 (?s\<lparr>xs_bits := v\<rparr>)" using r v(3) by (simp add: ready_def)
  have size: "sint (string_size (xs_gen_buf sess)) = int (length (string_bytes (xs_gen_buf sess)))"
    using r fits length_string_bytes [of "xs_gen_buf sess"] by (simp add: ready_def string_size_def sint_small)
  obtain b where b: "gen_seq al L w (element_ops el attr) (?s\<lparr>xs_bits := v\<rparr>) =
      r_return (None, ?s\<lparr>xs_bits := v, xs_gen := g', xs_gen_buf := b\<rparr>)" "string_ok b"
    "string_bytes b = string_bytes (xs_gen_buf sess) @ out"
    using gen_seq_ready [OF al r', of L "element_ops el attr" out g' w] run fits by (auto simp: element_ops_fst)
  show ?thesis
    using r v b size
    by (intro exI [of _ b] exI [of _ v])
      (simp add: zz_parse_start_xml_element_def ready_def open_in_parent_def run_r_def xml_element_err_def)
qed

lemma start_inside:
  assumes al: "\<And>k. al_ok al k" and r: "ready p sess" and p: "0 < p" "p < 127"
    and run: "gen_run L (sep_ops (cflag (xs_bits sess) p) @ head_ops el attr) (xs_gen sess) = Some (out, g')"
    and fits: "length (string_bytes (xs_gen_buf sess)) + length out \<le> 2 ^ 31"
  shows "\<exists>b v. zz_parse_start_xml_element al L w el attr sess =
      r_return (sess\<lparr>xs_gen := g', xs_gen_buf := b, xs_bits := v, xs_stack_pos := of_nat (Suc p)\<rparr>) \<and>
    string_ok b \<and> string_bytes b = string_bytes (xs_gen_buf sess) @ out \<and> length v = 32 \<and>
    cflag v p \<and> \<not> tflag v (Suc p) \<and> \<not> cflag v (Suc p) \<and>
    (\<forall>r \<le> p. tflag v r = tflag (xs_bits sess) r) \<and> (\<forall>r < p. cflag v r = cflag (xs_bits sess) r)"
proof -
  obtain out1 g1 out2 where run1: "gen_run L (sep_ops (cflag (xs_bits sess) p)) (xs_gen sess) = Some (out1, g1)"
    and run2: "gen_run L (head_ops el attr) g1 = Some (out2, g')" and out: "out = out1 @ out2"
    using run by (rule gen_run_appendE)
  have nz: "xs_stack_pos sess \<noteq> 0" using r p of_nat_pos [of p] by (simp add: ready_def)
  have test: "test_current_stack_children_printed (xs_bits sess) (of_nat p) = Inr (cflag (xs_bits sess) p)"
    using r p by (intro frame_test) (simp_all add: ready_def)
  obtain b1 u where u: "open_in_parent al L w sess = r_return (None, sess\<lparr>xs_gen := g1, xs_gen_buf := b1, xs_bits := u\<rparr>)"
    "string_ok b1" "string_bytes b1 = string_bytes (xs_gen_buf sess) @ out1" "length u = 32" "cflag u p"
    "\<forall>r \<le> 127. tflag u r = tflag (xs_bits sess) r" "\<forall>r < p. cflag u r = cflag (xs_bits sess) r"
    using open_in_parent_ready [OF al r p run1, of w] fits out by auto
  obtain v1 v where v: "clear_current_stack_text_printed u (of_nat (Suc p)) = Inr v1"
    "clear_current_stack_children_printed v1 (of_nat (Suc p)) = Inr v" "length v = 32"
    "\<forall>r \<le> 127. (tflag v r \<longleftrightarrow> r \<noteq> Suc p \<and> tflag u r) \<and> (cflag v r \<longleftrightarrow> r \<noteq> Suc p \<and> cflag u r)"
    using frame_clear [OF u(4), of "Suc p"] p by auto
  let ?s = "sess\<lparr>xs_gen := g1, xs_gen_buf := b1, xs_stack_pos := of_nat (Suc p), xs_bits := v\<rparr>"
  have r': "ready (Suc p) ?s" using r u(2) v(3) by (simp add: ready_def)
  obtain b where b: "gen_seq al L w (element_ops el attr) ?s =
      r_return (None, ?s\<lparr>xs_gen := g', xs_gen_buf := b\<rparr>)" "string_ok b" "string_bytes b = string_bytes b1 @ out2"
    using gen_seq_ready [OF al r', of L "element_ops el attr" out2 g' w] run2 fits u(3) out by (auto simp: element_ops_fst)
  have "zz_parse_start_xml_element al L w el attr sess =
      r_return (sess\<lparr>xs_gen := g', xs_gen_buf := b, xs_bits := v, xs_stack_pos := of_nat (Suc p)\<rparr>)"
    using r u(1) v(1,2) b(1)
    by (simp add: zz_parse_start_xml_element_def ready_def run_r_def xml_element_err_def add.commute)
  with b u v p out show ?thesis by (intro exI [of _ b] exI [of _ v]) simp
qed

lemma text_first:
  assumes al: "\<And>k. al_ok al k" and r: "ready p sess" and p: "p \<le> 127"
    and flags: "\<not> tflag (xs_bits sess) p" "\<not> cflag (xs_bits sess) p"
    and run: "gen_run L [Gen_string ''text'', Gen_string d] (xs_gen sess) = Some (out, g')"
    and fits: "length (string_bytes (xs_gen_buf sess)) + length out \<le> 2 ^ 31"
  shows "\<exists>b v. zz_parse_xml_character_data al L w d sess = r_return (sess\<lparr>xs_gen := g', xs_gen_buf := b, xs_bits := v\<rparr>) \<and>
    string_ok b \<and> string_bytes b = string_bytes (xs_gen_buf sess) @ out \<and> length v = 32 \<and>
    (\<forall>r \<le> 127. tflag v r = (r = p \<or> tflag (xs_bits sess) r)) \<and> (\<forall>r \<le> 127. cflag v r = cflag (xs_bits sess) r)"
proof -
  have len: "length (xs_bits sess) = 32" and pos: "xs_stack_pos sess = of_nat p" using r by (simp_all add: ready_def)
  let ?ops = "yajl_gen_key_value ''Can't gen JSON attribute key + val in XML tag text'' ''text'' d"
  have run': "gen_run L (map fst ?ops) (xs_gen sess) = Some (out, g')" using run by (simp add: yajl_gen_key_value_def)
  obtain b where b: "gen_seq al L w ?ops sess = r_return (None, sess\<lparr>xs_gen := g', xs_gen_buf := b\<rparr>)" "string_ok b"
    "string_bytes b = string_bytes (xs_gen_buf sess) @ out"
    using gen_seq_ready [OF al r run' fits] .
  obtain v where v: "set_current_stack_text_printed (xs_bits sess) (of_nat p) = Inr v" "length v = 32"
    "\<forall>r \<le> 127. (tflag v r \<longleftrightarrow> r = p \<or> tflag (xs_bits sess) r) \<and> (cflag v r \<longleftrightarrow> cflag (xs_bits sess) r)"
    using frame_set_text [OF len p] by auto
  from flags pos b v frame_test [OF len p] show ?thesis
    by (intro exI [of _ b] exI [of _ v]) (simp add: zz_parse_xml_character_data_def run_r_def)
qed

lemma close_children_ready:
  assumes al: "\<And>k. al_ok al k" and r: "ready p sess" and p: "p \<le> 127"
    and run: "gen_run L (close_ops (cflag (xs_bits sess) p)) (xs_gen sess) = Some (out, g')"
    and fits: "length (string_bytes (xs_gen_buf sess)) + length out \<le> 2 ^ 31"
  obtains b where "close_children al L w sess = r_return (None, sess\<lparr>xs_gen := g', xs_gen_buf := b\<rparr>)" "string_ok b"
    "string_bytes b = string_bytes (xs_gen_buf sess) @ out"
proof (cases "cflag (xs_bits sess) p")
  case True
  have "gen_run L (map fst [(Gen_map_close, ''Can't gen child JSON close key''),
      (Gen_array_close, ''Can't gen JSON child array close bracket'')]) (xs_gen sess) = Some (out, g')"
    using run True by (simp add: close_ops_def)
  from gen_seq_ready [OF al r this fits, of w]
  obtain b where b: "gen_seq al L w [(Gen_map_close, ''Can't gen child JSON close key''),
      (Gen_array_close, ''Can't gen JSON child array close bracket'')] sess =
      r_return (None, sess\<lparr>xs_gen := g', xs_gen_buf := b\<rparr>)" "string_ok b" "string_bytes b = string_bytes (xs_gen_buf sess) @ out" .
  show thesis
    by (rule that [of b]) (use r p True b in \<open>simp_all add: close_children_def ready_def frame_test run_r_def del: gen_seq.simps\<close>)
next
  case False
  then show thesis
    using r p run by (intro that [of "xs_gen_buf sess"]) (auto simp: close_children_def ready_def frame_test run_r_def close_ops_def)
qed

lemma end_inside:
  assumes al: "\<And>k. al_ok al k" and r: "ready (Suc p) sess" and p: "0 < p" "p < 127"
    and run: "gen_run L (close_ops (cflag (xs_bits sess) (Suc p))) (xs_gen sess) = Some (out, g')"
    and fits: "length (string_bytes (xs_gen_buf sess)) + length out \<le> 2 ^ 31"
  shows "\<exists>b. zz_parse_end_xml_element al L w sess =
      r_return (sess\<lparr>xs_gen := g', xs_gen_buf := b, xs_stack_pos := of_nat p\<rparr>) \<and>
    string_ok b \<and> string_bytes b = string_bytes (xs_gen_buf sess) @ out"
proof -
  have pos: "xs_stack_pos sess - 1 = of_nat p" "(of_nat p :: size_t) > 0" and resp: "string_size (zs_http_response sess) = 0"
    using r p of_nat_pos [of p] by (simp_all add: ready_def word_greater_zero_iff)
  have p': "Suc p \<le> 127" using p by simp
  obtain b where "close_children al L w sess = r_return (None, sess\<lparr>xs_gen := g', xs_gen_buf := b\<rparr>)" "string_ok b"
    "string_bytes b = string_bytes (xs_gen_buf sess) @ out"
    using close_children_ready [OF al r p' run fits] .
  then show ?thesis
    unfolding zz_parse_end_xml_element_def using pos resp by (intro exI [of _ b]) simp
qed

text \<open>The end of the document: one message more, whose payload is the offset of the text in the generated buffer.\<close>

definition document_msg :: "nat \<Rightarrow> nat \<Rightarrow> rd_kafka_message" where
  "document_msg off n = \<lparr>rkm_err = RD_KAFKA_RESP_ERR_NO_ERROR, rkm_payload = of_nat off, rkm_len = of_nat n, rkm_private = 0\<rparr>"

lemma end_root:
  assumes al: "\<And>k. al_ok al k" and r: "ready 1 sess"
    and run: "gen_run L (close_ops (cflag (xs_bits sess) 1) @ [Gen_map_close]) (xs_gen sess) = Some (out, g')"
    and fits: "length (string_bytes (xs_gen_buf sess)) + length out \<le> 2 ^ 31"
    and opened: "xs_last_open_map sess = int off" "off \<le> length (string_bytes (xs_gen_buf sess))"
    and msgs: "kma_ok (zs_kafka_msgs sess)" "kma_room (zs_kafka_msgs sess) 1"
  shows "\<exists>b a. zz_parse_end_xml_element al L w sess =
      r_return (sess\<lparr>xs_gen := yajl_gen_reset L g', xs_gen_buf := b, xs_stack_pos := 0, zs_kafka_msgs := a,
        xs_last_open_map := NO_JSON_LAST_OPEN_MAP, xs_stopped := True\<rparr>) \<and>
    string_ok b \<and> string_bytes b = string_bytes (xs_gen_buf sess) @ out \<and> kma_ok a \<and>
    kma_msgs a = kma_msgs (zs_kafka_msgs sess) @ [document_msg off (length (string_bytes b) - off)]"
proof -
  obtain out1 g1 out2 where run1: "gen_run L (close_ops (cflag (xs_bits sess) 1)) (xs_gen sess) = Some (out1, g1)"
    and run2: "gen_run L [Gen_map_close] g1 = Some (out2, g')" and out: "out = out1 @ out2"
    using run by (rule gen_run_appendE)
  have fits1: "length (string_bytes (xs_gen_buf sess)) + length out1 \<le> 2 ^ 31" using fits out by simp
  obtain b1 where b1: "close_children al L w sess = r_return (None, sess\<lparr>xs_gen := g1, xs_gen_buf := b1\<rparr>)" "string_ok b1"
    "string_bytes b1 = string_bytes (xs_gen_buf sess) @ out1"
    by (rule close_children_ready [OF al r _ run1 fits1, of w]) simp_all
  let ?s = "sess\<lparr>xs_gen := g1, xs_gen_buf := b1, xs_stack_pos := 0\<rparr>"
  have r0: "ready 0 ?s" using r b1(2) by (simp add: ready_def)
  have run2': "gen_run L (map fst [(Gen_map_close, ''Can't gen child JSON close key'')]) (xs_gen ?s) = Some (out2, g')"
    using run2 by simp
  have fits2: "length (string_bytes (xs_gen_buf ?s)) + length out2 \<le> 2 ^ 31" using fits out b1(3) by simp
  obtain b where b: "gen_seq al L w [(Gen_map_close, ''Can't gen child JSON close key'')] ?s =
      r_return (None, ?s\<lparr>xs_gen := g', xs_gen_buf := b\<rparr>)" "string_ok b" "string_bytes b = string_bytes b1 @ out2"
    using gen_seq_ready [OF al r0 run2' fits2, of w] by auto
  have size: "string_size b - word_of_int (xs_last_open_map sess) = of_nat (length (string_bytes b) - off)"
    using b(2,3) b1(3) opened length_string_bytes [of b] by (simp add: string_size_def of_nat_diff)
  obtain a where a: "kafka_msg_array_add al (zs_kafka_msgs sess) (document_msg off (length (string_bytes b) - off)) = Inr (0, a)"
    using kafka_msg_array_add_granted [OF msgs al] by blast
  with kafka_msg_array_add_spec [OF msgs, of al "document_msg off (length (string_bytes b) - off)"]
  have "kma_ok a" "kma_msgs a = kma_msgs (zs_kafka_msgs sess) @ [document_msg off (length (string_bytes b) - off)]" by auto
  moreover have "zz_parse_end_xml_element al L w sess =
      r_return (sess\<lparr>xs_gen := yajl_gen_reset L g', xs_gen_buf := b, xs_stack_pos := 0, zs_kafka_msgs := a,
        xs_last_open_map := NO_JSON_LAST_OPEN_MAP, xs_stopped := True\<rparr>)"
    unfolding zz_parse_end_xml_element_def
    using r b1(1) b(1) a size opened(1)
    by (simp add: ready_def run_r_def document_msg_def Let_def del: gen_seq.simps)
  ultimately show ?thesis using b out b1(3) by (intro exI [of _ b] exI [of _ a]) simp
qed

section \<open>Elements\<close>

lemma xml_deliver_append:
  assumes "xml_deliver al L cs sess = r_return (sess1, None)"
  shows "xml_deliver al L (cs @ cs') sess = xml_deliver al L cs' sess1"
  using assms
proof (induction cs arbitrary: sess)
  case (Cons c cs)
  then obtain s where "xml_handler al L c sess = r_return s" by (auto simp: r_bind_def split: option.splits sum.splits)
  with Cons show ?case by (auto split: if_splits)
qed simp

text \<open>What the delivery of callbacks inside an element at depth \<open>p\<close> changes of the session.\<close>

definition advanced ::
  "nat \<Rightarrow> ('x, 'g) zz_xml_session \<Rightarrow> 'g \<Rightarrow> bytes \<Rightarrow> ('x, 'g) zz_xml_session \<Rightarrow> bool" where
  "advanced p sess g out sess' \<longleftrightarrow>
     (\<exists>b v. sess' = sess\<lparr>xs_gen := g, xs_gen_buf := b, xs_bits := v\<rparr> \<and> string_ok b \<and>
        string_bytes b = string_bytes (xs_gen_buf sess) @ out \<and> length v = 32 \<and>
        (\<forall>r < p. cflag v r = cflag (xs_bits sess) r))"

lemma advancedI:
  "string_ok b \<Longrightarrow> string_bytes b = string_bytes (xs_gen_buf sess) @ out \<Longrightarrow> length v = 32 \<Longrightarrow>
   (\<And>r. r < p \<Longrightarrow> cflag v r = cflag (xs_bits sess) r) \<Longrightarrow>
   advanced p sess g out (sess\<lparr>xs_gen := g, xs_gen_buf := b, xs_bits := v\<rparr>)"
  unfolding advanced_def by (intro exI [of _ b] exI [of _ v]) simp

lemma advanced_refl: "ready p sess \<Longrightarrow> advanced q sess (xs_gen sess) [] sess"
  unfolding advanced_def ready_def by (intro exI [of _ "xs_gen_buf sess"] exI [of _ "xs_bits sess"]) simp

lemma advanced_trans:
  assumes "advanced p sess g1 out1 sess1" and "advanced p sess1 g2 out2 sess2"
  shows "advanced p sess g2 (out1 @ out2) sess2"
proof -
  obtain b1 v1 b2 v2 where s: "sess1 = sess\<lparr>xs_gen := g1, xs_gen_buf := b1, xs_bits := v1\<rparr>"
    "sess2 = sess1\<lparr>xs_gen := g2, xs_gen_buf := b2, xs_bits := v2\<rparr>"
    and facts: "string_bytes b1 = string_bytes (xs_gen_buf sess) @ out1" "\<forall>r < p. cflag v1 r = cflag (xs_bits sess) r"
    "string_ok b2" "string_bytes b2 = string_bytes (xs_gen_buf sess1) @ out2" "length v2 = 32"
    "\<forall>r < p. cflag v2 r = cflag (xs_bits sess1) r"
    using assms by (auto simp: advanced_def)
  then have "advanced p sess g2 (out1 @ out2) (sess\<lparr>xs_gen := g2, xs_gen_buf := b2, xs_bits := v2\<rparr>)"
    by (intro advancedI) simp_all
  with s show ?thesis by simp
qed

lemma advanced_mono: "advanced p sess g out sess' \<Longrightarrow> q \<le> p \<Longrightarrow> advanced q sess g out sess'"
  unfolding advanced_def by (elim exE conjE, intro exI conjI) (assumption | auto)+

lemma advancedD:
  assumes "advanced p sess g out sess'"
  shows "xs_gen sess' = g" and "string_bytes (xs_gen_buf sess') = string_bytes (xs_gen_buf sess) @ out"
    and "ready q sess \<Longrightarrow> ready q sess'" and "r < p \<Longrightarrow> cflag (xs_bits sess') r = cflag (xs_bits sess) r"
  using assms unfolding advanced_def ready_def by auto

definition element_ok :: "allocator \<Rightarrow> ('x, 'g) xml_lib \<Rightarrow> xml_tree \<Rightarrow> bool" where
  "element_ok al L t \<longleftrightarrow>
     (\<forall>p sess cs out g'. map xc_event cs = events t \<longrightarrow> ready p sess \<longrightarrow> 0 < p \<longrightarrow> p + height t \<le> 127 \<longrightarrow>
        gen_run L (sep_ops (cflag (xs_bits sess) p) @ body_ops t) (xs_gen sess) = Some (out, g') \<longrightarrow>
        length (string_bytes (xs_gen_buf sess)) + length out \<le> 2 ^ 31 \<longrightarrow>
        (\<exists>sess'. xml_deliver al L cs sess = r_return (sess', None) \<and> advanced p sess g' out sess' \<and>
           cflag (xs_bits sess') p))"

lemma element_okD:
  assumes "element_ok al L t" and "map xc_event cs = events t" and "ready p sess" and "0 < p" and "p + height t \<le> 127"
    and "gen_run L (sep_ops (cflag (xs_bits sess) p) @ body_ops t) (xs_gen sess) = Some (out, g')"
    and "length (string_bytes (xs_gen_buf sess)) + length out \<le> 2 ^ 31"
  obtains sess' where "xml_deliver al L cs sess = r_return (sess', None)" "advanced p sess g' out sess'"
    "cflag (xs_bits sess') p"
  using assms unfolding element_ok_def by blast

lemma children_inside:
  assumes "\<forall>t \<in> set ts. element_ok al L t" and "map xc_event cs = concat (map events ts)" and "ready p sess"
    and "0 < p" and "\<forall>t \<in> set ts. p + height t \<le> 127"
    and "gen_run L (children_ops (cflag (xs_bits sess) p) ts) (xs_gen sess) = Some (out, g')"
    and "length (string_bytes (xs_gen_buf sess)) + length out \<le> 2 ^ 31"
  shows "\<exists>sess'. xml_deliver al L cs sess = r_return (sess', None) \<and> advanced p sess g' out sess' \<and>
    (cflag (xs_bits sess') p \<longleftrightarrow> cflag (xs_bits sess) p \<or> ts \<noteq> [])"
  using assms
proof (induction ts arbitrary: cs sess out)
  case Nil
  then show ?case by (auto intro!: advanced_refl)
next
  case (Cons t ts)
  from Cons.prems(2) obtain cs1 cs2 where cs: "cs = cs1 @ cs2" "map xc_event cs1 = events t"
    "map xc_event cs2 = concat (map events ts)" by (auto simp: map_eq_append_conv)
  from Cons.prems(6) obtain out1 g1 out2
    where run1: "gen_run L (sep_ops (cflag (xs_bits sess) p) @ body_ops t) (xs_gen sess) = Some (out1, g1)"
      and run2: "gen_run L (children_ops True ts) g1 = Some (out2, g')" and out: "out = out1 @ out2"
    by (auto simp: append_assoc [symmetric] simp del: append_assoc elim: gen_run_appendE)
  obtain s1 where s1: "xml_deliver al L cs1 sess = r_return (s1, None)" "advanced p sess g1 out1 s1" "cflag (xs_bits s1) p"
    by (rule element_okD [OF _ cs(2) Cons.prems(3,4) _ run1]) (use Cons.prems(1,5,7) out in auto)
  note a1 = advancedD [OF s1(2)]
  have "\<exists>s2. xml_deliver al L cs2 s1 = r_return (s2, None) \<and> advanced p s1 g' out2 s2 \<and>
      (cflag (xs_bits s2) p \<longleftrightarrow> cflag (xs_bits s1) p \<or> ts \<noteq> [])"
    using Cons.prems a1 run2 out s1(3) cs(3) by (intro Cons.IH) simp_all
  with s1 show ?case
    using xml_deliver_append [OF s1(1), of cs2] advanced_trans [OF s1(2)] cs(1) out by fastforce
qed

text \<open>The content of an element that has just been opened at depth \<open>q\<close>.\<close>

lemma content_inside:
  assumes al: "\<And>k. al_ok al k" and ts: "\<forall>t \<in> set ts. element_ok al L t"
    and cs: "map xc_event cs = text_events content @ concat (map events ts)" and r: "ready q sess"
    and q: "0 < q" "q \<le> 127" "\<forall>t \<in> set ts. q + height t \<le> 127"
    and flags: "\<not> tflag (xs_bits sess) q" "\<not> cflag (xs_bits sess) q"
    and run: "gen_run L (text_ops content @ children_ops False ts) (xs_gen sess) = Some (out, g')"
    and fits: "length (string_bytes (xs_gen_buf sess)) + length out \<le> 2 ^ 31"
  shows "\<exists>sess'. xml_deliver al L cs sess = r_return (sess', None) \<and> advanced q sess g' out sess' \<and>
    (cflag (xs_bits sess') q \<longleftrightarrow> ts \<noteq> [])"
proof -
  from cs obtain cs1 cs2 where c: "cs = cs1 @ cs2" "map xc_event cs1 = text_events content"
    "map xc_event cs2 = concat (map events ts)" by (auto simp: map_eq_append_conv)
  obtain out1 g1 out2 where run1: "gen_run L (text_ops content) (xs_gen sess) = Some (out1, g1)"
    and run2: "gen_run L (children_ops False ts) g1 = Some (out2, g')" and out: "out = out1 @ out2"
    using run by (rule gen_run_appendE)
  have "\<exists>s1. xml_deliver al L cs1 sess = r_return (s1, None) \<and> advanced (Suc q) sess g1 out1 s1"
  proof (cases content)
    case None
    with c(2) run1 show ?thesis by (auto simp: text_events_def text_ops_def intro: advanced_refl [OF r])
  next
    case (Some d)
    with c(2) obtain e where e: "cs1 = [e]" "xc_event e = Character_data d" by (auto simp: text_events_def)
    from Some run1 have run1': "gen_run L [Gen_string ''text'', Gen_string d] (xs_gen sess) = Some (out1, g1)"
      by (simp add: text_ops_def)
    obtain b v where "zz_parse_xml_character_data al L (xc_where e) d sess = r_return (sess\<lparr>xs_gen := g1, xs_gen_buf := b, xs_bits := v\<rparr>)"
      "string_ok b" "string_bytes b = string_bytes (xs_gen_buf sess) @ out1" "length v = 32"
      "\<forall>r \<le> 127. cflag v r = cflag (xs_bits sess) r"
      using text_first [OF al r q(2) flags run1', of "xc_where e"] fits out by auto
    moreover have "\<not> xs_stopped sess" using r by (simp add: ready_def)
    ultimately show ?thesis using e q(2) by (auto simp: xml_handler_def intro!: advancedI)
  qed
  then obtain s1 where s1: "xml_deliver al L cs1 sess = r_return (s1, None)" "advanced (Suc q) sess g1 out1 s1" by blast
  note a1 = advancedD [OF s1(2)]
  have s1q: "advanced q sess g1 out1 s1" using s1(2) by (rule advanced_mono) simp
  have "\<exists>s2. xml_deliver al L cs2 s1 = r_return (s2, None) \<and> advanced q s1 g' out2 s2 \<and>
      (cflag (xs_bits s2) q \<longleftrightarrow> cflag (xs_bits s1) q \<or> ts \<noteq> [])"
    using ts c(3) r q a1 flags run2 fits out by (intro children_inside) simp_all
  then show ?thesis
    using xml_deliver_append [OF s1(1), of cs2] advanced_trans [OF s1q] c(1) out a1(4) [of q] flags(2) by fastforce
qed

lemma map_framed:
  assumes "map f cs = [x] @ ys @ [z]"
  obtains c cs1 d where "cs = [c] @ cs1 @ [d]" "f c = x" "map f cs1 = ys" "f d = z"
  using assms by (auto simp: map_eq_Cons_conv map_eq_append_conv)

text \<open>From the start tag to the end of an element inside another one.\<close>

lemma finish_inside:
  assumes al: "\<And>k. al_ok al k" and ts: "\<forall>t \<in> set ts. element_ok al L t"
    and cs: "map xc_event cs = text_events content @ concat (map events ts)" and d: "xc_event d = End_element tag"
    and r: "ready (Suc p) sess" and p: "0 < p" "p < 127" "\<forall>t \<in> set ts. Suc p + height t \<le> 127"
    and flags: "\<not> tflag (xs_bits sess) (Suc p)" "\<not> cflag (xs_bits sess) (Suc p)"
    and run: "gen_run L ((text_ops content @ children_ops False ts) @ close_ops (ts \<noteq> [])) (xs_gen sess) = Some (out, g')"
    and fits: "length (string_bytes (xs_gen_buf sess)) + length out \<le> 2 ^ 31"
  shows "\<exists>sess'. xml_deliver al L (cs @ [d]) sess = r_return (sess'\<lparr>xs_stack_pos := of_nat p\<rparr>, None) \<and>
    advanced (Suc p) sess g' out sess'"
proof -
  obtain out1 g1 out2 where run1: "gen_run L (text_ops content @ children_ops False ts) (xs_gen sess) = Some (out1, g1)"
    and run2: "gen_run L (close_ops (ts \<noteq> [])) g1 = Some (out2, g')" and out: "out = out1 @ out2"
    using run by (rule gen_run_appendE)
  have "\<exists>s1. xml_deliver al L cs sess = r_return (s1, None) \<and> advanced (Suc p) sess g1 out1 s1 \<and>
      (cflag (xs_bits s1) (Suc p) \<longleftrightarrow> ts \<noteq> [])"
    by (rule content_inside [OF al ts cs r _ _ p(3) flags run1]) (use p fits out in simp_all)
  then obtain s1 where s1: "xml_deliver al L cs sess = r_return (s1, None)" "advanced (Suc p) sess g1 out1 s1"
    "cflag (xs_bits s1) (Suc p) \<longleftrightarrow> ts \<noteq> []" by blast
  note d1 = advancedD [OF s1(2)]
  have run2': "gen_run L (close_ops (cflag (xs_bits s1) (Suc p))) (xs_gen s1) = Some (out2, g')"
    using run2 s1(3) d1(1) by simp
  have fits2: "length (string_bytes (xs_gen_buf s1)) + length out2 \<le> 2 ^ 31" using fits d1(2) out by simp
  have r1: "ready (Suc p) s1" using r by (rule d1(3))
  obtain b where b: "zz_parse_end_xml_element al L (xc_where d) s1 =
      r_return (s1\<lparr>xs_gen := g', xs_gen_buf := b, xs_stack_pos := of_nat p\<rparr>)" "string_ok b"
    "string_bytes b = string_bytes (xs_gen_buf s1) @ out2"
    using end_inside [OF al r1 p(1,2) run2' fits2] by blast
  have "advanced (Suc p) s1 g' out2 (s1\<lparr>xs_gen := g', xs_gen_buf := b, xs_bits := xs_bits s1\<rparr>)"
    using b r1 by (intro advancedI) (simp_all add: ready_def)
  then have "advanced (Suc p) sess g' out (s1\<lparr>xs_gen := g', xs_gen_buf := b\<rparr>)"
    using advanced_trans [OF s1(2)] out by simp
  moreover have "\<not> xs_stopped s1" using r1 by (simp add: ready_def)
  ultimately show ?thesis
    using xml_deliver_append [OF s1(1), of "[d]"] b(1) d
    by (intro exI [of _ "s1\<lparr>xs_gen := g', xs_gen_buf := b\<rparr>"]) (simp add: xml_handler_def)
qed

lemma element_inside:
  assumes al: "\<And>k. al_ok al k"
  shows "element_ok al L t"
proof (induction t)
  case (Elem tag attrs content ts)
  then have ts: "\<forall>t \<in> set ts. element_ok al L t" by blast
  show ?case
    unfolding element_ok_def
  proof (intro allI impI, goal_cases)
    case (1 p sess cs out g')
    from 1(1) have "map xc_event cs = [Start_element tag attrs] @ (text_events content @ concat (map events ts)) @ [End_element tag]"
      by simp
    then obtain c cs1 d where cs: "cs = [c] @ cs1 @ [d]" "xc_event c = Start_element tag attrs"
      "map xc_event cs1 = text_events content @ concat (map events ts)" "xc_event d = End_element tag"
      by (rule map_framed)
    from 1(5) have "gen_run L ((sep_ops (cflag (xs_bits sess) p) @ head_ops tag attrs) @
        ((text_ops content @ children_ops False ts) @ close_ops (ts \<noteq> []))) (xs_gen sess) = Some (out, g')" by simp
    then obtain out1 g1 out2 where
      run1: "gen_run L (sep_ops (cflag (xs_bits sess) p) @ head_ops tag attrs) (xs_gen sess) = Some (out1, g1)"
      and run2: "gen_run L ((text_ops content @ children_ops False ts) @ close_ops (ts \<noteq> [])) g1 = Some (out2, g')"
      and out: "out = out1 @ out2" by (rule gen_run_appendE)
    have p: "p < 127" "\<forall>t \<in> set ts. Suc p + height t \<le> 127" using 1(4) height_child [of _ ts 0] by fastforce+
    obtain b v where s1: "zz_parse_start_xml_element al L (xc_where c) tag attrs sess =
        r_return (sess\<lparr>xs_gen := g1, xs_gen_buf := b, xs_bits := v, xs_stack_pos := of_nat (Suc p)\<rparr>)"
      "string_ok b" "string_bytes b = string_bytes (xs_gen_buf sess) @ out1" "length v = 32" "cflag v p"
      "\<not> tflag v (Suc p)" "\<not> cflag v (Suc p)" "\<forall>r < p. cflag v r = cflag (xs_bits sess) r"
      using start_inside [OF al 1(2,3) p(1) run1, of "xc_where c"] 1(6) out by auto
    define a1 where "a1 = sess\<lparr>xs_gen := g1, xs_gen_buf := b, xs_bits := v, xs_stack_pos := of_nat (Suc p)\<rparr>"
    have ra: "ready (Suc p) a1" using 1(2) s1(2,4) by (simp add: a1_def ready_def)
    have "\<exists>s2. xml_deliver al L (cs1 @ [d]) a1 = r_return (s2\<lparr>xs_stack_pos := of_nat p\<rparr>, None) \<and> advanced (Suc p) a1 g' out2 s2"
      by (rule finish_inside [OF al ts cs(3,4) ra 1(3) p]) (use s1 run2 1(6) out in \<open>simp_all add: a1_def\<close>)
    then obtain b2 v2 where s2: "xml_deliver al L (cs1 @ [d]) a1 =
        r_return (a1\<lparr>xs_gen := g', xs_gen_buf := b2, xs_bits := v2\<rparr>\<lparr>xs_stack_pos := of_nat p\<rparr>, None)"
      "string_ok b2" "string_bytes b2 = string_bytes b @ out2" "length v2 = 32" "\<forall>r < Suc p. cflag v2 r = cflag v r"
      by (auto simp: advanced_def a1_def)
    have "a1\<lparr>xs_gen := g', xs_gen_buf := b2, xs_bits := v2\<rparr>\<lparr>xs_stack_pos := of_nat p\<rparr> =
        sess\<lparr>xs_gen := g', xs_gen_buf := b2, xs_bits := v2\<rparr>" using 1(2) by (simp add: a1_def ready_def)
    then have "xml_deliver al L cs sess = r_return (sess\<lparr>xs_gen := g', xs_gen_buf := b2, xs_bits := v2\<rparr>, None)"
      using cs(1,2) s1(1) s2(1) 1(2) by (simp add: xml_handler_def a1_def ready_def)
    moreover have "advanced p sess g' out (sess\<lparr>xs_gen := g', xs_gen_buf := b2, xs_bits := v2\<rparr>)"
      using s1 s2 out by (intro advancedI) simp_all
    ultimately show ?case using s1(5) s2(5) by (intro exI) auto
  qed
qed

section \<open>A whole document\<close>

text \<open>The calls and the output of a document: its start tag, what is inside, and its end tag.\<close>

lemma root_parts:
  assumes "map xc_event cs = events (Elem tag attrs content ts)" and "gen_run L (json_ops (Elem tag attrs content ts)) g = Some (out, g')"
  obtains c cs1 d out1 g1 out2 g2 out3
  where "cs = [c] @ cs1 @ [d]" "xc_event c = Start_element tag attrs"
    "map xc_event cs1 = text_events content @ concat (map events ts)" "xc_event d = End_element tag"
    "gen_run L (head_ops tag attrs) g = Some (out1, g1)" "gen_run L (text_ops content @ children_ops False ts) g1 = Some (out2, g2)"
    "gen_run L (close_ops (ts \<noteq> []) @ [Gen_map_close]) g2 = Some (out3, g')" "out = out1 @ out2 @ out3"
proof -
  have "map xc_event cs = [Start_element tag attrs] @ (text_events content @ concat (map events ts)) @ [End_element tag]"
    using assms(1) by simp
  then obtain c cs1 d where c: "cs = [c] @ cs1 @ [d]" "xc_event c = Start_element tag attrs"
    "map xc_event cs1 = text_events content @ concat (map events ts)" "xc_event d = End_element tag"
    by (rule map_framed)
  have "gen_run L (head_ops tag attrs @ ((text_ops content @ children_ops False ts) @
      (close_ops (ts \<noteq> []) @ [Gen_map_close]))) g = Some (out, g')"
    using assms(2) by (simp add: json_ops_body del: json_ops.simps)
  then obtain out1 g1 out23 where run1: "gen_run L (head_ops tag attrs) g = Some (out1, g1)"
    and run23: "gen_run L ((text_ops content @ children_ops False ts) @ (close_ops (ts \<noteq> []) @ [Gen_map_close])) g1 = Some (out23, g')"
    and out: "out = out1 @ out23" by (rule gen_run_appendE)
  from run23 obtain out2 g2 out3 where "gen_run L (text_ops content @ children_ops False ts) g1 = Some (out2, g2)"
    "gen_run L (close_ops (ts \<noteq> []) @ [Gen_map_close]) g2 = Some (out3, g')" "out23 = out2 @ out3" by (rule gen_run_appendE)
  with that [OF c run1] out show thesis by simp
qed

lemma document_root:
  assumes al: "\<And>k. al_ok al k" and cs: "map xc_event cs = events t" and r: "ready 0 sess" and h: "height t \<le> 127"
    and run: "gen_run L (json_ops t) (xs_gen sess) = Some (out, g')"
    and fits: "length (string_bytes (xs_gen_buf sess)) + length out \<le> 2 ^ 31"
    and msgs: "kma_ok (zs_kafka_msgs sess)" "kma_room (zs_kafka_msgs sess) 1"
  shows "\<exists>b v a. xml_deliver al L (cs @ rest) sess =
      r_return (sess\<lparr>xs_gen := yajl_gen_reset L g', xs_gen_buf := b, xs_bits := v, zs_kafka_msgs := a,
        xs_last_open_map := NO_JSON_LAST_OPEN_MAP, xs_stopped := True\<rparr>, Some (xc_stop_byte (last cs))) \<and>
    string_ok b \<and> string_bytes b = string_bytes (xs_gen_buf sess) @ out \<and> length v = 32 \<and> kma_ok a \<and>
    kma_msgs a = kma_msgs (zs_kafka_msgs sess) @ [document_msg (length (string_bytes (xs_gen_buf sess))) (length out)]"
proof (cases t)
  case (Elem tag attrs content ts)
  let ?n = "length (string_bytes (xs_gen_buf sess))"
  obtain c cs1 d out1 g1 out2 g2 out3
    where c: "cs = [c] @ cs1 @ [d]" "xc_event c = Start_element tag attrs"
      "map xc_event cs1 = text_events content @ concat (map events ts)" "xc_event d = End_element tag"
      and run1: "gen_run L (head_ops tag attrs) (xs_gen sess) = Some (out1, g1)"
      and run2: "gen_run L (text_ops content @ children_ops False ts) g1 = Some (out2, g2)"
      and run3: "gen_run L (close_ops (ts \<noteq> []) @ [Gen_map_close]) g2 = Some (out3, g')" and out: "out = out1 @ out2 @ out3"
    using root_parts [OF cs [unfolded Elem] run [unfolded Elem]] by blast
  obtain b v where s1: "zz_parse_start_xml_element al L (xc_where c) tag attrs sess =
      r_return (sess\<lparr>xs_gen := g1, xs_gen_buf := b, xs_bits := v, xs_stack_pos := 1, xs_last_open_map := int ?n\<rparr>)"
    "string_ok b" "string_bytes b = string_bytes (xs_gen_buf sess) @ out1" "length v = 32" "\<not> tflag v 1" "\<not> cflag v 1"
    using start_root [OF al r run1, of "xc_where c"] fits out by auto
  define a1 where "a1 = sess\<lparr>xs_gen := g1, xs_gen_buf := b, xs_bits := v, xs_stack_pos := 1, xs_last_open_map := int ?n\<rparr>"
  have ra: "ready 1 a1" using r s1(2,4) by (simp add: a1_def ready_def)
  have els: "\<forall>t \<in> set ts. element_ok al L t" using element_inside [OF al] by blast
  have hs: "\<forall>t \<in> set ts. 1 + height t \<le> 127" using h Elem height_child [of _ ts 0] by fastforce
  have "\<exists>s2. xml_deliver al L cs1 a1 = r_return (s2, None) \<and> advanced 1 a1 g2 out2 s2 \<and> (cflag (xs_bits s2) 1 \<longleftrightarrow> ts \<noteq> [])"
    by (rule content_inside [OF al els c(3) ra _ _ hs]) (use s1 run2 fits out in \<open>simp_all add: a1_def\<close>)
  then obtain s2 where s2: "xml_deliver al L cs1 a1 = r_return (s2, None)" "advanced 1 a1 g2 out2 s2"
    "cflag (xs_bits s2) 1 \<longleftrightarrow> ts \<noteq> []" by blast
  then obtain b2 v2 where v2: "s2 = a1\<lparr>xs_gen := g2, xs_gen_buf := b2, xs_bits := v2\<rparr>" "length v2 = 32"
    "string_bytes b2 = string_bytes b @ out2" by (auto simp: advanced_def a1_def)
  have run3': "gen_run L (close_ops (cflag (xs_bits s2) 1) @ [Gen_map_close]) (xs_gen s2) = Some (out3, g')"
    using run3 s2(3) v2(1) by simp
  have r2: "ready 1 s2" using s2(2) ra by (rule advancedD(3))
  obtain b3 a where s3: "zz_parse_end_xml_element al L (xc_where d) s2 =
      r_return (s2\<lparr>xs_gen := yajl_gen_reset L g', xs_gen_buf := b3, xs_stack_pos := 0, zs_kafka_msgs := a,
        xs_last_open_map := NO_JSON_LAST_OPEN_MAP, xs_stopped := True\<rparr>)" "string_ok b3"
    "string_bytes b3 = string_bytes b2 @ out3" "kma_ok a"
    "kma_msgs a = kma_msgs (zs_kafka_msgs sess) @ [document_msg ?n (length (string_bytes b3) - ?n)]"
    using end_root [OF al r2 run3', of ?n "xc_where d"] v2 s1(3) fits out msgs by (auto simp: a1_def)
  have "xml_deliver al L (cs @ rest) sess =
      r_return (s2\<lparr>xs_gen := yajl_gen_reset L g', xs_gen_buf := b3, xs_stack_pos := 0, zs_kafka_msgs := a,
        xs_last_open_map := NO_JSON_LAST_OPEN_MAP, xs_stopped := True\<rparr>, Some (xc_stop_byte d))"
    using c(1,2,4) s1(1) s3(1) r xml_deliver_append [OF s2(1), of "d # rest"]
    by (simp add: xml_handler_def a1_def ready_def)
  then show ?thesis
    using c(1) v2 r s1(3) s3 out by (intro exI [of _ b3] exI [of _ v2] exI [of _ a]) (simp add: a1_def ready_def)
qed

section \<open>A chunk of documents\<close>

text \<open>
  What expat does with a chunk that holds the given documents one after the other: at each it reports
  the callbacks of the document and, when the handler stops it at the end, the offset behind it. What is
  left of the chunk then, and the parser's state there, are the last arguments.
\<close>

fun documents :: "('x, 'g) xml_lib \<Rightarrow> 'x \<Rightarrow> bytes \<Rightarrow> xml_tree list \<Rightarrow> 'x \<Rightarrow> bytes \<Rightarrow> bool" where
  "documents L x buf [] x' rest \<longleftrightarrow> x' = x \<and> rest = buf"
| "documents L x buf (t # ts) x' rest \<longleftrightarrow>
     (let feed = xml_parse L x buf;
          cs = take (length (events t)) (xf_callbacks feed);
          off = xc_stop_byte (last cs)
      in map xc_event cs = events t \<and> height t \<le> 127 \<and> 0 < off \<and> off \<le> int (length buf) \<and>
         documents L (xml_parser_reset L (xf_parser feed)) (drop (nat off) buf) ts x' rest)"

text \<open>The JSON text of the documents, the generator being reset after each.\<close>

fun renders :: "('x, 'g) xml_lib \<Rightarrow> 'g \<Rightarrow> xml_tree list \<Rightarrow> bytes list option" where
  "renders L g [] = Some []"
| "renders L g (t # ts) =
     (case gen_run L (json_ops t) g of
        None \<Rightarrow> None
      | Some (out, g1) \<Rightarrow> map_option ((#) out) (renders L (yajl_gen_reset L g1) ts))"

fun document_msgs :: "nat \<Rightarrow> bytes list \<Rightarrow> rd_kafka_message list" where
  "document_msgs off [] = []"
| "document_msgs off (out # outs) = document_msg off (length out) # document_msgs (off + length out) outs"

text \<open>The session after the documents \<open>outs\<close> were rendered, from the session before.\<close>

definition rendered :: "('x, 'g) zz_xml_session \<Rightarrow> 'x \<Rightarrow> bytes list \<Rightarrow> ('x, 'g) zz_xml_session \<Rightarrow> bool" where
  "rendered sess x' outs sess' \<longleftrightarrow> ready 0 sess' \<and> xs_expat sess' = x' \<and> xs_rc sess' = xs_rc sess \<and>
     zs_http_response sess' = zs_http_response sess \<and>
     string_bytes (xs_gen_buf sess') = string_bytes (xs_gen_buf sess) @ concat outs \<and> kma_ok (zs_kafka_msgs sess') \<and>
     kma_msgs (zs_kafka_msgs sess') =
       kma_msgs (zs_kafka_msgs sess) @ document_msgs (length (string_bytes (xs_gen_buf sess))) outs"

lemma process_xml_documents:
  assumes al: "\<And>k. al_ok al k"
  shows "ready 0 sess \<Longrightarrow> documents L (xs_expat sess) buf ts x' rest \<Longrightarrow> renders L (xs_gen sess) ts = Some outs \<Longrightarrow>
    length (string_bytes (xs_gen_buf sess)) + length (concat outs) \<le> 2 ^ 31 \<Longrightarrow>
    kma_ok (zs_kafka_msgs sess) \<Longrightarrow> kma_room (zs_kafka_msgs sess) (length ts) \<Longrightarrow>
    \<exists>sess'. process_xml_loop al L buf sess = process_xml_loop al L rest sess' \<and> rendered sess x' outs sess'"
proof (induction ts arbitrary: buf sess outs)
  case Nil
  then show ?case by (auto simp: rendered_def)
next
  case (Cons t ts)
  define feed where "feed = xml_parse L (xs_expat sess) buf"
  define cs where "cs = take (length (events t)) (xf_callbacks feed)"
  define off where "off = xc_stop_byte (last cs)"
  from Cons.prems(2) have doc: "map xc_event cs = events t" "height t \<le> 127" "0 < off" "off \<le> int (length buf)"
    and rest: "documents L (xml_parser_reset L (xf_parser feed)) (drop (nat off) buf) ts x' rest"
    by (simp_all add: feed_def cs_def off_def Let_def)
  from Cons.prems(3) obtain out g1 outs' where run: "gen_run L (json_ops t) (xs_gen sess) = Some (out, g1)"
    "renders L (yajl_gen_reset L g1) ts = Some outs'" "outs = out # outs'" by (auto split: option.splits)
  let ?s0 = "sess\<lparr>xs_expat := xf_parser feed\<rparr>"
  obtain b v a where d: "xml_deliver al L (cs @ drop (length (events t)) (xf_callbacks feed)) ?s0 =
      r_return (?s0\<lparr>xs_gen := yajl_gen_reset L g1, xs_gen_buf := b, xs_bits := v, zs_kafka_msgs := a,
        xs_last_open_map := NO_JSON_LAST_OPEN_MAP, xs_stopped := True\<rparr>, Some off)"
    "string_ok b" "string_bytes b = string_bytes (xs_gen_buf sess) @ out" "length v = 32" "kma_ok a"
    "kma_msgs a = kma_msgs (zs_kafka_msgs sess) @ [document_msg (length (string_bytes (xs_gen_buf sess))) (length out)]"
    using document_root [OF al doc(1) _ doc(2), of ?s0 L out g1] Cons.prems(1,4,5,6) run
    by (fastforce simp: ready_def kma_room_def off_def)
  define s1 where "s1 = ?s0\<lparr>xs_gen := yajl_gen_reset L g1, xs_gen_buf := b, xs_bits := v, zs_kafka_msgs := a,
    xs_last_open_map := NO_JSON_LAST_OPEN_MAP, xs_stopped := True\<rparr>"
  define s2 where "s2 = zz_reset_xml_handler L True s1"
  have step: "process_xml_loop al L buf sess = process_xml_loop al L (drop (nat off) buf) s2"
    using Cons.prems(1) doc(3,4) d(1)
    by (subst process_xml_loop.simps) (auto simp: XML_Parse_def feed_def [symmetric] cs_def s1_def s2_def ready_def)
  have s2: "ready 0 s2" "xs_expat s2 = xml_parser_reset L (xf_parser feed)" "xs_gen s2 = yajl_gen_reset L g1" "xs_gen_buf s2 = b"
    "zs_kafka_msgs s2 = a" "xs_rc s2 = xs_rc sess" "zs_http_response s2 = zs_http_response sess"
    using Cons.prems(1) d by (simp_all add: s2_def s1_def zz_reset_xml_handler_def ready_def)
  then obtain s' where "process_xml_loop al L (drop (nat off) buf) s2 = process_xml_loop al L rest s'" "rendered s2 x' outs' s'"
    using Cons.IH [of s2 "drop (nat off) buf" outs'] rest run d Cons.prems(4,6) by (auto simp: kma_room_def)
  then show ?case using step s2 d(3,6) run(3) by (auto simp: rendered_def)
qed

text \<open>The bytes of the messages, once their offsets have been turned into addresses.\<close>

lemma document_msgs_bytes:
  assumes "length pre + length (concat outs) \<le> 2 ^ 31"
  shows "map (msg_bytes base (pre @ concat outs)) (map (sum_payload_offset base) (document_msgs (length pre) outs)) = outs"
  using assms
proof (induction outs arbitrary: pre)
  case (Cons out outs)
  have "msg_bytes base (pre @ out @ concat outs) (sum_payload_offset base (document_msg (length pre) (length out))) = out"
    using Cons.prems unat_of_nat_fits [of "length pre"] unat_of_nat_fits [of "length out"]
    by (simp add: msg_bytes_def sum_payload_offset_def document_msg_def)
  with Cons.IH [of "pre @ out"] Cons.prems show ?case by simp
qed simp

lemma document_msgs_Nil [simp]: "document_msgs off outs = [] \<longleftrightarrow> outs = []"
  by (cases outs) simp_all

lemma renders_length: "renders L g ts = Some outs \<Longrightarrow> length outs = length ts"
  by (induction ts arbitrary: g outs) (auto split: option.splits)

text \<open>What the end of a chunk hands over.\<close>

lemma finish_xml_chunk:
  assumes loop: "process_xml_loop al L buf sess = r_return sess1" and ok: "kma_ok (zs_kafka_msgs sess1)"
    and msgs: "kma_msgs (zs_kafka_msgs sess1) = document_msgs 0 outs" "outs \<noteq> []"
    and bytes: "string_bytes (xs_gen_buf sess1) = concat outs" "length (concat outs) \<le> 2 ^ 31"
  shows "\<exists>a base. process_xml_buffer al L buf_addr buf sess =
      r_return (xs_rc sess1, sess1\<lparr>zs_kafka_msgs := a, xs_gen_buf := N2K_STRING_INITIALIZER\<rparr>, concat outs) \<and>
    kma_ok a \<and> map_option payload_buffer (kma_internal a) = Some base \<and>
    map (msg_bytes base (concat outs)) (kma_msgs a) = outs"
proof -
  let ?base = "if str_buf (xs_gen_buf sess1) = None then 0 else buf_addr"
  obtain k where k: "kma_internal (zs_kafka_msgs sess1) = Some k" "msgs k = document_msgs 0 outs"
    using msgs document_msgs_Nil [of 0 outs] by (cases "kma_internal (zs_kafka_msgs sess1)") (auto simp: kma_msgs_def)
  note kk = kma_ok_SomeD [OF ok k(1)]
  have size: "kafka_message_array_size (zs_kafka_msgs sess1) = Inr (karray_count k)"
    using k(1) kk(4) by (simp add: kafka_message_array_size_def)
  let ?k = "k\<lparr>payload_buffer := ?base, msgs := map (sum_payload_offset ?base) (msgs k)\<rparr>"
  let ?a = "zs_kafka_msgs sess1\<lparr>kma_internal := Some ?k\<rparr>"
  have set: "kafka_message_array_set_payload_buffer0 (zs_kafka_msgs sess1) ?base True = Inr ?a"
    using k(1) kk(2) size by (simp add: kafka_message_array_set_payload_buffer0_def)
  have "kma_ok ?a" using ok k(1) kk by (simp add: kma_ok_def)
  moreover have "map (msg_bytes ?base (concat outs)) (kma_msgs ?a) = outs"
    using document_msgs_bytes [of "[]" outs ?base] bytes(2) k(2) by (simp add: kma_msgs_def del: map_map)
  moreover have "process_xml_buffer al L buf_addr buf sess =
      r_return (xs_rc sess1, sess1\<lparr>zs_kafka_msgs := ?a, xs_gen_buf := N2K_STRING_INITIALIZER\<rparr>, concat outs)"
    using loop size kk(5) set bytes(1) by (simp add: process_xml_buffer_def run_r_def)
  ultimately show ?thesis by (intro exI [of _ ?a] exI [of _ ?base]) simp
qed

text \<open>Text after the first piece of an element goes into the last string that was generated.\<close>

lemma text_continued:
  assumes "ready p sess" and "p \<le> 127" and "tflag (xs_bits sess) p"
    and "yajl_temp_string L d = Some (yajl_gen_status_ok, CHR 34 # rest)"
    and "string_bytes (xs_gen_buf sess) = pre @ [c]" and "\<And>k. al_ok al k" and "length pre + length rest \<le> 2 ^ 31"
  shows "\<exists>b. zz_parse_xml_character_data al L w d sess = r_return (sess\<lparr>xs_gen_buf := b\<rparr>) \<and> string_ok b \<and>
    string_bytes b = pre @ rest"
proof -
  have ok: "string_ok (xs_gen_buf sess)" and pos: "xs_stack_pos sess = of_nat p" and len: "length (xs_bits sess) = 32"
    using assms(1) by (simp_all add: ready_def)
  obtain s1 where s1: "string_pop_back (xs_gen_buf sess) = Inr s1" "string_ok s1" "string_bytes s1 = pre" "unat (str_size s1) = length pre"
    using string_pop_back_spec [OF ok assms(5)] by blast
  obtain rc b where app: "string_append al s1 rest = (rc, b)" by fastforce
  have fits: "string_fits s1 (length rest)" using s1(4) assms(7) by (simp add: string_fits_def)
  have "rc = 0" using string_append_granted [OF s1(2) fits assms(6)] app by simp
  then have "string_ok b" "string_bytes b = pre @ rest" using string_append_spec [OF s1(2) fits app] s1(3) by auto
  then show ?thesis
    using frame_test [OF len assms(2)] assms(3,4) pos s1(1) app
    by (intro exI [of _ b]) (simp add: zz_parse_xml_character_data_def run_r_def)
qed

section \<open>Properties\<close>

text \<open>A session at the start of a chunk, outside every document.\<close>

definition fresh_xml_session :: "('x, 'g) zz_xml_session \<Rightarrow> bool" where
  "fresh_xml_session sess \<longleftrightarrow> xs_stack_pos sess = 0 \<and> length (xs_bits sess) = 32 \<and>
     xs_gen_buf sess = N2K_STRING_INITIALIZER \<and> zs_kafka_msgs sess = KAFKA_MESSAGE_ARRAY_INITIALIZER \<and>
     zs_http_response sess = N2K_STRING_INITIALIZER \<and> \<not> xs_stopped sess"

lemma fresh_ready: "fresh_xml_session sess \<Longrightarrow> ready 0 sess"
  by (simp add: fresh_xml_session_def ready_def string_size_def N2K_STRING_INITIALIZER_def string_ok_def)

text \<open>C4: a chunk that holds complete documents, each of depth at most 127 with its text before its
  children, becomes one message per document, in order, and the bytes of each message are the JSON
  that the recursive description of its tree gives; the response stays empty, and the session is
  outside every document again.\<close>

theorem xml_chunk_documents:
  assumes "fresh_xml_session sess" and "documents L (xs_expat sess) chunk ts x' []"
    and "renders L (xs_gen sess) ts = Some outs" and "length (concat outs) \<le> 2 ^ 31"
    and "16 + 72 * length ts \<le> 2 ^ 31" and "ts \<noteq> []" and "al_ok al = (\<lambda>_. True)"
  shows "\<exists>sess' base. process_xml_buffer al L buf_addr chunk sess = r_return (xs_rc sess, sess', concat outs) \<and>
    kma_ok (zs_kafka_msgs sess') \<and> map_option payload_buffer (kma_internal (zs_kafka_msgs sess')) = Some base \<and>
    map (msg_bytes base (concat outs)) (kma_msgs (zs_kafka_msgs sess')) = outs \<and>
    zs_http_response sess' = N2K_STRING_INITIALIZER \<and> xs_stack_pos sess' = 0 \<and>
    xs_gen_buf sess' = N2K_STRING_INITIALIZER"
proof -
  have al: "al_ok al k" for k using assms(7) by simp
  have s: "string_bytes (xs_gen_buf sess) = []" "zs_kafka_msgs sess = KAFKA_MESSAGE_ARRAY_INITIALIZER"
    "zs_http_response sess = N2K_STRING_INITIALIZER" using assms(1) by (simp_all add: fresh_xml_session_def)
  obtain s1 where s1: "process_xml_loop al L chunk sess = process_xml_loop al L [] s1" "rendered sess x' outs s1"
    using process_xml_documents [OF al fresh_ready [OF assms(1)] assms(2,3)] s assms(4,5) by (auto simp: kma_room_def)
  have "process_xml_loop al L chunk sess = r_return s1" using s1(1) by (simp add: process_xml_loop.simps)
  from finish_xml_chunk [OF this, of outs buf_addr] s1(2) s assms(4,6) renders_length [OF assms(3)]
  show ?thesis by (fastforce simp: rendered_def ready_def)
qed


text \<open>A text callback for an element whose text was already begun drops the closing quote of whatever
  string was generated last and appends the rest of the text there, also when child elements have been
  generated in between: the text after a child ends up inside the child's last string, not under a key
  of its own.\<close>

lemma xml_text_after_child:
  assumes "ready p sess" and "p \<le> 127" and "tflag (xs_bits sess) p" and "cflag (xs_bits sess) p"
    and "yajl_temp_string L d = Some (yajl_gen_status_ok, CHR 34 # rest)"
    and "string_bytes (xs_gen_buf sess) = pre @ [c]" and "al_ok al = (\<lambda>_. True)" and "length pre + length rest \<le> 2 ^ 31"
  shows "\<exists>b. zz_parse_xml_character_data al L w d sess = r_return (sess\<lparr>xs_gen_buf := b\<rparr>) \<and>
    string_bytes b = pre @ rest"
  using text_continued [OF assms(1,2,3,5,6) _ assms(8), of al w] assms(7) by auto

text \<open>A document whose start and end tags arrive in different chunks loses what the first chunk
  generated: the buffer is dropped at the end of each chunk while the stack position and the start offset
  stay, so the message holds only the closing of the object.\<close>

lemma xml_split_document_truncated:
  assumes "fresh_xml_session sess" and "al_ok al = (\<lambda>_. True)" and "c1 \<noteq> []" and "c2 \<noteq> []"
    and "xml_parse L (xs_expat sess) c1 =
      \<lparr>xf_callbacks = [\<lparr>xc_event = Start_element tag attrs, xc_where = w1, xc_stop_byte = n1\<rparr>],
       xf_status = XML_STATUS_OK, xf_where = w1', xf_parser = x1\<rparr>"
    and "xml_parse L x1 c2 =
      \<lparr>xf_callbacks = [\<lparr>xc_event = End_element tag, xc_where = w2, xc_stop_byte = int (length c2)\<rparr>],
       xf_status = XML_STATUS_OK, xf_where = w2', xf_parser = x2\<rparr>"
    and "gen_run L (head_ops tag attrs) (xs_gen sess) = Some (out1, g1)" and "gen_run L [Gen_map_close] g1 = Some (out2, g2)"
    and "length out1 + length out2 \<le> 2 ^ 31"
  shows "\<exists>sess1 sess2 base. process_xml_buffer al L a1 c1 sess = r_return (xs_rc sess, sess1, []) \<and>
    process_xml_buffer al L a2 c2 sess1 = r_return (xs_rc sess, sess2, out2) \<and>
    map (msg_bytes base out2) (kma_msgs (zs_kafka_msgs sess2)) = [out2]"
proof -
  have al: "al_ok al k" for k using assms(2) by simp
  have s: "string_bytes (xs_gen_buf sess) = []" "zs_kafka_msgs sess = KAFKA_MESSAGE_ARRAY_INITIALIZER"
    "zs_http_response sess = N2K_STRING_INITIALIZER" "\<not> xs_stopped sess" using assms(1) by (simp_all add: fresh_xml_session_def)
  have resp: "string_size N2K_STRING_INITIALIZER = 0" by (simp add: string_size_def N2K_STRING_INITIALIZER_def)
  let ?s0 = "sess\<lparr>xs_expat := x1\<rparr>"
  have r0: "ready 0 ?s0" using fresh_ready [OF assms(1)] by (simp add: ready_def)
  obtain b v where st: "zz_parse_start_xml_element al L w1 tag attrs ?s0 =
      r_return (?s0\<lparr>xs_gen := g1, xs_gen_buf := b, xs_bits := v, xs_stack_pos := 1, xs_last_open_map := 0\<rparr>)"
    "length v = 32" "\<not> cflag v 1"
    using start_root [OF al r0, of L tag attrs out1 g1 w1] assms(7,9) s(1) by auto
  define sess1 where "sess1 = ?s0\<lparr>xs_gen := g1, xs_gen_buf := N2K_STRING_INITIALIZER, xs_bits := v, xs_stack_pos := 1, xs_last_open_map := 0\<rparr>"
  have chunk1: "process_xml_buffer al L a1 c1 sess = r_return (xs_rc sess, sess1, [])"
    using assms(3,5) st(1) s resp unfolding process_xml_buffer_def
    by (subst process_xml_loop.simps)
      (simp add: XML_Parse_def xml_handler_def run_r_def kafka_message_array_size_def KAFKA_MESSAGE_ARRAY_INITIALIZER_def sess1_def)
  let ?t0 = "sess1\<lparr>xs_expat := x2\<rparr>"
  have r1: "ready 1 ?t0" using st(2) s resp by (simp add: sess1_def ready_def)
  obtain b2 a where e: "zz_parse_end_xml_element al L w2 ?t0 =
      r_return (?t0\<lparr>xs_gen := yajl_gen_reset L g2, xs_gen_buf := b2, xs_stack_pos := 0, zs_kafka_msgs := a,
        xs_last_open_map := NO_JSON_LAST_OPEN_MAP, xs_stopped := True\<rparr>)"
    "string_bytes b2 = out2" "kma_ok a" "kma_msgs a = [document_msg 0 (length out2)]"
    using end_root [OF al r1, of L out2 g2 0 w2] st(3) assms(8,9) s(2) by (auto simp: sess1_def close_ops_def kma_room_def)
  define t1 where "t1 = zz_reset_xml_handler L True (?t0\<lparr>xs_gen := yajl_gen_reset L g2, xs_gen_buf := b2, xs_stack_pos := 0,
    zs_kafka_msgs := a, xs_last_open_map := NO_JSON_LAST_OPEN_MAP, xs_stopped := True\<rparr>)"
  have "process_xml_loop al L c2 sess1 = process_xml_loop al L [] t1"
    using assms(4,6) e(1) s resp
    by (subst process_xml_loop.simps) (simp add: XML_Parse_def xml_handler_def sess1_def t1_def)
  then have "process_xml_loop al L c2 sess1 = r_return t1" by (simp add: process_xml_loop.simps [of al L "[]"])
  moreover have "kma_ok (zs_kafka_msgs t1)" "kma_msgs (zs_kafka_msgs t1) = document_msgs 0 [out2]"
    "string_bytes (xs_gen_buf t1) = concat [out2]" "xs_rc t1 = xs_rc sess"
    using e by (simp_all add: t1_def zz_reset_xml_handler_def sess1_def)
  ultimately show ?thesis
    using finish_xml_chunk [of al L c2 sess1 t1 "[out2]" a2] chunk1 assms(9) by fastforce
qed

section \<open>Example libraries\<close>

text \<open>A generator that prints JSON without spaces, with the number of things printed at each level.\<close>

datatype gen_level = In_map nat | In_array nat

fun gen_prefix :: "gen_level list \<Rightarrow> bytes" where
  "gen_prefix (In_map n # _) = (if odd n then '':'' else if n = 0 then [] else '','')"
| "gen_prefix (In_array n # _) = (if n = 0 then [] else '','')"
| "gen_prefix [] = []"

fun gen_count :: "gen_level list \<Rightarrow> gen_level list" where
  "gen_count (In_map n # g) = In_map (Suc n) # g"
| "gen_count (In_array n # g) = In_array (Suc n) # g"
| "gen_count [] = []"

fun plain_gen :: "gen_op \<Rightarrow> gen_level list \<Rightarrow> yajl_gen_status \<times> bytes list \<times> gen_level list" where
  "plain_gen (Gen_string s) g = (yajl_gen_status_ok, [gen_prefix g, [CHR 34] @ s @ [CHR 34]], gen_count g)"
| "plain_gen Gen_map_open g = (yajl_gen_status_ok, [gen_prefix g, ''{''], In_map 0 # gen_count g)"
| "plain_gen Gen_map_close g = (yajl_gen_status_ok, [''}''], tl g)"
| "plain_gen Gen_array_open g = (yajl_gen_status_ok, [gen_prefix g, ''[''], In_array 0 # gen_count g)"
| "plain_gen Gen_array_close g = (yajl_gen_status_ok, ['']''], tl g)"

definition plain_lib :: "(bytes \<Rightarrow> unit xml_feed) \<Rightarrow> (unit, gen_level list) xml_lib" where
  "plain_lib parse = \<lparr>xml_parse = (\<lambda>_. parse), xml_parser_reset = (\<lambda>x. x), xml_error_string = (\<lambda>_. ''syntax error''),
     yajl_gen_call = plain_gen, yajl_gen_reset = (\<lambda>_. []),
     yajl_temp_string = (\<lambda>d. Some (yajl_gen_status_ok, [CHR 34] @ d @ [CHR 34]))\<rparr>"

definition no_where :: xml_where where
  "no_where = \<lparr>xw_error = XML_ERROR_NONE, xw_line = 1, xw_column = 0, xw_byte = 0\<rparr>"

definition feed_of :: "xml_event list \<Rightarrow> nat \<Rightarrow> unit xml_feed" where
  "feed_of evs off = \<lparr>xf_callbacks = map (\<lambda>e. \<lparr>xc_event = e, xc_where = no_where, xc_stop_byte = int off\<rparr>) evs,
     xf_status = XML_STATUS_OK, xf_where = no_where, xf_parser = ()\<rparr>"

definition empty_xml_session :: "(unit, gen_level list) zz_xml_session" where
  "empty_xml_session = \<lparr>zs_topic_handler = 0, zs_kafka_msgs = KAFKA_MESSAGE_ARRAY_INITIALIZER,
     zs_last_warning = \<lparr>produce_error_last_time = replicate 4 0\<rparr>, zs_messages_sent = 0, zs_http_response = N2K_STRING_INITIALIZER,
     xs_gen_buf = N2K_STRING_INITIALIZER, xs_last_open_map = NO_JSON_LAST_OPEN_MAP, xs_stack_pos = 0,
     xs_bits = replicate 32 0, xs_expat = (), xs_gen = [], xs_rc = DECODER_CALLBACK_OK, xs_stopped = False\<rparr>"

abbreviation quoted :: "string \<Rightarrow> bytes" where
  "quoted d \<equiv> [CHR 34] @ d @ [CHR 34]"

text \<open>The document \<^verbatim>\<open><a>x<b/></a>\<close>.\<close>

definition small_tree :: xml_tree where
  "small_tree = Elem ''a'' [] (Some ''x'') [Elem ''b'' [] None []]"

definition small_json :: bytes where
  "small_json = ''{'' @ quoted ''tag'' @ '':'' @ quoted ''a'' @ '','' @ quoted ''text'' @ '':'' @ quoted ''x'' @ '','' @
     quoted ''children'' @ '':[{'' @ quoted ''tag'' @ '':'' @ quoted ''b'' @ ''}]}''"

lemma empty_xml_fresh: "fresh_xml_session empty_xml_session" "xs_gen empty_xml_session = []" "xs_rc empty_xml_session = DECODER_CALLBACK_OK"
  by (simp_all add: fresh_xml_session_def empty_xml_session_def)

theorem xml_chunk_documents_witness:
  "\<exists>sess' base. process_xml_buffer total_allocator (plain_lib (\<lambda>_. feed_of (events small_tree) 12)) 4096 ''<a>x<b/></a>''
       empty_xml_session = r_return (DECODER_CALLBACK_OK, sess', small_json) \<and>
     map (msg_bytes base small_json) (kma_msgs (zs_kafka_msgs sess')) = [small_json]"
proof -
  let ?L = "plain_lib (\<lambda>_. feed_of (events small_tree) 12)"
  have "documents ?L (xs_expat empty_xml_session) ''<a>x<b/></a>'' [small_tree] () []"
    by (simp add: plain_lib_def feed_of_def small_tree_def text_events_def comp_def Let_def)
  moreover have "renders ?L (xs_gen empty_xml_session) [small_tree] = Some [small_json]"
    by (simp add: empty_xml_fresh plain_lib_def small_tree_def small_json_def head_ops_def text_ops_def)
  moreover have "length (concat [small_json]) \<le> 2 ^ 31" by (simp add: small_json_def)
  ultimately show ?thesis
    using xml_chunk_documents [OF empty_xml_fresh(1), of ?L "''<a>x<b/></a>''" "[small_tree]" "()" "[small_json]" total_allocator 4096]
    by (fastforce simp: empty_xml_fresh)
qed

definition bad_where :: xml_where where
  "bad_where = \<lparr>xw_error = XML_ERROR_SYNTAX, xw_line = 1, xw_column = 2, xw_byte = 2\<rparr>"

definition bad_feed :: "unit xml_feed" where
  "bad_feed = \<lparr>xf_callbacks = [], xf_status = XML_STATUS_ERROR, xf_where = bad_where, xf_parser = ()\<rparr>"

definition small_then_bad :: "bytes \<Rightarrow> unit xml_feed" where
  "small_then_bad buf = (if length buf = 14 then feed_of (events small_tree) 12 else bad_feed)"


text \<open>Inside \<^verbatim>\<open><a>x<b/>\<close>, with the text flag and the children flag of the first frame set.\<close>

definition after_child :: "(unit, gen_level list) zz_xml_session" where
  "after_child = empty_xml_session\<lparr>xs_stack_pos := 1, xs_bits := 12 # replicate 31 0,
     xs_gen_buf := \<lparr>str_buf = Some (quoted ''b'' @ replicate 4093 NUL), str_size = 3\<rparr>\<rparr>"

definition start_then_end :: "bytes \<Rightarrow> unit xml_feed" where
  "start_then_end buf = (if buf = ''<a>'' then feed_of [Start_element ''a'' []] 3 else feed_of [End_element ''a''] 4)"

section \<open>Opening a session\<close>

text \<open>Without memory for the generator the parser is freed twice.\<close>

lemma new_zz_session_xml_double_free: "new_zz_session_xml (Some x) None sess = Inl DoubleFree"
  by (simp add: new_zz_session_xml_def XML_ParserFree_def)

lemma new_zz_session_xml_fresh:
  assumes "new_zz_session_xml (Some x) (Some g) sess = Inr (0, sess')"
    and "zs_kafka_msgs sess = KAFKA_MESSAGE_ARRAY_INITIALIZER" and "zs_http_response sess = N2K_STRING_INITIALIZER"
    and "xs_gen_buf sess = N2K_STRING_INITIALIZER" and "xs_stack_pos sess = 0" and "length (xs_bits sess) = STACK_BYTES"
    and "\<not> xs_stopped sess"
  shows "fresh_xml_session sess' \<and> xs_expat sess' = x \<and> xs_gen sess' = g"
  using assms by (auto simp: new_zz_session_xml_def fresh_xml_session_def STACK_BYTES_def CHAR_BIT_def zz_reset_xml_handler_def)

end
