(* ===== verification/Listener_Api.thy ===== *)
theory Listener_Api
  imports Decoder_Api
begin

text \<open>
  The listener interface (\<^verbatim>\<open>src/listener/listener_api.c\<close>, \<^verbatim>\<open>src/listener/listener_api.h\<close>) and the table of
  functions a decoder offers to it (\<^verbatim>\<open>src/decoder/decoder_api.h\<close>). A decoder works on its session, its
  per-listener opaque value and everything else it changes, which is the world of type \<open>'w\<close>. Functions
  that a decoder may leave out are options, as the null pointers of the source are.
\<close>

section \<open>Decoders\<close>

text \<open>
  The response a decoder points the listener at: the bytes from the pointer on, if it is not null, and
  the size it reports.
\<close>

type_synonym decoder_response = "bytes option \<times> nat"

definition no_response :: decoder_response where
  "no_response = (None, 0)"

text \<open>The last argument but one of a callback tells whether the caller gave it a place for the response.\<close>

record ('w, 'j, 'o, 's) n2k_decoder =
  dec_name :: string
  dec_callback :: "bytes \<Rightarrow> keyval_list \<Rightarrow> 'o \<Rightarrow> 's option \<Rightarrow> decoder_response option \<Rightarrow> 'w
    \<Rightarrow> (decoder_callback_err \<times> decoder_response option \<times> 's option \<times> 'w) c_run"
  dec_init :: "('w \<Rightarrow> (int \<times> 'w) c_run) option"
  dec_reload :: "('j \<Rightarrow> 'w \<Rightarrow> (int \<times> 'w) c_run) option"
  dec_done :: "('w \<Rightarrow> 'w c_run) option"
  dec_opaque_creator :: "('j \<Rightarrow> 'w \<Rightarrow> (int \<times> 'o \<times> 'w) c_run) option"
  dec_opaque_reload :: "('j \<Rightarrow> 'o \<Rightarrow> 'w \<Rightarrow> (int \<times> 'o \<times> 'w) c_run) option"
  dec_opaque_destructor :: "('o \<Rightarrow> 'w \<Rightarrow> 'w c_run) option"
  dec_new_session :: "('o \<Rightarrow> keyval_list \<Rightarrow> 'w \<Rightarrow> (int \<times> 's option \<times> 'w) c_run) option"
  dec_delete_session :: "('s \<Rightarrow> 'w \<Rightarrow> 'w c_run) option"
  dec_session_size :: "size_t option"

section \<open>Listeners\<close>

record ('w, 'j, 'o, 's) listener =
  li_decoder :: "('w, 'j, 'o, 's) n2k_decoder"
  li_decoder_opaque :: 'o
  li_port :: "16 word"

definition listener_decode ::
  "('w, 'j, 'o, 's) listener \<Rightarrow> bytes \<Rightarrow> keyval_list \<Rightarrow> decoder_response option \<Rightarrow> 's option \<Rightarrow> 'w
   \<Rightarrow> (decoder_callback_err \<times> decoder_response option \<times> 's option \<times> 'w) c_run" where
  "listener_decode this buffer props response session w =
     dec_callback (li_decoder this) buffer props (li_decoder_opaque this) session response w"

text \<open>\<open>o0\<close> is what the opaque pointer holds before a creator sets it.\<close>

definition listener_init ::
  "'o \<Rightarrow> int \<Rightarrow> ('w, 'j, 'o, 's) n2k_decoder \<Rightarrow> 'j \<Rightarrow> 'w \<Rightarrow> (int \<times> ('w, 'j, 'o, 's) listener \<times> 'w) c_run" where
  "listener_init o0 port decoder decoder_conf w =
     (let this = \<lparr>li_decoder = decoder, li_decoder_opaque = o0, li_port = word_of_int port\<rparr>
      in case dec_opaque_creator decoder of
           None \<Rightarrow> r_return (0, this, w)
         | Some opaque_creator \<Rightarrow>
             r_bind (opaque_creator decoder_conf w) (\<lambda>(opaque_creator_rc, opaque, w1).
               r_return (if opaque_creator_rc \<noteq> 0 then opaque_creator_rc else 0, this\<lparr>li_decoder_opaque := opaque\<rparr>, w1)))"

definition listener_reload ::
  "('w, 'j, 'o, 's) listener \<Rightarrow> 'j \<Rightarrow> 'w \<Rightarrow> (int \<times> ('w, 'j, 'o, 's) listener \<times> 'w) c_run" where
  "listener_reload this new_config w =
     (case dec_opaque_reload (li_decoder this) of
        None \<Rightarrow> r_return (0, this, w)
      | Some opaque_reload \<Rightarrow>
          r_bind (opaque_reload new_config (li_decoder_opaque this) w) (\<lambda>(rc, opaque, w1).
            r_return (rc, this\<lparr>li_decoder_opaque := opaque\<rparr>, w1)))"

definition listener_join :: "('w, 'j, 'o, 's) listener \<Rightarrow> 'w \<Rightarrow> 'w c_run" where
  "listener_join this w =
     (case dec_opaque_destructor (li_decoder this) of
        None \<Rightarrow> r_return w
      | Some opaque_destructor \<Rightarrow> opaque_destructor (li_decoder_opaque this) w)"

section \<open>Decoders whose listeners always start and stop\<close>

text \<open>A decoder whose functions for the opaque value return and leave the world alone.\<close>

definition opaque_total :: "('w, 'j, 'o, 's) n2k_decoder \<Rightarrow> bool" where
  "opaque_total decoder \<longleftrightarrow>
     (\<forall>f config w. dec_opaque_creator decoder = Some f \<longrightarrow> (\<exists>rc opaque. f config w = r_return (rc, opaque, w))) \<and>
     (\<forall>f config opaque w. dec_opaque_reload decoder = Some f \<longrightarrow> (\<exists>rc opaque'. f config opaque w = r_return (rc, opaque', w))) \<and>
     (\<forall>f opaque w. dec_opaque_destructor decoder = Some f \<longrightarrow> f opaque w = r_return w)"

lemma opaque_totalD:
  assumes "opaque_total decoder"
  shows "dec_opaque_creator decoder = Some create \<Longrightarrow> \<exists>rc opaque. create config w = r_return (rc, opaque, w)"
    and "dec_opaque_reload decoder = Some reload \<Longrightarrow> \<exists>rc opaque'. reload config opaque w = r_return (rc, opaque', w)"
    and "dec_opaque_destructor decoder = Some destroy \<Longrightarrow> destroy opaque w = r_return w"
  using assms unfolding opaque_total_def by meson+

lemma listener_total:
  assumes "opaque_total decoder"
  shows "\<exists>rc li. listener_init o0 port decoder config w = r_return (rc, li, w) \<and> li_decoder li = decoder"
    and "li_decoder li = decoder \<Longrightarrow> \<exists>rc li'. listener_reload li config w = r_return (rc, li', w) \<and> li_decoder li' = decoder"
    and "li_decoder li = decoder \<Longrightarrow> listener_join li w = r_return w"
proof -
  show "\<exists>rc li. listener_init o0 port decoder config w = r_return (rc, li, w) \<and> li_decoder li = decoder"
  proof (cases "dec_opaque_creator decoder")
    case (Some f)
    from opaque_totalD(1) [OF assms this] obtain rc opaque where "f config w = r_return (rc, opaque, w)" by blast
    with Some show ?thesis by (simp add: listener_init_def Let_def)
  qed (simp add: listener_init_def Let_def)
  show "\<exists>rc li'. listener_reload li config w = r_return (rc, li', w) \<and> li_decoder li' = decoder" if "li_decoder li = decoder"
  proof (cases "dec_opaque_reload decoder")
    case (Some f)
    from opaque_totalD(2) [OF assms this] obtain rc opaque where "f config (li_decoder_opaque li) w = r_return (rc, opaque, w)" by blast
    with Some that show ?thesis by (simp add: listener_reload_def)
  qed (use that in \<open>simp add: listener_reload_def\<close>)
  show "listener_join li w = r_return w" if "li_decoder li = decoder"
    using opaque_totalD(3) [OF assms] that by (simp add: listener_join_def split: option.split)
qed

section \<open>The contract of a decoder with sessions\<close>

text \<open>
  What a listener that opens a session per request relies on. \<open>idle\<close> are the worlds in which the request
  has no session and \<open>busy\<close> those in which it has the given one: opening leads from the first to the
  second or fails and stays, every chunk keeps the session, and closing leads back.
\<close>

locale session_decoder =
  fixes decoder :: "('w, 'j, 'o, 's) n2k_decoder"
    and idle :: "'w \<Rightarrow> bool"
    and busy :: "'w \<Rightarrow> 's \<Rightarrow> bool"
    and new_session :: "'o \<Rightarrow> keyval_list \<Rightarrow> 'w \<Rightarrow> (int \<times> 's option \<times> 'w) c_run"
    and delete_session :: "'s \<Rightarrow> 'w \<Rightarrow> 'w c_run"
  assumes has_new: "dec_new_session decoder = Some new_session"
    and has_delete: "dec_delete_session decoder = Some delete_session"
    and opens: "idle w \<Longrightarrow> new_session opaque props w = r_return (rc, sess, w') \<Longrightarrow>
      if rc = 0 then \<exists>s. sess = Some s \<and> busy w' s else idle w'"
    and decodes: "busy w s \<Longrightarrow> dec_callback decoder buf props opaque (Some s) resp w = r_return (err, resp', s', w') \<Longrightarrow>
      \<exists>t. s' = Some t \<and> busy w' t"
    and closes: "busy w s \<Longrightarrow> delete_session s w = r_return w' \<Longrightarrow> idle w'"

end
