(* ===== verification/Http_Auth.thy ===== *)
theory Http_Auth
  imports Prelude
begin

text \<open>
  Basic authentication of the HTTP listener (\<^verbatim>\<open>src/listener/http/http_auth.c\<close>): the database that is
  extracted from a htpasswd file, first to learn its size and then into a block of that size, and the
  lookup of a user in it. The database is a block of bytes with the entries in it as C strings; pointers
  into it are offsets, and reading or writing outside of it is a fault. The lookup loop may run forever,
  so it is of type \<open>c_run\<close>.
\<close>

abbreviation NL :: char where
  "NL \<equiv> CHR 0x0A"

section \<open>Strings inside a block\<close>

text \<open>The C string that starts at an offset, if a terminator follows.\<close>

definition cstr_at :: "bytes \<Rightarrow> nat \<Rightarrow> bytes c_result" where
  "cstr_at blk off = (if NUL \<in> set (drop off blk) then Inr (takeWhile (\<lambda>c. c \<noteq> NUL) (drop off blk)) else Inl OutOfBounds)"

section \<open>Lines of the file\<close>

definition plain_hashing_callback_prefix :: string where
  "plain_hashing_callback_prefix = '':{PLAIN}''"

definition plain_hashing_callback :: "string \<Rightarrow> string \<Rightarrow> bool" where
  "plain_hashing_callback provided_password htfile_password =
     strcmp0 (drop (length plain_hashing_callback_prefix) htfile_password) provided_password"

text \<open>The colon and the end of a line; no colon is None.\<close>

definition tokenize_user_pass_line :: "bytes \<Rightarrow> nat option \<times> nat" where
  "tokenize_user_pass_line line =
     (let endptr = strchrnul line CHR '':''
      in if endptr = length line then (None, endptr)
         else (Some endptr, endptr + strchrnul (drop endptr line) NL))"

definition password_hashing_callback :: "bytes \<Rightarrow> (string \<Rightarrow> string \<Rightarrow> bool) option" where
  "password_hashing_callback colon =
     (if strncmp0 colon plain_hashing_callback_prefix (length plain_hashing_callback_prefix)
      then Some plain_hashing_callback else None)"

section \<open>Extracting the database\<close>

text \<open>What is left of the file, whether reading it ends with an error, and whether it can be rewound.\<close>

record auth_stream =
  st_content :: bytes
  st_read_error :: bool
  st_seek_ok :: bool

text \<open>The lines getline returns, each with its newline.\<close>

fun split_lines :: "bytes \<Rightarrow> bytes \<Rightarrow> bytes list" where
  "split_lines cur [] = (if cur = [] then [] else [cur])"
| "split_lines cur (c # s) = (if c = NL then (cur @ [c]) # split_lines [] s else split_lines (cur @ [c]) s)"

record auth_extract =
  ex_dst :: "bytes option"
  ex_cursor :: nat
  ex_rc :: int

definition extract_line :: "nat \<Rightarrow> bytes \<Rightarrow> auth_extract \<Rightarrow> auth_extract c_result" where
  "extract_line dst_size line ex =
     (let s = takeWhile (\<lambda>c. c \<noteq> NUL) line
      in case tokenize_user_pass_line s of
           (None, _) \<Rightarrow> Inr ex
         | (Some colon, endptr) \<Rightarrow>
             if password_hashing_callback (drop colon s) = None then Inr ex
             else let written = ex_cursor ex;
                      entry_len = endptr + 1;
                      ex1 = ex\<lparr>ex_rc := ex_rc ex + int entry_len\<rparr>
                  in if \<not> written + entry_len < dst_size then Inr ex1
                     else case ex_dst ex of
                            None \<Rightarrow> Inl NullDeref
                          | Some d \<Rightarrow>
                              if length d \<le> written + entry_len then Inl OutOfBounds
                              else Inr (ex1\<lparr>ex_dst := Some ((memcpy_at d written (take (entry_len - 1) s))[written + entry_len := NUL]),
                                            ex_cursor := written + entry_len\<rparr>))"

fun extract_lines :: "nat \<Rightarrow> bytes list \<Rightarrow> auth_extract \<Rightarrow> auth_extract c_result" where
  "extract_lines dst_size [] ex = Inr ex"
| "extract_lines dst_size (line # lines) ex = c_bind (extract_line dst_size line ex) (extract_lines dst_size lines)"

definition http_auth_extract_data0 :: "bytes option \<Rightarrow> nat \<Rightarrow> auth_stream \<Rightarrow> (int \<times> bytes option) c_result" where
  "http_auth_extract_data0 dst dst_size src =
     c_bind (extract_lines dst_size (split_lines [] (st_content src)) \<lparr>ex_dst = dst, ex_cursor = 0, ex_rc = 0\<rparr>) (\<lambda>ex.
       Inr (if st_read_error src then -1 else ex_rc ex, ex_dst ex))"

text \<open>The test of the current offset compares a truth value with 0, so it never fails.\<close>

definition http_auth_extract_data :: "bytes option \<Rightarrow> nat \<Rightarrow> auth_stream \<Rightarrow> (int \<times> bytes option) c_result" where
  "http_auth_extract_data dst dst_size src =
     c_bind (http_auth_extract_data0 dst dst_size src) (\<lambda>(rc, d). Inr (if \<not> st_seek_ok src then -1 else rc, d))"

text \<open>The wrappers through which the listener reads the file (\<^verbatim>\<open>src/listener/http/http_config.c\<close>).\<close>

definition htpasswd_size :: "auth_stream \<Rightarrow> nat c_result" where
  "htpasswd_size f = c_bind (http_auth_extract_data None 0 f) (\<lambda>(rc, _). Inr (if rc < 0 then 0 else nat rc))"

definition htpasswd_fread :: "bytes \<Rightarrow> nat \<Rightarrow> nat \<Rightarrow> auth_stream \<Rightarrow> (nat \<times> bytes) c_result" where
  "htpasswd_fread dst elem_size n_elems stream =
     c_bind (http_auth_extract_data (Some dst) (elem_size * n_elems) stream) (\<lambda>(data_read, d).
       Inr (if data_read < 0 then 0 else nat data_read div elem_size, case d of Some b \<Rightarrow> b | None \<Rightarrow> dst))"

section \<open>Authenticating\<close>

text \<open>The loop over the database from an offset. Nothing moves the cursor when the lengths agree and the names differ.\<close>

partial_function (option) authenticate_loop :: "string \<Rightarrow> string \<Rightarrow> bytes \<Rightarrow> nat \<Rightarrow> bool c_run" where
  "authenticate_loop user password db cursor =
     (case cstr_at db cursor of
        Inl e \<Rightarrow> Some (Inl e)
      | Inr s \<Rightarrow>
          if s \<noteq> [] \<and> hd s = NL then r_return False
          else let end_of_line = cursor + strchrnul s NL
               in case strchr s CHR '':'' of
                    None \<Rightarrow> authenticate_loop user password db end_of_line
                  | Some colon \<Rightarrow>
                      if colon \<noteq> length user then authenticate_loop user password db end_of_line
                      else if strncmp0 user s (length user)
                      then (case password_hashing_callback (drop colon s) of
                              None \<Rightarrow> Some (Inl NullDeref)
                            | Some cb \<Rightarrow> r_return (cb password (drop colon s)))
                      else authenticate_loop user password db cursor)"

definition http_authenticate :: "string \<Rightarrow> string \<Rightarrow> bytes \<Rightarrow> bool c_run" where
  "http_authenticate user password db = authenticate_loop user password db 0"

section \<open>Extracting stays inside the block\<close>

lemma extract_line_safe:
  assumes "dst_size = 0 \<or> (\<exists>d. ex_dst ex = Some d \<and> dst_size \<le> length d)"
  shows "\<exists>ex'. extract_line dst_size line ex = Inr ex' \<and> map_option length (ex_dst ex') = map_option length (ex_dst ex)"
proof -
  obtain colon endptr where t: "tokenize_user_pass_line (takeWhile (\<lambda>c. c \<noteq> NUL) line) = (colon, endptr)" by fastforce
  show ?thesis using assms unfolding extract_line_def Let_def t by (auto simp: memcpy_at_def split: option.split)
qed

lemma extract_lines_safe:
  "dst_size = 0 \<or> (\<exists>d. ex_dst ex = Some d \<and> dst_size \<le> length d) \<Longrightarrow>
   \<exists>ex'. extract_lines dst_size lines ex = Inr ex' \<and> map_option length (ex_dst ex') = map_option length (ex_dst ex)"
proof (induction lines arbitrary: ex)
  case (Cons line lines)
  obtain ex1 where ex1: "extract_line dst_size line ex = Inr ex1" "map_option length (ex_dst ex1) = map_option length (ex_dst ex)"
    using extract_line_safe [OF Cons.prems] by blast
  with Cons.prems have "dst_size = 0 \<or> (\<exists>d. ex_dst ex1 = Some d \<and> dst_size \<le> length d)" by (auto simp: map_option_case split: option.splits)
  from Cons.IH [OF this] ex1 show ?case by simp
qed simp

lemma http_auth_extract_data_safe:
  assumes "dst_size = 0 \<or> (\<exists>d. dst = Some d \<and> dst_size \<le> length d)"
  shows "\<exists>rc dst'. http_auth_extract_data dst dst_size src = Inr (rc, dst') \<and> map_option length dst' = map_option length dst"
  using extract_lines_safe [of dst_size "\<lparr>ex_dst = dst, ex_cursor = 0, ex_rc = 0\<rparr>" "split_lines [] (st_content src)"] assms
  by (auto simp: http_auth_extract_data_def http_auth_extract_data0_def)

lemma htpasswd_size_safe: "\<exists>n. htpasswd_size f = Inr n"
  using http_auth_extract_data_safe [of 0 None f] by (auto simp: htpasswd_size_def)

lemma htpasswd_fread_safe:
  assumes "n \<le> length dst"
  shows "\<exists>k dst'. htpasswd_fread dst 1 n f = Inr (k, dst') \<and> length dst' = length dst"
  using http_auth_extract_data_safe [of n "Some dst" f] assms by (auto simp: htpasswd_fread_def)

section \<open>The entries of a file\<close>

text \<open>The text of the entries that the extraction accepts.\<close>

definition line_entry :: "bytes \<Rightarrow> bytes option" where
  "line_entry line =
     (let s = takeWhile (\<lambda>c. c \<noteq> NUL) line
      in case tokenize_user_pass_line s of
           (None, _) \<Rightarrow> None
         | (Some colon, endptr) \<Rightarrow> if password_hashing_callback (drop colon s) = None then None else Some (take endptr s))"

definition file_entries :: "auth_stream \<Rightarrow> bytes list" where
  "file_entries f = List.map_filter line_entry (split_lines [] (st_content f))"

definition entries_size :: "bytes list \<Rightarrow> nat" where
  "entries_size es = sum_list (map (\<lambda>e. length e + 1) es)"

definition entries_block :: "bytes list \<Rightarrow> bytes" where
  "entries_block es = concat (map (\<lambda>e. e @ [NUL]) es)"

lemma length_entries_block [simp]: "length (entries_block es) = entries_size es"
  by (induction es) (simp_all add: entries_block_def entries_size_def)

lemma entries_simps [simp]:
  "entries_size [] = 0" "entries_size (e # es) = length e + 1 + entries_size es"
  "entries_block [] = []" "entries_block (e # es) = e @ [NUL] @ entries_block es"
  by (simp_all add: entries_size_def entries_block_def)

lemma tokenize_bound: "tokenize_user_pass_line s = (Some colon, endptr) \<Longrightarrow> colon \<le> endptr \<and> endptr \<le> length s"
  using length_takeWhile_le [of "\<lambda>x. x \<noteq> NL" "drop (strchrnul s CHR '':'') s"] length_takeWhile_le [of "\<lambda>x. x \<noteq> CHR '':''" s]
  by (auto simp: tokenize_user_pass_line_def strchrnul_def Let_def split: if_splits)

text \<open>What one line does to a block that is zero from the cursor on.\<close>

lemma extract_line_entry:
  "extract_line dst_size line ex =
     (case line_entry line of
        None \<Rightarrow> Inr ex
      | Some e \<Rightarrow>
          let written = ex_cursor ex; ex1 = ex\<lparr>ex_rc := ex_rc ex + int (length e + 1)\<rparr>
          in if \<not> written + (length e + 1) < dst_size then Inr ex1
             else case ex_dst ex of
                    None \<Rightarrow> Inl NullDeref
                  | Some d \<Rightarrow>
                      if length d \<le> written + (length e + 1) then Inl OutOfBounds
                      else Inr (ex1\<lparr>ex_dst := Some ((memcpy_at d written e)[written + (length e + 1) := NUL]),
                                    ex_cursor := written + (length e + 1)\<rparr>))"
  using tokenize_bound [of "takeWhile (\<lambda>c. c \<noteq> NUL) line"]
  by (auto simp: extract_line_def line_entry_def Let_def min_def split: prod.splits option.splits)

lemma extract_lines_size:
  "extract_lines 0 lines \<lparr>ex_dst = dst, ex_cursor = 0, ex_rc = n\<rparr> =
     Inr \<lparr>ex_dst = dst, ex_cursor = 0, ex_rc = n + int (entries_size (List.map_filter line_entry lines))\<rparr>"
  by (induction lines arbitrary: n) (auto simp: extract_line_entry map_filter_simps split: option.splits)

lemma extract_lines_none:
  "List.map_filter line_entry lines = [] \<Longrightarrow> extract_lines dst_size lines ex = Inr ex"
  by (induction lines) (auto simp: extract_line_entry map_filter_simps split: option.splits)

lemma memcpy_zeros:
  "memcpy_at (pre @ replicate m NUL) (length pre) e = pre @ e @ replicate (m - length e) NUL"
  by (simp add: memcpy_at_def)

text \<open>
  Filling a zeroed block whose announced size is that of all the entries: an entry is written while the
  block is not full behind it, which is never the case for the last one.
\<close>

lemma extract_lines_fill:
  assumes "tot = entries_size (es @ List.map_filter line_entry lines)"
  shows "extract_lines tot lines
      \<lparr>ex_dst = Some (entries_block es @ replicate (tot + 1 - entries_size es) NUL), ex_cursor = entries_size es, ex_rc = n\<rparr> =
    Inr \<lparr>ex_dst = Some (entries_block (es @ butlast (List.map_filter line_entry lines)) @
           replicate (tot + 1 - entries_size (es @ butlast (List.map_filter line_entry lines))) NUL),
         ex_cursor = entries_size (es @ butlast (List.map_filter line_entry lines)),
         ex_rc = n + int (entries_size (List.map_filter line_entry lines))\<rparr>"
  using assms
proof (induction lines arbitrary: es n)
  case (Cons line lines)
  show ?case
  proof (cases "line_entry line")
    case None
    with Cons show ?thesis by (simp add: extract_line_entry map_filter_simps)
  next
    case (Some e)
    let ?rest = "List.map_filter line_entry lines"
    have sz: "entries_size (as @ bs) = entries_size as + entries_size bs" for as bs by (simp add: entries_size_def)
    have blk: "entries_block (as @ bs) = entries_block as @ entries_block bs" for as bs by (simp add: entries_block_def)
    have tot: "tot = entries_size es + (length e + 1) + entries_size ?rest"
      using Cons.prems Some by (simp add: map_filter_simps sz)
    show ?thesis
    proof (cases "?rest = []")
      case True
      with Some tot extract_lines_none [OF True] show ?thesis by (simp add: extract_line_entry map_filter_simps)
    next
      case False
      then have "0 < entries_size ?rest" by (cases ?rest) simp_all
      then have room: "entries_size es + (length e + 1) < tot" using tot by simp
      let ?m = "tot + 1 - entries_size es"
      have "(entries_block es @ e @ replicate (?m - length e) NUL)[entries_size es + (length e + 1) := NUL] =
          entries_block es @ e @ replicate (?m - length e) NUL"
        by (rule list_update_same_conv [THEN iffD2]) (use room in \<open>simp_all add: nth_append\<close>)
      moreover have "replicate (?m - length e) NUL = NUL # replicate (tot + 1 - entries_size (es @ [e])) NUL"
        using room by (simp add: sz Suc_diff_le flip: replicate_Suc)
      ultimately have step: "extract_line tot line \<lparr>ex_dst = Some (entries_block es @ replicate ?m NUL), ex_cursor = entries_size es, ex_rc = n\<rparr> =
          Inr \<lparr>ex_dst = Some (entries_block (es @ [e]) @ replicate (tot + 1 - entries_size (es @ [e])) NUL),
               ex_cursor = entries_size (es @ [e]), ex_rc = n + int (length e + 1)\<rparr>"
        using Some room memcpy_zeros [of "entries_block es" ?m e]
        by (simp add: extract_line_entry sz blk Let_def)
      with Cons.IH [of "es @ [e]" "n + int (length e + 1)"] Some tot False show ?thesis
        by (simp add: map_filter_simps sz)
    qed
  qed
qed simp

section \<open>Looking up a user\<close>

text \<open>A database that starts with one entry, up to its terminator.\<close>

definition first_entry :: "bytes \<Rightarrow> bytes \<Rightarrow> bool" where
  "first_entry e db \<longleftrightarrow> NUL \<notin> set e \<and> NL \<notin> set e \<and> (\<exists>rest. db = e @ [NUL] @ rest)"

lemma cstr_at_split: "NUL \<notin> set s \<Longrightarrow> db = pre @ s @ [NUL] @ rest \<Longrightarrow> cstr_at db (length pre) = Inr s"
  by (simp add: cstr_at_def takeWhile_append)

lemma first_entry_cstr:
  assumes "first_entry e db"
  shows "cstr_at db 0 = Inr e" and "cstr_at db (length e) = Inr []"
proof -
  obtain rest where db: "db = e @ [NUL] @ rest" and nn: "NUL \<notin> set e" using assms by (auto simp: first_entry_def)
  show "cstr_at db 0 = Inr e" using cstr_at_split [OF nn, of db "[]" rest] db by simp
  show "cstr_at db (length e) = Inr []" using cstr_at_split [of "[]" db e rest] db by simp
qed

lemma strchrnul_absent: "c \<notin> set s \<Longrightarrow> strchrnul s c = length s"
  by (induction s) (auto simp: strchrnul_def)

text \<open>At an empty string the cursor stays where it is, for every user.\<close>

lemma authenticate_loop_stuck:
  assumes ret: "authenticate_loop user password db cursor = Some r"
  shows "\<not> (cstr_at db cursor = Inr [] \<or>
    (\<exists>e. first_entry e db \<and> cursor = 0 \<and> user \<noteq> takeWhile (\<lambda>c. c \<noteq> CHR '':'') e))"
proof (rule authenticate_loop.raw_induct [where P = "\<lambda>user password db cursor r. \<not> (cstr_at db cursor = Inr [] \<or>
    (\<exists>e. first_entry e db \<and> cursor = 0 \<and> user \<noteq> takeWhile (\<lambda>c. c \<noteq> CHR '':'') e))", OF _ ret], goal_cases)
  case (1 f user password db cursor r)
  note IH = 1(1) and eq = 1(2)
  show ?case
  proof
    assume "cstr_at db cursor = Inr [] \<or>
      (\<exists>e. first_entry e db \<and> cursor = 0 \<and> user \<noteq> takeWhile (\<lambda>c. c \<noteq> CHR '':'') e)"
    then consider (empty) "cstr_at db cursor = Inr []"
      | (other) e where "first_entry e db" "cursor = 0" "user \<noteq> takeWhile (\<lambda>c. c \<noteq> CHR '':'') e" "e \<noteq> []"
      using first_entry_cstr(1) by fastforce
    then show False
    proof cases
      case empty
      with eq have "f user password db cursor = Some r" by (simp add: strchr_def strchrnul_def)
      with IH empty show False by blast
    next
      case (other e)
      note c = first_entry_cstr [OF other(1)]
      have nl: "NL \<notin> set e" using other(1) by (simp add: first_entry_def)
      then have hd: "hd e \<noteq> NL" using other(4) by (metis hd_in_set)
      have "f user password db (length e) = Some r \<or> f user password db 0 = Some r"
      proof (cases "strchr e CHR '':''")
        case None
        with eq other(2) c hd nl show ?thesis by (simp add: strchrnul_absent Let_def split: if_splits)
      next
        case (Some colon)
        then have "colon = length (takeWhile (\<lambda>c. c \<noteq> CHR '':'') e)" by (auto simp: strchr_def strchrnul_def split: if_splits)
        then have "colon = length user \<Longrightarrow> \<not> strncmp0 user e (length user)"
          using other(3) takeWhile_eq_take [of "\<lambda>c. c \<noteq> CHR '':''" e] by (auto simp: strncmp0_def)
        with Some eq other(2) c hd nl show ?thesis by (simp add: strchrnul_absent Let_def split: if_splits)
      qed
      with IH c(2) other show False by blast
    qed
  qed
qed

lemma http_authenticate_stuck:
  "cstr_at db 0 = Inr [] \<Longrightarrow> http_authenticate user password db = None"
  "first_entry e db \<Longrightarrow> user \<noteq> takeWhile (\<lambda>c. c \<noteq> CHR '':'') e \<Longrightarrow> http_authenticate user password db = None"
  using authenticate_loop_stuck [of user password db 0] unfolding http_authenticate_def by (metis not_Some_eq)+

section \<open>Properties\<close>

text \<open>Reading a htpasswd file into a zeroed block of the size that the first pass computes (and one
  byte more) reports success and never writes outside the block, but the block ends up with every entry
  except the last: each entry as a C string, zeros behind them.\<close>

lemma htpasswd_drops_last_entry:
  assumes "\<not> st_read_error f" and "st_seek_ok f" and "tot = entries_size (file_entries f)"
  shows "htpasswd_size f = Inr tot \<and>
    htpasswd_fread (replicate (tot + 1) NUL) 1 tot f =
      Inr (tot, entries_block (butlast (file_entries f)) @
                replicate (tot + 1 - entries_size (butlast (file_entries f))) NUL)"
proof -
  have "htpasswd_size f = Inr tot"
    using assms extract_lines_size [of "split_lines [] (st_content f)" None 0]
    by (simp add: htpasswd_size_def http_auth_extract_data_def http_auth_extract_data0_def file_entries_def)
  moreover have "htpasswd_fread (replicate (tot + 1) NUL) 1 tot f =
      Inr (tot, entries_block (butlast (file_entries f)) @
                replicate (tot + 1 - entries_size (butlast (file_entries f))) NUL)"
    using assms extract_lines_fill [of tot "[]" "split_lines [] (st_content f)" 0]
    by (simp add: htpasswd_fread_def http_auth_extract_data_def http_auth_extract_data0_def file_entries_def)
  ultimately show ?thesis ..
qed


text \<open>Any other user makes the lookup run forever: when the name has another length the cursor stops
  at the terminator of the first entry, and when it has the same length the cursor does not move at all.\<close>

lemma http_authenticate_other_user_hangs:
  assumes "first_entry e db" and "user \<noteq> takeWhile (\<lambda>c. c \<noteq> CHR '':'') e"
  shows "http_authenticate user password db = None"
  using assms by (rule http_authenticate_stuck(2))

text \<open>With a htpasswd file of a single user the database is empty, so every authentication attempt,
  with right or wrong credentials, runs forever.\<close>

lemma htpasswd_single_user_hangs:
  assumes "\<not> st_read_error f" and "st_seek_ok f" and "file_entries f = [e]"
    and "htpasswd_size f = Inr tot" and "htpasswd_fread (replicate (tot + 1) NUL) 1 tot f = Inr (n, db)"
  shows "http_authenticate user password db = None"
proof -
  have tot: "tot = length e + 1"
    using assms(1-4) extract_lines_size [of "split_lines [] (st_content f)" None 0]
    by (simp add: htpasswd_size_def http_auth_extract_data_def http_auth_extract_data0_def file_entries_def)
  have "db = replicate (tot + 1) NUL"
    using assms(1,2,3,5) tot extract_lines_fill [of tot "[]" "split_lines [] (st_content f)" 0]
    by (simp add: htpasswd_fread_def http_auth_extract_data_def http_auth_extract_data0_def file_entries_def)
  then have "cstr_at db 0 = Inr []" by (simp add: cstr_at_def)
  then show ?thesis by (rule http_authenticate_stuck(1))
qed

section \<open>Witnesses\<close>

definition one_user :: auth_stream where
  "one_user = \<lparr>st_content = ''u:{PLAIN}p'' @ [NL], st_read_error = False, st_seek_ok = True\<rparr>"

definition two_users :: auth_stream where
  "two_users = \<lparr>st_content = ''u:{PLAIN}p'' @ [NL] @ ''v:{PLAIN}q'' @ [NL], st_read_error = False, st_seek_ok = True\<rparr>"

lemma user_entries: "file_entries one_user = [''u:{PLAIN}p'']" "file_entries two_users = [''u:{PLAIN}p'', ''v:{PLAIN}q'']"
  by (simp_all add: file_entries_def one_user_def two_users_def map_filter_simps line_entry_def tokenize_user_pass_line_def
      strchrnul_def password_hashing_callback_def strncmp0_def plain_hashing_callback_prefix_def Let_def)


end
