(* ===== verification/Http_Support.thy ===== *)
theory Http_Support
  imports Prelude
begin

text \<open>
  What the HTTP listener uses around a request: the printing of the client's address
  (\<^verbatim>\<open>src/engine/rb_addr.c\<close>), the check of the client certificate (\<^verbatim>\<open>src/listener/http/tls.c\<close>) and the
  replies, some of which are shared by all listeners and counted (\<^verbatim>\<open>src/listener/http/responses.c\<close>).
  libmicrohttpd and gnutls are parameters.
\<close>

section \<open>Addresses\<close>

datatype sockaddr = AF_INET "8 word list" | AF_INET6 "8 word list" | AF_other int

text \<open>\<open>inet_ntop\<close> prints an address of one of the two families, or fails.\<close>

definition sockaddr2str :: "(sockaddr \<Rightarrow> string option) \<Rightarrow> sockaddr \<Rightarrow> string option" where
  "sockaddr2str inet_ntop addr =
     (case addr of
        AF_INET _ \<Rightarrow> inet_ntop addr
      | AF_INET6 _ \<Rightarrow> inet_ntop addr
      | AF_other _ \<Rightarrow> None)"

section \<open>Client certificates\<close>

datatype cert_flag =
    GNUTLS_CERT_REVOKED | GNUTLS_CERT_SIGNER_NOT_FOUND | GNUTLS_CERT_SIGNER_NOT_CA | GNUTLS_CERT_INSECURE_ALGORITHM
  | GNUTLS_CERT_NOT_ACTIVATED | GNUTLS_CERT_EXPIRED | GNUTLS_CERT_SIGNATURE_FAILURE
  | GNUTLS_CERT_REVOCATION_DATA_SUPERSEDED | GNUTLS_CERT_UNEXPECTED_OWNER
  | GNUTLS_CERT_REVOCATION_DATA_ISSUED_IN_FUTURE | GNUTLS_CERT_SIGNER_CONSTRAINTS_FAILURE | GNUTLS_CERT_MISMATCH
  | GNUTLS_CERT_PURPOSE_MISMATCH | GNUTLS_CERT_MISSING_OCSP_STATUS | GNUTLS_CERT_INVALID_OCSP_STATUS
  | GNUTLS_CERT_UNKNOWN_CRIT_EXTENSIONS

definition gnutls_client_cert_status_errstrs :: "(string \<times> cert_flag) list" where
  "gnutls_client_cert_status_errstrs =
     [(''Certificate is revoked by its authority'', GNUTLS_CERT_REVOKED),
      (''The certificate's issuer (signer) is not known'', GNUTLS_CERT_SIGNER_NOT_FOUND),
      (''The certificate's signer was not a CA'', GNUTLS_CERT_SIGNER_NOT_CA),
      (''The certificate was signed using an insecure algorithm'', GNUTLS_CERT_INSECURE_ALGORITHM),
      (''The certificate is not yet activated'', GNUTLS_CERT_NOT_ACTIVATED),
      (''The certificate has expired'', GNUTLS_CERT_EXPIRED),
      (''The signature verification failed'', GNUTLS_CERT_SIGNATURE_FAILURE),
      (''The revocation data are old and have been superseded'', GNUTLS_CERT_REVOCATION_DATA_SUPERSEDED),
      (''The owner is not the expected one'', GNUTLS_CERT_UNEXPECTED_OWNER),
      (''The revocation data have a future issue date'', GNUTLS_CERT_REVOCATION_DATA_ISSUED_IN_FUTURE),
      (''The certificate's signer constraints were violated'', GNUTLS_CERT_SIGNER_CONSTRAINTS_FAILURE),
      (''The certificate presented isn't the expected one (TOFU)'', GNUTLS_CERT_MISMATCH),
      (''The certificate or an intermediate does not match the intended purpose (extended key usage)'',
       GNUTLS_CERT_PURPOSE_MISMATCH),
      (''The certificate requires the server to send the certificate status, but no status was received'',
       GNUTLS_CERT_MISSING_OCSP_STATUS),
      (''The received OCSP status response is invalid'', GNUTLS_CERT_INVALID_OCSP_STATUS),
      (''The certificate has extensions marked as critical which are not supported'',
       GNUTLS_CERT_UNKNOWN_CRIT_EXTENSIONS)]"

text \<open>
  \<open>flag_bits\<close> gives the bits of gnutls's flags; \<open>verify\<close> is what verifying the peer answers: an error, or
  the status. The result is None for a valid certificate and the text of the error otherwise.
\<close>

fun first_cert_error :: "(cert_flag \<Rightarrow> 32 word) \<Rightarrow> 32 word \<Rightarrow> (string \<times> cert_flag) list \<Rightarrow> string option" where
  "first_cert_error flag_bits status [] = None"
| "first_cert_error flag_bits status ((errstr, flag) # rest) =
     (if flag_bits flag AND status \<noteq> 0 then Some errstr else first_cert_error flag_bits status rest)"

definition tls_valid_client_certificate :: "(cert_flag \<Rightarrow> 32 word) \<Rightarrow> 32 word option \<Rightarrow> string option" where
  "tls_valid_client_certificate flag_bits verify =
     (case verify of
        None \<Rightarrow> Some ''Unknown error checking certificate, do you have one?''
      | Some client_cert_status \<Rightarrow>
          if client_cert_status = 0 then None
          else (case first_cert_error flag_bits client_cert_status gnutls_client_cert_status_errstrs of
                  Some errstr \<Rightarrow> Some errstr
                | None \<Rightarrow> Some ''Unknown TLS error''))"

lemma tls_valid_iff: "tls_valid_client_certificate flag_bits verify = None \<longleftrightarrow> verify = Some 0"
  by (auto simp: tls_valid_client_certificate_def split: option.splits)

section \<open>Replies\<close>

record mhd_response =
  resp_body :: bytes
  resp_headers :: "(string \<times> string) list"

record http_reply =
  reply_code :: nat
  reply_response :: mhd_response

text \<open>
  What libmicrohttpd answers to the calls of one request: whether a response can be created, and whether
  one with a given code can be queued.
\<close>

record mhd_replies =
  mhd_create_ok :: bool
  mhd_queue_ok :: "nat \<Rightarrow> bool"

definition MHD_create_response_from_buffer :: "bool \<Rightarrow> nat \<Rightarrow> bytes option \<Rightarrow> mhd_response option" where
  "MHD_create_response_from_buffer create_ok sz buf =
     (if \<not> create_ok then None
      else case buf of
        None \<Rightarrow> if sz = 0 then Some \<lparr>resp_body = [], resp_headers = []\<rparr> else None
      | Some b \<Rightarrow> Some \<lparr>resp_body = take sz b, resp_headers = []\<rparr>)"

definition MHD_queue_response ::
  "mhd_replies \<Rightarrow> nat \<Rightarrow> mhd_response option \<Rightarrow> http_reply list \<Rightarrow> bool \<times> http_reply list" where
  "MHD_queue_response M code response replies =
     (case response of
        None \<Rightarrow> (False, replies)
      | Some r \<Rightarrow> if mhd_queue_ok M code then (True, replies @ [\<lparr>reply_code = code, reply_response = r\<rparr>]) else (False, replies))"

definition MHD_add_response_header :: "mhd_response option \<Rightarrow> string \<Rightarrow> string \<Rightarrow> mhd_response option" where
  "MHD_add_response_header r header content =
     map_option (\<lambda>x. x\<lparr>resp_headers := resp_headers x @ [(header, content)]\<rparr>) r"

definition MHD_HTTP_OK :: nat where "MHD_HTTP_OK = 200"
definition MHD_HTTP_BAD_REQUEST :: nat where "MHD_HTTP_BAD_REQUEST = 400"
definition MHD_HTTP_UNAUTHORIZED :: nat where "MHD_HTTP_UNAUTHORIZED = 401"
definition MHD_HTTP_FORBIDDEN :: nat where "MHD_HTTP_FORBIDDEN = 403"
definition MHD_HTTP_NOT_FOUND :: nat where "MHD_HTTP_NOT_FOUND = 404"
definition MHD_HTTP_METHOD_NOT_ALLOWED :: nat where "MHD_HTTP_METHOD_NOT_ALLOWED = 405"
definition MHD_HTTP_PAYLOAD_TOO_LARGE :: nat where "MHD_HTTP_PAYLOAD_TOO_LARGE = 413"
definition MHD_HTTP_INTERNAL_SERVER_ERROR :: nat where "MHD_HTTP_INTERNAL_SERVER_ERROR = 500"
definition MHD_HTTP_SERVICE_UNAVAILABLE :: nat where "MHD_HTTP_SERVICE_UNAVAILABLE = 503"

lemmas http_codes = MHD_HTTP_OK_def MHD_HTTP_BAD_REQUEST_def MHD_HTTP_UNAUTHORIZED_def MHD_HTTP_FORBIDDEN_def
  MHD_HTTP_NOT_FOUND_def MHD_HTTP_METHOD_NOT_ALLOWED_def MHD_HTTP_PAYLOAD_TOO_LARGE_def
  MHD_HTTP_INTERNAL_SERVER_ERROR_def MHD_HTTP_SERVICE_UNAVAILABLE_def

text \<open>The replies the listeners share.\<close>

record http_responses =
  hr_empty_response :: "mhd_response option"
  hr_method_not_allowed_allow_get_post :: "mhd_response option"
  hr_method_not_allowed_allow_post :: "mhd_response option"
  hr_unauthorized :: "mhd_response option"
  hr_listeners_counter :: int

definition send_buffered_response ::
  "mhd_replies \<Rightarrow> nat \<Rightarrow> bytes option \<Rightarrow> nat \<Rightarrow> http_reply list \<Rightarrow> bool \<times> http_reply list" where
  "send_buffered_response M sz buf response_code replies =
     (case MHD_create_response_from_buffer (mhd_create_ok M) sz buf of
        None \<Rightarrow> (False, replies)
      | Some r \<Rightarrow> MHD_queue_response M response_code (Some r) replies)"

definition send_http_ok :: "http_responses \<Rightarrow> mhd_replies \<Rightarrow> http_reply list \<Rightarrow> bool \<times> http_reply list" where
  "send_http_ok H M replies = MHD_queue_response M MHD_HTTP_OK (hr_empty_response H) replies"

definition send_http_method_not_allowed ::
  "mhd_replies \<Rightarrow> mhd_response option \<Rightarrow> http_reply list \<Rightarrow> bool \<times> http_reply list" where
  "send_http_method_not_allowed M response replies = MHD_queue_response M MHD_HTTP_METHOD_NOT_ALLOWED response replies"

definition send_http_method_not_allowed_allow_get_post ::
  "http_responses \<Rightarrow> mhd_replies \<Rightarrow> http_reply list \<Rightarrow> bool \<times> http_reply list" where
  "send_http_method_not_allowed_allow_get_post H M replies =
     send_http_method_not_allowed M (hr_method_not_allowed_allow_get_post H) replies"

definition send_http_method_not_allowed_allow_post ::
  "http_responses \<Rightarrow> mhd_replies \<Rightarrow> http_reply list \<Rightarrow> bool \<times> http_reply list" where
  "send_http_method_not_allowed_allow_post H M replies =
     send_http_method_not_allowed M (hr_method_not_allowed_allow_post H) replies"

definition send_http_unauthorized_basic ::
  "http_responses \<Rightarrow> mhd_replies \<Rightarrow> http_reply list \<Rightarrow> bool \<times> http_reply list" where
  "send_http_unauthorized_basic H M replies = MHD_queue_response M MHD_HTTP_UNAUTHORIZED (hr_unauthorized H) replies"

text \<open>The counter: the first listener creates the shared replies, the last one destroys them. Destroying
  a reply leaves a dangling pointer, which no reply is any more.\<close>

definition responses_listener_counter_decref :: "http_responses \<Rightarrow> http_responses" where
  "responses_listener_counter_decref H =
     (let n = hr_listeners_counter H - 1
      in if n = 0
         then \<lparr>hr_empty_response = None, hr_method_not_allowed_allow_get_post = None,
               hr_method_not_allowed_allow_post = None, hr_unauthorized = None, hr_listeners_counter = n\<rparr>
         else H\<lparr>hr_listeners_counter := n\<rparr>)"

definition responses_listener_counter_incref :: "bool \<Rightarrow> http_responses \<Rightarrow> int \<times> http_responses" where
  "responses_listener_counter_incref create_ok H =
     (let fresh = MHD_create_response_from_buffer create_ok 0 None;
          n = hr_listeners_counter H + 1
      in (0, if hr_listeners_counter H = 0
             then \<lparr>hr_empty_response = fresh,
                   hr_method_not_allowed_allow_get_post = MHD_add_response_header fresh ''Allow'' ''GET, POST'',
                   hr_method_not_allowed_allow_post = MHD_add_response_header fresh ''Allow'' ''POST'',
                   hr_unauthorized = MHD_add_response_header fresh ''WWW-Authenticate'' ''Basic'',
                   hr_listeners_counter = n\<rparr>
             else H\<lparr>hr_listeners_counter := n\<rparr>))"

definition no_responses :: http_responses where
  "no_responses = \<lparr>hr_empty_response = None, hr_method_not_allowed_allow_get_post = None,
     hr_method_not_allowed_allow_post = None, hr_unauthorized = None, hr_listeners_counter = 0\<rparr>"

definition shared_responses :: "int \<Rightarrow> http_responses" where
  "shared_responses n = \<lparr>hr_empty_response = Some \<lparr>resp_body = [], resp_headers = []\<rparr>,
     hr_method_not_allowed_allow_get_post = Some \<lparr>resp_body = [], resp_headers = [(''Allow'', ''GET, POST'')]\<rparr>,
     hr_method_not_allowed_allow_post = Some \<lparr>resp_body = [], resp_headers = [(''Allow'', ''POST'')]\<rparr>,
     hr_unauthorized = Some \<lparr>resp_body = [], resp_headers = [(''WWW-Authenticate'', ''Basic'')]\<rparr>,
     hr_listeners_counter = n\<rparr>"

text \<open>With memory, the replies exist exactly while there are listeners.\<close>

definition responses_ok :: "nat \<Rightarrow> http_responses \<Rightarrow> bool" where
  "responses_ok n H \<longleftrightarrow> H = (if n = 0 then no_responses else shared_responses (int n))"

lemma responses_ok_incref: "responses_ok n H \<Longrightarrow> responses_ok (Suc n) (snd (responses_listener_counter_incref True H))"
  by (auto simp: responses_ok_def responses_listener_counter_incref_def no_responses_def shared_responses_def
      MHD_create_response_from_buffer_def MHD_add_response_header_def)

lemma responses_ok_decref: "responses_ok (Suc n) H \<Longrightarrow> responses_ok n (responses_listener_counter_decref H)"
  by (cases n) (auto simp: responses_ok_def responses_listener_counter_decref_def no_responses_def shared_responses_def)

end
