(* ===== verification/Http.thy ===== *)
theory Http
  imports Listener_Api Http_Auth Http_Support
begin

text \<open>
  The HTTP listener's requests (\<^verbatim>\<open>src/listener/http/http.c\<close>). libmicrohttpd calls the handler once to open
  a request, once per chunk of its body and once at its end, and reports when the request is over; between
  the calls the listener keeps the connection information behind an opaque pointer. zlib and
  libmicrohttpd are parameters. A decoder is a value of \<open>n2k_decoder\<close>, with its own world.
\<close>

section \<open>Parameters\<close>

datatype z_ret = Z_OK | Z_STREAM_END | Z_NEED_DICT | Z_DATA_ERROR | Z_MEM_ERROR | Z_BUF_ERROR | Z_STREAM_ERROR
  | Z_VERSION_ERROR | Z_ERRNO

text \<open>
  zlib: the zeroed stream, its initialisation, and one call of inflate on the input that is left, with or
  without an output buffer: the code, what it wrote, the input it left and the stream.
\<close>

record 'z zlib =
  z_zero :: 'z
  z_inflateInit2 :: "z_ret \<times> 'z"
  z_inflate :: "'z \<Rightarrow> bytes \<Rightarrow> bool \<Rightarrow> z_ret \<times> bytes \<times> bytes \<times> 'z"

text \<open>
  What libmicrohttpd tells about a connection: the address of the client, if it is known, the result of
  gnutls's verification of the client certificate, the basic authentication and the headers.
\<close>

record mhd_connection = mhd_replies +
  mc_client_addr :: "sockaddr option"
  mc_cert_status :: "32 word option"
  mc_basic_auth :: "(string \<times> string) option"
  mc_headers :: "(string \<times> string option) list"

record 'z http_env =
  env_zlib :: "'z zlib"
  env_al :: allocator
  env_conn_calloc_ok :: bool
  env_responses :: http_responses
  env_inet_ntop :: "sockaddr \<Rightarrow> string option"
  env_cert_flags :: "cert_flag \<Rightarrow> 32 word"

record ('w, 'j, 'o, 's) http_listener =
  hl_listener :: "('w, 'j, 'o, 's) listener"
  hl_htpasswd :: "bytes option"
  hl_client_tls_cert :: bool

definition ZLIB_CHUNK :: nat where
  "ZLIB_CHUNK = 512 * 1024"

section \<open>Connection information\<close>

record ('z, 's) conn_info =
  ci_str :: n2k_string
  ci_decoder_params :: keyval_list
  ci_zlib_enable :: bool
  ci_zlib_strm :: 'z
  ci_decoder_sess :: "'s option"
  ci_error_code :: nat
  ci_error_str :: "bytes option"
  ci_error_size :: nat
  ci_decoder_opts :: "pair list"

text \<open>The opaque pointer of a request: null, the mark 1 of a GET request, or the connection information.\<close>

datatype ('z, 's) con_cls = Cls_null | Cls_one | Cls_conn "('z, 's) conn_info"

record ('w, 'z, 's) http_state =
  hs_ptr :: "('z, 's) con_cls"
  hs_replies :: "http_reply list"
  hs_world :: 'w

definition conn_info_queue_response ::
  "('z, 's) conn_info \<Rightarrow> nat \<Rightarrow> bytes option \<Rightarrow> nat \<Rightarrow> ('z, 's) conn_info" where
  "conn_info_queue_response ci http_error_code http_error_response http_error_response_size =
     ci\<lparr>ci_error_code := http_error_code, ci_error_str := http_error_response, ci_error_size := http_error_response_size\<rparr>"

definition conn_info_has_queue_response :: "('z, 's) conn_info \<Rightarrow> bool" where
  "conn_info_has_queue_response ci \<longleftrightarrow> ci_error_code ci \<noteq> 0"

text \<open>The end of a request. Freeing the connection information leaves nothing of it.\<close>

definition request_completed ::
  "('w, 'j, 'o, 's) http_listener \<Rightarrow> ('w, 'z, 's) http_state \<Rightarrow> ('w, 'z, 's) http_state c_run" where
  "request_completed hl st =
     (case hs_ptr st of
        Cls_null \<Rightarrow> r_return st
      | Cls_one \<Rightarrow> Some (Inl OutOfBounds)
      | Cls_conn ci \<Rightarrow>
          r_bind (case dec_delete_session (li_decoder (hl_listener hl)) of
                    None \<Rightarrow> r_return (hs_world st)
                  | Some delete_session \<Rightarrow>
                      (case ci_decoder_sess ci of
                         None \<Rightarrow> Some (Inl NullDeref)
                       | Some s \<Rightarrow> delete_session s (hs_world st)))
            (\<lambda>w. r_return (st\<lparr>hs_world := w, hs_ptr := Cls_null\<rparr>)))"

definition connection_args_iterator :: "string \<times> string option \<Rightarrow> ('z, 's) conn_info \<Rightarrow> ('z, 's) conn_info" where
  "connection_args_iterator kv ci =
     (case kv of
        (key, val) \<Rightarrow>
          let ci1 = (case val of
                       None \<Rightarrow> ci
                     | Some v \<Rightarrow>
                         if strcasecmp0 ''Content-Encoding'' key \<and> (strcasecmp0 ''deflate'' v \<or> strcasecmp0 ''gzip'' v)
                         then ci\<lparr>ci_zlib_enable := True\<rparr> else ci)
          in ci1\<lparr>ci_decoder_opts := ci_decoder_opts ci1 @ [\<lparr>pair_key = key, pair_value = val\<rparr>]\<rparr>)"

fun zlib_init_error2str :: "z_ret \<Rightarrow> string" where
  "zlib_init_error2str Z_MEM_ERROR = ''{\"error\":\"Out of memory on zlib init\"}''"
| "zlib_init_error2str _ = ''{\"error\":\"Unknown error\"}''"

fun zlib_deflate_error2str :: "z_ret \<Rightarrow> string" where
  "zlib_deflate_error2str Z_NEED_DICT = ''{\"error\":\"libz deflate error: a dictionary is need\"}''"
| "zlib_deflate_error2str Z_DATA_ERROR = ''{\"error\":\"deflated input is not conforming to the zlib format\"}''"
| "zlib_deflate_error2str Z_MEM_ERROR = ''{\"error\":\"Out of memory\"}''"
| "zlib_deflate_error2str Z_BUF_ERROR = ''{\"error\":\"Is not possible to progress in input stream\"}''"
| "zlib_deflate_error2str _ = ''{\"error\":\"Unknown error\"}''"

text \<open>The decoder's properties: the request's headers first, then what the listener adds.\<close>

definition listener_options :: "string \<Rightarrow> string \<Rightarrow> string option \<Rightarrow> pair list" where
  "listener_options http_method uri client =
     [\<lparr>pair_key = ''D-HTTP-method'', pair_value = Some http_method\<rparr>,
      \<lparr>pair_key = ''D-HTTP-URI'', pair_value = Some uri\<rparr>,
      \<lparr>pair_key = ''D-Client-IP'', pair_value = client\<rparr>]"

definition decoder_opts ::
  "mhd_connection \<Rightarrow> string \<Rightarrow> string \<Rightarrow> string option \<Rightarrow> ('z, 's) conn_info option
   \<Rightarrow> nat \<times> ('z, 's) conn_info option" where
  "decoder_opts con http_method uri client conn =
     (length (mc_headers con) + length (listener_options http_method uri client),
      map_option (\<lambda>ci.
        let ci1 = fold connection_args_iterator (mc_headers con) ci;
            ci2 = ci1\<lparr>ci_decoder_opts := ci_decoder_opts ci1 @ listener_options http_method uri client\<rparr>
        in ci2\<lparr>ci_decoder_params := foldl add_key_value_pair keyval_list_init (ci_decoder_opts ci2)\<rparr>) conn)"

definition zeroed_conn_info :: "'z \<Rightarrow> ('z, 's) conn_info" where
  "zeroed_conn_info z = \<lparr>ci_str = N2K_STRING_INITIALIZER, ci_decoder_params = [], ci_zlib_enable = False, ci_zlib_strm = z,
     ci_decoder_sess = None, ci_error_code = 0, ci_error_str = None, ci_error_size = 0, ci_decoder_opts = []\<rparr>"

text \<open>The error of a failed zlib initialisation is set, but the connection information is returned all the same.\<close>

definition create_connection_info ::
  "'z http_env \<Rightarrow> mhd_connection \<Rightarrow> string \<Rightarrow> string \<Rightarrow> string option
   \<Rightarrow> ('z, 's) conn_info option \<times> string option" where
  "create_connection_info env con http_method uri client =
     (if \<not> env_conn_calloc_ok env then (None, Some ''Can't allocate conection context (out of memory?)'')
      else case snd (decoder_opts con http_method uri client (Some (zeroed_conn_info (z_zero (env_zlib env))))) of
             None \<Rightarrow> (None, None)
           | Some ci \<Rightarrow>
               let ci1 = ci\<lparr>ci_str := snd (string_init (ci_str ci))\<rparr>
               in if ci_zlib_enable ci1
                  then let (rc, strm) = z_inflateInit2 (env_zlib env)
                       in (Some (ci1\<lparr>ci_zlib_strm := strm\<rparr>), if rc \<noteq> Z_OK then Some (zlib_init_error2str rc) else None)
                  else (Some ci1, None))"

section \<open>Decompressing\<close>

definition zlib_error_code :: "z_ret \<Rightarrow> decoder_callback_err" where
  "zlib_error_code zret =
     (if zret = Z_NEED_DICT \<or> zret = Z_DATA_ERROR then DECODER_CALLBACK_INVALID_REQUEST else DECODER_CALLBACK_GENERIC_ERROR)"

text \<open>
  The loop runs until inflate leaves room in its output buffer, fails, or the decoder refuses a piece.
  What is left of the input stays in the stream.
\<close>

partial_function (option) inflate_loop ::
  "'z zlib \<Rightarrow> bool \<Rightarrow> ('w, 'j, 'o, 's) listener \<Rightarrow> keyval_list \<Rightarrow> 'z \<Rightarrow> bytes \<Rightarrow> decoder_response \<Rightarrow> 's option \<Rightarrow> 'w
   \<Rightarrow> (decoder_callback_err \<times> decoder_response \<times> 's option \<times> 'z \<times> 'w) c_run" where
  "inflate_loop Z buffer_ok li props strm input response sess w =
     (case z_inflate Z strm input buffer_ok of
        (zret, out, rest, strm1) \<Rightarrow>
          if zret \<noteq> Z_OK \<and> zret \<noteq> Z_STREAM_END
          then r_return (zlib_error_code zret, (Some (zlib_deflate_error2str zret), snd response), sess, strm1, w)
          else if out = [] then r_return (DECODER_CALLBACK_OK, response, sess, strm1, w)
          else r_bind (listener_decode li out props (Some response) sess w) (\<lambda>(rc, response1, sess1, w1).
            let resp = (case response1 of Some r \<Rightarrow> r | None \<Rightarrow> response)
            in if rc \<noteq> DECODER_CALLBACK_OK then r_return (rc, resp, sess1, strm1, w1)
               else if length out = ZLIB_CHUNK then inflate_loop Z buffer_ok li props strm1 rest resp sess1 w1
               else r_return (rc, resp, sess1, strm1, w1)))"

definition compressed_callback ::
  "'z http_env \<Rightarrow> ('w, 'j, 'o, 's) http_listener \<Rightarrow> ('z, 's) conn_info \<Rightarrow> bytes \<Rightarrow> decoder_response \<Rightarrow> 'w
   \<Rightarrow> (decoder_callback_err \<times> decoder_response \<times> ('z, 's) conn_info \<times> 'w) c_run" where
  "compressed_callback env hl ci upload_data response w =
     r_bind (inflate_loop (env_zlib env) (al_ok (env_al env) (of_nat ZLIB_CHUNK)) (hl_listener hl) (ci_decoder_params ci)
               (ci_zlib_strm ci) upload_data response (ci_decoder_sess ci) w)
       (\<lambda>(rc, response1, sess, strm, w1).
          r_return (rc, response1, ci\<lparr>ci_zlib_strm := strm, ci_decoder_sess := sess\<rparr>, w1))"

section \<open>POST requests\<close>

definition client_addr :: "'z http_env \<Rightarrow> mhd_connection \<Rightarrow> string option" where
  "client_addr env con =
     (case mc_client_addr con of
        None \<Rightarrow> None
      | Some addr \<Rightarrow> sockaddr2str (env_inet_ntop env) addr)"

text \<open>The certificate of the client, with the reply when it is not valid.\<close>

definition http_valid_client_certificate ::
  "'z http_env \<Rightarrow> mhd_connection \<Rightarrow> http_reply list \<Rightarrow> bool \<times> http_reply list" where
  "http_valid_client_certificate env con replies =
     (case tls_valid_client_certificate (env_cert_flags env) (mc_cert_status con) of
        None \<Rightarrow> (True, replies)
      | Some errstr \<Rightarrow> (False, snd (send_buffered_response (mhd_replies.truncate con) (length errstr) (Some errstr) MHD_HTTP_FORBIDDEN replies)))"

definition reply_with ::
  "('w, 'z, 's) http_state \<Rightarrow> bool \<times> http_reply list \<Rightarrow> (bool \<times> ('w, 'z, 's) http_state) c_run" where
  "reply_with st r = r_return (fst r, st\<lparr>hs_replies := snd r\<rparr>)"

text \<open>What follows the checks: the connection information and the decoder's session.\<close>

definition open_connection ::
  "'z http_env \<Rightarrow> ('w, 'j, 'o, 's) http_listener \<Rightarrow> mhd_connection \<Rightarrow> string \<Rightarrow> string \<Rightarrow> string
   \<Rightarrow> ('w, 'z, 's) http_state \<Rightarrow> (bool \<times> ('w, 'z, 's) http_state) c_run" where
  "open_connection env hl con url http_method client st =
     (case create_connection_info env con http_method url (Some client) of
        (None, create_error) \<Rightarrow>
          (let e = (case create_error of Some x \<Rightarrow> x | None \<Rightarrow> [])
           in reply_with st (send_buffered_response (mhd_replies.truncate con) (length e) (Some e) MHD_HTTP_INTERNAL_SERVER_ERROR (hs_replies st)))
      | (Some ci, _) \<Rightarrow>
          (case dec_new_session (li_decoder (hl_listener hl)) of
             None \<Rightarrow> r_return (True, st\<lparr>hs_ptr := Cls_conn ci\<rparr>)
           | Some new_session \<Rightarrow>
               r_bind (new_session (li_decoder_opaque (hl_listener hl)) (ci_decoder_params ci) (hs_world st)) (\<lambda>(session_rc, sess, w).
                 if session_rc \<noteq> 0 then r_return (False, st\<lparr>hs_ptr := Cls_null, hs_world := w\<rparr>)
                 else r_return (True, st\<lparr>hs_ptr := Cls_conn (ci\<lparr>ci_decoder_sess := sess\<rparr>), hs_world := w\<rparr>))))"

definition handle_http_post_init ::
  "'z http_env \<Rightarrow> ('w, 'j, 'o, 's) http_listener \<Rightarrow> mhd_connection \<Rightarrow> string \<Rightarrow> string
   \<Rightarrow> ('w, 'z, 's) http_state \<Rightarrow> (bool \<times> ('w, 'z, 's) http_state) c_run" where
  "handle_http_post_init env hl con url http_method st =
     (case client_addr env con of
        None \<Rightarrow> r_return (False, st)
      | Some client \<Rightarrow>
          let (cert_ok, replies) = (if hl_client_tls_cert hl then http_valid_client_certificate env con (hs_replies st)
                                    else (True, hs_replies st))
          in if \<not> cert_ok then r_return (True, st\<lparr>hs_replies := replies\<rparr>)
             else (case hl_htpasswd hl of
                     None \<Rightarrow> open_connection env hl con url http_method client st
                   | Some htpasswd \<Rightarrow>
                       (case mc_basic_auth con of
                          None \<Rightarrow> reply_with st (send_http_unauthorized_basic (env_responses env) (mhd_replies.truncate con) (hs_replies st))
                        | Some (user, password) \<Rightarrow>
                            r_bind (http_authenticate user password htpasswd) (\<lambda>basic_auth_ok.
                              if \<not> basic_auth_ok
                              then reply_with st (send_http_unauthorized_basic (env_responses env) (mhd_replies.truncate con) (hs_replies st))
                              else open_connection env hl con url http_method client st))))"

fun decoder_err2http :: "decoder_callback_err \<Rightarrow> nat" where
  "decoder_err2http DECODER_CALLBACK_OK = MHD_HTTP_OK"
| "decoder_err2http DECODER_CALLBACK_BUFFER_FULL = MHD_HTTP_SERVICE_UNAVAILABLE"
| "decoder_err2http DECODER_CALLBACK_INVALID_REQUEST = MHD_HTTP_BAD_REQUEST"
| "decoder_err2http DECODER_CALLBACK_UNKNOWN_TOPIC = MHD_HTTP_BAD_REQUEST"
| "decoder_err2http DECODER_CALLBACK_UNKNOWN_PARTITION = MHD_HTTP_BAD_REQUEST"
| "decoder_err2http DECODER_CALLBACK_MSG_TOO_LARGE = MHD_HTTP_PAYLOAD_TOO_LARGE"
| "decoder_err2http DECODER_CALLBACK_HTTP_METHOD_NOT_ALLOWED = MHD_HTTP_METHOD_NOT_ALLOWED"
| "decoder_err2http DECODER_CALLBACK_RESOURCE_NOT_FOUND = MHD_HTTP_NOT_FOUND"
| "decoder_err2http DECODER_CALLBACK_MEMORY_ERROR = MHD_HTTP_INTERNAL_SERVER_ERROR"
| "decoder_err2http DECODER_CALLBACK_GENERIC_ERROR = MHD_HTTP_INTERNAL_SERVER_ERROR"

definition handle_http_post_chunk ::
  "'z http_env \<Rightarrow> ('w, 'j, 'o, 's) http_listener \<Rightarrow> bytes \<Rightarrow> ('z, 's) conn_info
   \<Rightarrow> ('w, 'z, 's) http_state \<Rightarrow> (bool \<times> ('w, 'z, 's) http_state) c_run" where
  "handle_http_post_chunk env hl upload_data ci st =
     (if conn_info_has_queue_response ci then r_return (True, st)
      else r_bind
        (if dec_new_session (li_decoder (hl_listener hl)) = None
         then (let (append_rc, str) = string_append (env_al env) (ci_str ci) upload_data
               in r_return (if append_rc = 0 then DECODER_CALLBACK_OK else DECODER_CALLBACK_MEMORY_ERROR,
                            no_response, ci\<lparr>ci_str := str\<rparr>, hs_world st))
         else if ci_zlib_enable ci then compressed_callback env hl ci upload_data no_response (hs_world st)
         else r_bind (listener_decode (hl_listener hl) upload_data (ci_decoder_params ci) (Some no_response)
                        (ci_decoder_sess ci) (hs_world st))
                (\<lambda>(rc, response, sess, w).
                   r_return (rc, case response of Some r \<Rightarrow> r | None \<Rightarrow> no_response, ci\<lparr>ci_decoder_sess := sess\<rparr>, w)))
        (\<lambda>(decode_rc, response, ci1, w).
           let ci2 = (if decode_rc \<noteq> DECODER_CALLBACK_OK
                      then conn_info_queue_response ci1 (decoder_err2http decode_rc) (fst response) (snd response)
                      else ci1)
           in r_return (True, st\<lparr>hs_ptr := Cls_conn ci2, hs_world := w\<rparr>)))"

text \<open>The length of the reply: a response without a size is a C string.\<close>

definition effective_len :: "('z, 's) conn_info \<Rightarrow> nat" where
  "effective_len ci =
     (case ci_error_str ci of
        None \<Rightarrow> 0
      | Some str \<Rightarrow> if ci_error_size ci \<noteq> 0 then ci_error_size ci else length (takeWhile (\<lambda>c. c \<noteq> NUL) str))"

definition handle_post_end ::
  "'z http_env \<Rightarrow> ('w, 'j, 'o, 's) http_listener \<Rightarrow> mhd_connection \<Rightarrow> ('z, 's) conn_info
   \<Rightarrow> ('w, 'z, 's) http_state \<Rightarrow> (bool \<times> ('w, 'z, 's) http_state) c_run" where
  "handle_post_end env hl con ci st =
     (if ci_error_code ci \<noteq> 0
      then reply_with st (send_buffered_response (mhd_replies.truncate con) (effective_len ci) (ci_error_str ci) (ci_error_code ci) (hs_replies st))
      else r_bind
        (if dec_new_session (li_decoder (hl_listener hl)) = None
         then r_bind (listener_decode (hl_listener hl) (string_bytes (ci_str ci)) (ci_decoder_params ci) None None (hs_world st))
                (\<lambda>(rc, response, sess, w). r_return w)
         else r_return (hs_world st))
        (\<lambda>w. r_return (True, st\<lparr>hs_world := w,
                hs_replies := snd (send_http_ok (env_responses env) (mhd_replies.truncate con) (hs_replies st))\<rparr>)))"

definition handle_post ::
  "'z http_env \<Rightarrow> ('w, 'j, 'o, 's) http_listener \<Rightarrow> mhd_connection \<Rightarrow> string \<Rightarrow> string \<Rightarrow> bytes
   \<Rightarrow> ('w, 'z, 's) http_state \<Rightarrow> (bool \<times> ('w, 'z, 's) http_state) c_run" where
  "handle_post env hl con url http_method upload_data st =
     (case hs_ptr st of
        Cls_null \<Rightarrow> handle_http_post_init env hl con url http_method st
      | Cls_one \<Rightarrow> Some (Inl OutOfBounds)
      | Cls_conn ci \<Rightarrow>
          if length upload_data > 0 then handle_http_post_chunk env hl upload_data ci st
          else handle_post_end env hl con ci st)"

section \<open>Other requests\<close>

definition handle_get ::
  "'z http_env \<Rightarrow> ('w, 'j, 'o, 's) http_listener \<Rightarrow> mhd_connection \<Rightarrow> string \<Rightarrow> string \<Rightarrow> bytes
   \<Rightarrow> ('w, 'z, 's) http_state \<Rightarrow> (bool \<times> ('w, 'z, 's) http_state) c_run" where
  "handle_get env hl con uri http_method upload_data st =
     (if hs_ptr st = Cls_null then r_return (True, st\<lparr>hs_ptr := Cls_one\<rparr>)
      else let st1 = st\<lparr>hs_ptr := Cls_null\<rparr>;
               props = (case snd (decoder_opts con http_method uri (client_addr env con)
                                    (Some (zeroed_conn_info (z_zero (env_zlib env))) :: ('z, 's) conn_info option)) of
                          Some ci \<Rightarrow> ci_decoder_params ci | None \<Rightarrow> [])
           in r_bind (listener_decode (hl_listener hl) upload_data props (Some no_response) None (hs_world st1))
                (\<lambda>(decode_rc, response, sess, w).
                   let st2 = st1\<lparr>hs_world := w\<rparr>;
                       resp = (case response of Some r \<Rightarrow> r | None \<Rightarrow> no_response)
                   in if decode_rc = DECODER_CALLBACK_HTTP_METHOD_NOT_ALLOWED
                      then reply_with st2 (send_http_method_not_allowed_allow_post (env_responses env) (mhd_replies.truncate con) (hs_replies st2))
                      else reply_with st2 (send_buffered_response (mhd_replies.truncate con) (snd resp) (fst resp)
                                             (decoder_err2http decode_rc) (hs_replies st2))))"

definition handle_request ::
  "'z http_env \<Rightarrow> ('w, 'j, 'o, 's) http_listener \<Rightarrow> mhd_connection \<Rightarrow> string \<Rightarrow> string \<Rightarrow> bytes
   \<Rightarrow> ('w, 'z, 's) http_state \<Rightarrow> (bool \<times> ('w, 'z, 's) http_state) c_run" where
  "handle_request env hl con url http_method upload_data st =
     (if strcmp0 http_method ''POST'' then handle_post env hl con url http_method upload_data st
      else if strcmp0 http_method ''GET'' then handle_get env hl con url http_method upload_data st
      else reply_with st (send_http_method_not_allowed_allow_get_post (env_responses env) (mhd_replies.truncate con) (hs_replies st)))"

end
