(* ===== verification/Http_Request.thy ===== *)
theory Http_Request
  imports Http
begin

text \<open>
  The life of a request. libmicrohttpd drives the handlers of \<open>Http\<close>; here are the sequences of calls it
  makes, as a function for a request that is not interrupted (\<open>post_request\<close>) and as a step relation for
  any order the library allows, a broken connection at any moment included (\<open>post_step\<close>).
\<close>

section \<open>An uninterrupted POST request\<close>

fun post_body ::
  "'z http_env \<Rightarrow> ('w, 'j, 'o, 's) http_listener \<Rightarrow> mhd_connection \<Rightarrow> string \<Rightarrow> bytes list
   \<Rightarrow> ('w, 'z, 's) http_state \<Rightarrow> ('w, 'z, 's) http_state c_run" where
  "post_body env hl con url [] st = r_return st"
| "post_body env hl con url (c # cs) st =
     r_bind (handle_request env hl con url ''POST'' c st) (\<lambda>(_, st1). post_body env hl con url cs st1)"

text \<open>When the first call refuses the connection or answers it, no further call is made.\<close>

definition post_request ::
  "'z http_env \<Rightarrow> ('w, 'j, 'o, 's) http_listener \<Rightarrow> mhd_connection \<Rightarrow> string \<Rightarrow> bytes list \<Rightarrow> 'w
   \<Rightarrow> ('w, 'z, 's) http_state c_run" where
  "post_request env hl con url cs w =
     r_bind (handle_request env hl con url ''POST'' [] \<lparr>hs_ptr = Cls_null, hs_replies = [], hs_world = w\<rparr>) (\<lambda>(go, st).
       if \<not> go \<or> hs_ptr st = Cls_null then request_completed hl st
       else r_bind (post_body env hl con url cs st) (\<lambda>st1.
         r_bind (handle_request env hl con url ''POST'' [] st1) (\<lambda>(_, st2). request_completed hl st2)))"

text \<open>The decoder on the chunks, up to the first it refuses.\<close>

fun decode_chunks ::
  "('w, 'j, 'o, 's) listener \<Rightarrow> keyval_list \<Rightarrow> bytes list \<Rightarrow> 's option \<Rightarrow> 'w
   \<Rightarrow> (decoder_callback_err \<times> decoder_response \<times> 's option \<times> 'w) c_run" where
  "decode_chunks li props [] sess w = r_return (DECODER_CALLBACK_OK, no_response, sess, w)"
| "decode_chunks li props (c # cs) sess w =
     r_bind (listener_decode li c props (Some no_response) sess w) (\<lambda>(rc, response, sess1, w1).
       if rc \<noteq> DECODER_CALLBACK_OK then r_return (rc, case response of Some r \<Rightarrow> r | None \<Rightarrow> no_response, sess1, w1)
       else decode_chunks li props cs sess1 w1)"

text \<open>The properties a POST request's decoder sees.\<close>

definition request_props :: "mhd_connection \<Rightarrow> string \<Rightarrow> string \<Rightarrow> string option \<Rightarrow> keyval_list" where
  "request_props con http_method url client =
     map (\<lambda>(k, v). \<lparr>pair_key = k, pair_value = v\<rparr>) (mc_headers con) @ listener_options http_method url client"

definition compressed_request :: "mhd_connection \<Rightarrow> bool" where
  "compressed_request con \<longleftrightarrow> (\<exists>(k, v) \<in> set (mc_headers con). strcasecmp0 ''Content-Encoding'' k \<and>
     (\<exists>x. v = Some x \<and> (strcasecmp0 ''deflate'' x \<or> strcasecmp0 ''gzip'' x)))"

lemma args_iterator_fields [simp]:
  "ci_decoder_opts (connection_args_iterator kv ci) = ci_decoder_opts ci @ [\<lparr>pair_key = fst kv, pair_value = snd kv\<rparr>]"
  "ci_error_code (connection_args_iterator kv ci) = ci_error_code ci"
  "ci_decoder_sess (connection_args_iterator kv ci) = ci_decoder_sess ci"
  "ci_str (connection_args_iterator kv ci) = ci_str ci"
  "ci_zlib_enable (connection_args_iterator kv ci) \<longleftrightarrow> ci_zlib_enable ci \<or> strcasecmp0 ''Content-Encoding'' (fst kv) \<and>
     (\<exists>x. snd kv = Some x \<and> (strcasecmp0 ''deflate'' x \<or> strcasecmp0 ''gzip'' x))"
  by (auto simp: connection_args_iterator_def Let_def split: prod.splits option.splits)

lemma fold_args_iterator:
  "ci_decoder_opts (fold connection_args_iterator kvs ci) = ci_decoder_opts ci @ map (\<lambda>(k, v). \<lparr>pair_key = k, pair_value = v\<rparr>) kvs"
  "ci_error_code (fold connection_args_iterator kvs ci) = ci_error_code ci"
  "ci_decoder_sess (fold connection_args_iterator kvs ci) = ci_decoder_sess ci"
  "ci_str (fold connection_args_iterator kvs ci) = ci_str ci"
  "ci_zlib_enable (fold connection_args_iterator kvs ci) \<longleftrightarrow> ci_zlib_enable ci \<or> (\<exists>(k, v) \<in> set kvs. strcasecmp0 ''Content-Encoding'' k \<and>
     (\<exists>x. v = Some x \<and> (strcasecmp0 ''deflate'' x \<or> strcasecmp0 ''gzip'' x)))"
  by (induction kvs arbitrary: ci) (auto split: prod.splits)

lemma foldl_add_pair: "foldl add_key_value_pair l ps = l @ ps"
  by (induction ps arbitrary: l) (simp_all add: add_key_value_pair_def)

text \<open>The connection information of a new request.\<close>

lemma create_connection_info_spec:
  fixes env :: "'z http_env"
  assumes "env_conn_calloc_ok env"
  obtains ci :: "('z, 's) conn_info" and e where "create_connection_info env con http_method url client = (Some ci, e)"
    "ci_decoder_params ci = request_props con http_method url client" "ci_error_code ci = 0" "ci_decoder_sess ci = None"
    "ci_zlib_enable ci = compressed_request con" "ci_str ci = N2K_STRING_INITIALIZER"
proof -
  obtain ci where ci: "snd (decoder_opts con http_method url client (Some (zeroed_conn_info (z_zero (env_zlib env)) :: ('z, 's) conn_info))) = Some ci"
    "ci_decoder_params ci = request_props con http_method url client" "ci_error_code ci = 0" "ci_decoder_sess ci = None"
    "ci_zlib_enable ci = compressed_request con"
    by (simp add: decoder_opts_def Let_def fold_args_iterator foldl_add_pair keyval_list_init_def
        zeroed_conn_info_def request_props_def compressed_request_def)
  define ci1 where "ci1 = ci\<lparr>ci_str := snd (string_init (ci_str ci))\<rparr>"
  obtain rc strm where z: "z_inflateInit2 (env_zlib env) = (rc, strm)" by fastforce
  have "create_connection_info env con http_method url client =
      (if ci_zlib_enable ci then (Some (ci1\<lparr>ci_zlib_strm := strm\<rparr>), if rc \<noteq> Z_OK then Some (zlib_init_error2str rc) else None)
       else (Some ci1, None))"
    using assms ci(1) z by (simp add: create_connection_info_def ci1_def)
  then show thesis
    using that [of "ci1\<lparr>ci_zlib_strm := strm\<rparr>"] that [of ci1] ci(2-5)
    by (cases "ci_zlib_enable ci") (simp_all add: ci1_def string_init_def N2K_STRING_INITIALIZER_def)
qed

text \<open>The checks before a request passes them.\<close>

definition request_admitted :: "'z http_env \<Rightarrow> ('w, 'j, 'o, 's) http_listener \<Rightarrow> mhd_connection \<Rightarrow> bool" where
  "request_admitted env hl con \<longleftrightarrow> client_addr env con \<noteq> None \<and> (hl_client_tls_cert hl \<longrightarrow> mc_cert_status con = Some 0) \<and>
     (case hl_htpasswd hl of
        None \<Rightarrow> True
      | Some db \<Rightarrow> (case mc_basic_auth con of
                     None \<Rightarrow> False
                   | Some (user, password) \<Rightarrow> http_authenticate user password db = r_return True))"

lemma handle_http_post_init_admitted:
  assumes "request_admitted env hl con" and "client_addr env con = Some client"
  shows "handle_http_post_init env hl con url http_method st = open_connection env hl con url http_method client st"
  using assms
  by (auto simp: handle_http_post_init_def request_admitted_def http_valid_client_certificate_def
      tls_valid_iff [THEN iffD2, OF refl] split: option.splits prod.splits)

text \<open>The chunks of the body, once a session is open.\<close>

lemma post_body_queued:
  assumes "hs_ptr st = Cls_conn ci" and "ci_error_code ci \<noteq> 0" and "\<forall>c \<in> set cs. c \<noteq> []"
  shows "post_body env hl con url cs st = r_return st"
  using assms(3)
  by (induction cs) (simp_all add: assms(1,2) handle_request_def strcmp0_def handle_post_def handle_http_post_chunk_def
      conn_info_has_queue_response_def)

lemma post_body_decodes:
  assumes "dec_new_session (li_decoder (hl_listener hl)) = Some new_session" and "\<not> ci_zlib_enable ci" and "ci_error_code ci = 0"
    and "\<forall>c \<in> set cs. c \<noteq> []" and "hs_ptr st = Cls_conn ci"
    and "decode_chunks (hl_listener hl) (ci_decoder_params ci) cs (ci_decoder_sess ci) (hs_world st) = r_return (rc, response, sess, w)"
  shows "post_body env hl con url cs st = r_return (st\<lparr>hs_world := w, hs_ptr := Cls_conn
    (if rc = DECODER_CALLBACK_OK then ci\<lparr>ci_decoder_sess := sess\<rparr>
     else conn_info_queue_response (ci\<lparr>ci_decoder_sess := sess\<rparr>) (decoder_err2http rc) (fst response) (snd response))\<rparr>)"
  using assms(2-)
proof (induction cs arbitrary: ci st)
  case Nil
  then show ?case by simp
next
  case (Cons c cs)
  from Cons.prems(5) obtain rc1 resp1 sess1 w1
    where d: "listener_decode (hl_listener hl) c (ci_decoder_params ci) (Some no_response) (ci_decoder_sess ci) (hs_world st) =
      r_return (rc1, resp1, sess1, w1)"
    by (auto simp: r_bind_def split: option.splits sum.splits)
  let ?r = "case resp1 of Some r \<Rightarrow> r | None \<Rightarrow> no_response"
  let ?ci = "if rc1 = DECODER_CALLBACK_OK then ci\<lparr>ci_decoder_sess := sess1\<rparr>
    else conn_info_queue_response (ci\<lparr>ci_decoder_sess := sess1\<rparr>) (decoder_err2http rc1) (fst ?r) (snd ?r)"
  have step: "handle_request env hl con url ''POST'' c st = r_return (True, st\<lparr>hs_world := w1, hs_ptr := Cls_conn ?ci\<rparr>)"
    using Cons.prems(1-4) assms(1) d
    by (simp add: handle_request_def strcmp0_def handle_post_def handle_http_post_chunk_def conn_info_has_queue_response_def)
  show ?case
  proof (cases "rc1 = DECODER_CALLBACK_OK")
    case True
    with Cons.IH [of "ci\<lparr>ci_decoder_sess := sess1\<rparr>" "st\<lparr>hs_world := w1, hs_ptr := Cls_conn ?ci\<rparr>"] Cons.prems d step
    show ?thesis by simp
  next
    case False
    then have "ci_error_code ?ci \<noteq> 0" by (cases rc1) (simp_all add: conn_info_queue_response_def http_codes)
    with post_body_queued [of "st\<lparr>hs_world := w1, hs_ptr := Cls_conn ?ci\<rparr>" ?ci cs env hl con url] Cons.prems d step False
    show ?thesis by simp
  qed
qed

section \<open>Compressed bodies\<close>

text \<open>
  The calls of inflate on one chunk: each but the last fills the output buffer, and the last leaves room
  in it. \<open>outs\<close> are the pieces they give.
\<close>

fun inflates :: "'z zlib \<Rightarrow> bool \<Rightarrow> 'z \<Rightarrow> bytes \<Rightarrow> bytes list \<Rightarrow> 'z \<Rightarrow> bool" where
  "inflates Z ok strm input [] strm' \<longleftrightarrow> False"
| "inflates Z ok strm input (out # outs) strm' \<longleftrightarrow>
     (case z_inflate Z strm input ok of
        (zret, out', rest, strm1) \<Rightarrow>
          (zret = Z_OK \<or> zret = Z_STREAM_END) \<and> out' = out \<and>
          (if outs = [] then length out < ZLIB_CHUNK \<and> strm' = strm1
           else length out = ZLIB_CHUNK \<and> inflates Z ok strm1 rest outs strm'))"

text \<open>A decoder that says nothing about the chunks it accepts.\<close>

definition quiet_decoder :: "('w, 'j, 'o, 's) listener \<Rightarrow> bool" where
  "quiet_decoder li \<longleftrightarrow> (\<forall>buf props resp sess w resp' sess' w'.
     listener_decode li buf props resp sess w = r_return (DECODER_CALLBACK_OK, resp', sess', w') \<longrightarrow> resp' = resp)"

lemma ZLIB_CHUNK_pos: "0 < ZLIB_CHUNK"
  by (simp add: ZLIB_CHUNK_def)

lemma inflate_loop_decodes:
  assumes "quiet_decoder li"
  shows "inflates Z ok strm input outs strm' \<Longrightarrow>
    decode_chunks li props (filter (\<lambda>out. out \<noteq> []) outs) sess w = r_return (rc, response, sess', w') \<Longrightarrow>
    \<exists>strm''. inflate_loop Z ok li props strm input no_response sess w = r_return (rc, response, sess', strm'', w') \<and>
      (rc = DECODER_CALLBACK_OK \<longrightarrow> strm'' = strm')"
proof (induction outs arbitrary: strm input sess w)
  case Nil
  then show ?case by simp
next
  case (Cons out outs)
  obtain zret rest strm1 where z: "z_inflate Z strm input ok = (zret, out, rest, strm1)" "zret = Z_OK \<or> zret = Z_STREAM_END"
    and tl: "if outs = [] then length out < ZLIB_CHUNK \<and> strm' = strm1
      else length out = ZLIB_CHUNK \<and> inflates Z ok strm1 rest outs strm'"
    using Cons.prems(1) by (auto split: prod.splits)
  show ?case
  proof (cases "out = []")
    case True
    with tl ZLIB_CHUNK_pos have "outs = []" by (auto split: if_splits)
    with True z tl Cons.prems(2) show ?thesis by (subst inflate_loop.simps) auto
  next
    case False
    with Cons.prems(2) obtain rc1 resp1 sess1 w1
      where d: "listener_decode li out props (Some no_response) sess w = r_return (rc1, resp1, sess1, w1)"
      by (auto simp: r_bind_def split: option.splits sum.splits)
    show ?thesis
    proof (cases "rc1 = DECODER_CALLBACK_OK")
      case ok: True
      with d assms have q: "resp1 = Some no_response" unfolding quiet_decoder_def by blast
      show ?thesis
      proof (cases "outs = []")
        case True
        with z tl False d ok q Cons.prems(2) show ?thesis by (subst inflate_loop.simps) auto
      next
        case more: False
        with tl have step: "length out = ZLIB_CHUNK" "inflates Z ok strm1 rest outs strm'" by simp_all
        have "decode_chunks li props (filter (\<lambda>out. out \<noteq> []) outs) sess1 w1 = r_return (rc, response, sess', w')"
          using Cons.prems(2) False d ok by simp
        from Cons.IH [OF step(2) this] z step(1) False d ok q show ?thesis by (subst inflate_loop.simps) auto
      qed
    next
      case bad: False
      with z False d Cons.prems(2) show ?thesis by (subst inflate_loop.simps) auto
    qed
  qed
qed

section \<open>Any order of calls\<close>

text \<open>
  The moments of a POST request: before the first call, while its body arrives, after the reply, and
  after it is over, which may come at any moment.
\<close>

datatype mhd_phase = Opening | Receiving | Answered | Over

inductive post_step ::
  "'z http_env \<Rightarrow> ('w, 'j, 'o, 's) http_listener \<Rightarrow> mhd_connection \<Rightarrow> string
   \<Rightarrow> mhd_phase \<times> ('w, 'z, 's) http_state \<Rightarrow> mhd_phase \<times> ('w, 'z, 's) http_state \<Rightarrow> bool"
  for env hl con url where
  step_open: "handle_request env hl con url ''POST'' [] st = r_return (go, st') \<Longrightarrow>
    post_step env hl con url (Opening, st) (if go \<and> hs_ptr st' \<noteq> Cls_null then Receiving else Answered, st')"
| step_chunk: "c \<noteq> [] \<Longrightarrow> handle_request env hl con url ''POST'' c st = r_return (go, st') \<Longrightarrow>
    post_step env hl con url (Receiving, st) (Receiving, st')"
| step_end: "handle_request env hl con url ''POST'' [] st = r_return (go, st') \<Longrightarrow>
    post_step env hl con url (Receiving, st) (Answered, st')"
| step_over: "ph \<noteq> Over \<Longrightarrow> request_completed hl st = r_return st' \<Longrightarrow> post_step env hl con url (ph, st) (Over, st')"

inductive post_reachable ::
  "'z http_env \<Rightarrow> ('w, 'j, 'o, 's) http_listener \<Rightarrow> mhd_connection \<Rightarrow> string \<Rightarrow> 'w
   \<Rightarrow> mhd_phase \<times> ('w, 'z, 's) http_state \<Rightarrow> bool"
  for env hl con url w where
  reach_start: "post_reachable env hl con url w (Opening, \<lparr>hs_ptr = Cls_null, hs_replies = [], hs_world = w\<rparr>)"
| reach_step: "post_reachable env hl con url w x \<Longrightarrow> post_step env hl con url x y \<Longrightarrow> post_reachable env hl con url w y"

text \<open>The request has a session exactly while it has connection information.\<close>

definition session_held :: "('w \<Rightarrow> bool) \<Rightarrow> ('w \<Rightarrow> 's \<Rightarrow> bool) \<Rightarrow> ('w, 'z, 's) http_state \<Rightarrow> bool" where
  "session_held idle busy st \<longleftrightarrow>
     (case hs_ptr st of
        Cls_null \<Rightarrow> idle (hs_world st)
      | Cls_one \<Rightarrow> False
      | Cls_conn ci \<Rightarrow> (\<exists>s. ci_decoder_sess ci = Some s \<and> busy (hs_world st) s))"

definition session_inv :: "('w \<Rightarrow> bool) \<Rightarrow> ('w \<Rightarrow> 's \<Rightarrow> bool) \<Rightarrow> mhd_phase \<times> ('w, 'z, 's) http_state \<Rightarrow> bool" where
  "session_inv idle busy x \<longleftrightarrow> session_held idle busy (snd x) \<and> (fst x = Over \<longrightarrow> hs_ptr (snd x) = Cls_null)"

context session_decoder
begin

lemma listener_decode_busy:
  assumes "busy w s" and "li_decoder li = decoder" and "listener_decode li buf props resp (Some s) w = r_return (rc, resp', s', w')"
  shows "\<exists>t. s' = Some t \<and> busy w' t"
  using decodes [OF assms(1)] assms(2,3) unfolding listener_decode_def by blast

lemma inflate_loop_busy:
  assumes "inflate_loop Z ok li props strm input resp sess w = Some r"
  shows "r = Inr (rc, resp', sess', strm', w') \<Longrightarrow> sess = Some s \<Longrightarrow> busy w s \<Longrightarrow> li_decoder li = decoder \<Longrightarrow>
    \<exists>t. sess' = Some t \<and> busy w' t"
proof (induction arbitrary: rc resp' sess' strm' w' s rule: inflate_loop.raw_induct [OF _ assms])
  case (1 f Z ok li props strm input resp sess w r)
  obtain zret out rest strm1 where z: "z_inflate Z strm input ok = (zret, out, rest, strm1)" by (metis prod_cases4)
  show ?case
  proof (cases "zret \<noteq> Z_OK \<and> zret \<noteq> Z_STREAM_END \<or> out = []")
    case True
    with 1(2-5) z show ?thesis by (auto split: if_splits)
  next
    case False
    with 1(2,3) z obtain rc1 resp1 sess1 w1
      where d: "listener_decode li out props (Some resp) sess w = r_return (rc1, resp1, sess1, w1)"
        and k: "(let resp = (case resp1 of Some r \<Rightarrow> r | None \<Rightarrow> resp)
            in if rc1 \<noteq> DECODER_CALLBACK_OK then r_return (rc1, resp, sess1, strm1, w1)
               else if length out = ZLIB_CHUNK then f Z ok li props strm1 rest resp sess1 w1
               else r_return (rc1, resp, sess1, strm1, w1)) = r_return (rc, resp', sess', strm', w')"
      by (auto simp: r_bind_return_iff)
    obtain t where t: "sess1 = Some t" "busy w1 t" using listener_decode_busy [OF 1(5,6)] d 1(4) by blast
    show ?thesis
    proof (cases "rc1 = DECODER_CALLBACK_OK \<and> length out = ZLIB_CHUNK")
      case True
      then have "f Z ok li props strm1 rest (case resp1 of Some r \<Rightarrow> r | None \<Rightarrow> resp) sess1 w1 = r_return (rc, resp', sess', strm', w')"
        using k by simp
      from 1(1) [OF this refl t 1(6)] show ?thesis .
    next
      case False
      with k t show ?thesis by (auto simp: Let_def split: if_splits)
    qed
  qed
qed

lemma open_connection_held:
  fixes env :: "'z http_env"
  assumes "open_connection env hl con url http_method client st = r_return (go, st')"
    and "li_decoder (hl_listener hl) = decoder" and "hs_ptr st = Cls_null" and "idle (hs_world st)"
  shows "session_held idle busy st'"
proof (cases "create_connection_info env con http_method url (Some client) :: ('z, 's) conn_info option \<times> string option")
  case (Pair ci e)
  show ?thesis
  proof (cases ci)
    case None
    with assms Pair show ?thesis
      by (auto simp: open_connection_def reply_with_def session_held_def Let_def)
  next
    case (Some c)
    with assms Pair has_new obtain rc s w where n: "new_session (li_decoder_opaque (hl_listener hl)) (ci_decoder_params c) (hs_world st) =
        r_return (rc, s, w)" and k: "(if rc \<noteq> 0 then r_return (False, st\<lparr>hs_ptr := Cls_null, hs_world := w\<rparr>)
                 else r_return (True, st\<lparr>hs_ptr := Cls_conn (c\<lparr>ci_decoder_sess := s\<rparr>), hs_world := w\<rparr>)) = r_return (go, st')"
      by (auto simp: open_connection_def r_bind_return_iff)
    from opens [OF assms(4) n] k show ?thesis by (auto simp: session_held_def split: if_splits)
  qed
qed

lemma post_init_held:
  assumes "handle_http_post_init env hl con url http_method st = r_return (go, st')"
    and "li_decoder (hl_listener hl) = decoder" and "hs_ptr st = Cls_null" and "idle (hs_world st)"
  shows "session_held idle busy st'"
  using assms open_connection_held [OF _ assms(2-4)]
  by (auto simp: handle_http_post_init_def reply_with_def session_held_def r_bind_return_iff Let_def
      split: option.splits if_splits prod.splits)

lemma post_chunk_held:
  assumes "handle_http_post_chunk env hl c ci st = r_return (go, st')" and "li_decoder (hl_listener hl) = decoder"
    and "ci_decoder_sess ci = Some s" and "busy (hs_world st) s" and "hs_ptr st = Cls_conn ci"
  shows "session_held idle busy st'"
proof (cases "conn_info_has_queue_response ci")
  case True
  with assms show ?thesis by (auto simp: handle_http_post_chunk_def session_held_def)
next
  case False
  let ?fin = "\<lambda>decode_rc response ci1. if decode_rc \<noteq> DECODER_CALLBACK_OK
      then conn_info_queue_response ci1 (decoder_err2http decode_rc) (fst response) (snd response) else ci1"
  have "\<exists>rc response ci1 w. st' = st\<lparr>hs_ptr := Cls_conn (?fin rc response ci1), hs_world := w\<rparr> \<and>
      (\<exists>t. ci_decoder_sess ci1 = Some t \<and> busy w t)"
  proof (cases "ci_zlib_enable ci")
    case True
    with False assms(1,2) has_new obtain rc resp sess strm w
      where d: "inflate_loop (env_zlib env) (al_ok (env_al env) (of_nat ZLIB_CHUNK)) (hl_listener hl) (ci_decoder_params ci)
        (ci_zlib_strm ci) c no_response (ci_decoder_sess ci) (hs_world st) = r_return (rc, resp, sess, strm, w)"
      and st': "st' = st\<lparr>hs_ptr := Cls_conn (?fin rc resp (ci\<lparr>ci_zlib_strm := strm, ci_decoder_sess := sess\<rparr>)), hs_world := w\<rparr>"
      by (auto simp: handle_http_post_chunk_def compressed_callback_def r_bind_return_iff)
    from inflate_loop_busy [OF d refl assms(3,4,2)] st' show ?thesis
      by (intro exI [of _ rc] exI [of _ resp] exI [of _ "ci\<lparr>ci_zlib_strm := strm, ci_decoder_sess := sess\<rparr>"] exI [of _ w]) auto
  next
    case plain: False
    with False assms(1,2) has_new obtain rc resp sess w
      where d: "listener_decode (hl_listener hl) c (ci_decoder_params ci) (Some no_response) (ci_decoder_sess ci) (hs_world st) =
        r_return (rc, resp, sess, w)"
      and st': "st' = st\<lparr>hs_ptr := Cls_conn (?fin rc (case resp of Some r \<Rightarrow> r | None \<Rightarrow> no_response) (ci\<lparr>ci_decoder_sess := sess\<rparr>)), hs_world := w\<rparr>"
      by (auto simp: handle_http_post_chunk_def r_bind_return_iff)
    from listener_decode_busy [OF assms(4,2)] d assms(3) have "\<exists>t. sess = Some t \<and> busy w t" by metis
    with st' show ?thesis
      by (intro exI [of _ rc] exI [of _ "case resp of Some r \<Rightarrow> r | None \<Rightarrow> no_response"] exI [of _ "ci\<lparr>ci_decoder_sess := sess\<rparr>"] exI [of _ w]) auto
  qed
  then show ?thesis by (auto simp: session_held_def conn_info_queue_response_def)
qed

lemma post_end_held:
  assumes "handle_post_end env hl con ci st = r_return (go, st')" and "li_decoder (hl_listener hl) = decoder"
    and "session_held idle busy st"
  shows "session_held idle busy st'"
  using assms has_new by (auto simp: handle_post_end_def reply_with_def session_held_def split: if_splits con_cls.splits)

lemma handle_request_held:
  assumes "handle_request env hl con url ''POST'' c st = r_return (go, st')" and "li_decoder (hl_listener hl) = decoder"
    and "session_held idle busy st"
  shows "session_held idle busy st'"
proof (cases "hs_ptr st")
  case Cls_null
  with assms show ?thesis
    by (intro post_init_held [of env hl con url "''POST''" st go]) (auto simp: handle_request_def strcmp0_def handle_post_def session_held_def)
next
  case Cls_one
  with assms show ?thesis by (simp add: session_held_def)
next
  case (Cls_conn ci)
  then obtain s where "ci_decoder_sess ci = Some s" "busy (hs_world st) s" using assms(3) by (auto simp: session_held_def)
  with Cls_conn assms show ?thesis
    using post_chunk_held [of env hl c ci st go st' s] post_end_held [of env hl con ci st go st']
    by (auto simp: handle_request_def strcmp0_def handle_post_def split: if_splits)
qed

lemma post_step_inv:
  assumes "post_step env hl con url x y" and "li_decoder (hl_listener hl) = decoder" and "session_inv idle busy x"
  shows "session_inv idle busy y"
  using assms
proof cases
  case (step_over ph st st')
  with assms(2,3) has_delete closes show ?thesis
    by (auto simp: session_inv_def session_held_def request_completed_def r_bind_return_iff split: con_cls.splits)
qed (use assms(2,3) in \<open>auto simp: session_inv_def intro: handle_request_held\<close>)

lemma post_reachable_inv:
  assumes "post_reachable env hl con url w x" and "li_decoder (hl_listener hl) = decoder" and "idle w"
  shows "session_inv idle busy x"
  using assms(1)
proof induction
  case reach_start
  with assms(3) show ?case by (simp add: session_inv_def session_held_def)
next
  case (reach_step x y)
  show ?case by (rule post_step_inv [OF reach_step(2) assms(2) reach_step(3)])
qed

end

section \<open>Properties of requests\<close>

text \<open>The text of a reply for a refused request.\<close>

definition refusal :: "decoder_callback_err \<Rightarrow> decoder_response \<Rightarrow> http_reply" where
  "refusal rc response =
     \<lparr>reply_code = decoder_err2http rc,
      reply_response = \<lparr>resp_body =
        (case fst response of
           None \<Rightarrow> []
         | Some str \<Rightarrow> take (if snd response \<noteq> 0 then snd response else length (takeWhile (\<lambda>c. c \<noteq> NUL) str)) str), resp_headers = []\<rparr>\<rparr>"

definition accepted_reply :: http_reply where
  "accepted_reply = \<lparr>reply_code = 200, reply_response = \<lparr>resp_body = [], resp_headers = []\<rparr>\<rparr>"

text \<open>The run of a request: what the three calls do and what is left in the end.\<close>

lemma post_request_run:
  fixes env :: "'z http_env" and hl :: "('w, 'j, 'o, 's) http_listener"
  assumes "request_admitted env hl con" and "client_addr env con = Some client" and "env_conn_calloc_ok env"
    and "mhd_create_ok con" and "mhd_queue_ok con = (\<lambda>_. True)" and "env_responses env = shared_responses n"
    and "\<not> compressed_request con" and "\<forall>c \<in> set cs. c \<noteq> []" and "props = request_props con ''POST'' url (Some client)"
    and "dec_new_session (li_decoder (hl_listener hl)) = Some new_session"
    and "dec_delete_session (li_decoder (hl_listener hl)) = Some delete_session"
    and "new_session (li_decoder_opaque (hl_listener hl)) props w = r_return (0, Some s, w1)"
    and "decode_chunks (hl_listener hl) props cs (Some s) w1 = r_return (rc, response, Some s2, w2)"
    and "delete_session s2 w2 = r_return w3"
  shows "post_request env hl con url cs w =
    r_return \<lparr>hs_ptr = Cls_null,
      hs_replies = [if rc = DECODER_CALLBACK_OK then accepted_reply else refusal rc response], hs_world = w3\<rparr>"
proof -
  obtain ci :: "('z, 's) conn_info" and e
    where ci: "create_connection_info env con ''POST'' url (Some client) = (Some ci, e)" "ci_decoder_params ci = props" "ci_error_code ci = 0" "ci_zlib_enable ci = compressed_request con"
    using create_connection_info_spec [OF assms(3), of con "''POST''" url "Some client"] assms(9) by metis
  define ci0 where "ci0 = ci\<lparr>ci_decoder_sess := Some s\<rparr>"
  let ?st0 = "\<lparr>hs_ptr = Cls_null, hs_replies = [], hs_world = w\<rparr>"
  have open0: "handle_request env hl con url ''POST'' [] ?st0 = r_return (True, \<lparr>hs_ptr = Cls_conn ci0, hs_replies = [], hs_world = w1\<rparr>)"
    using ci assms(10,12)
    by (simp add: handle_http_post_init_admitted [OF assms(1,2)] handle_request_def strcmp0_def handle_post_def open_connection_def ci0_def)
  let ?ci1 = "if rc = DECODER_CALLBACK_OK then ci0\<lparr>ci_decoder_sess := Some s2\<rparr>
     else conn_info_queue_response (ci0\<lparr>ci_decoder_sess := Some s2\<rparr>) (decoder_err2http rc) (fst response) (snd response)"
  have body: "post_body env hl con url cs \<lparr>hs_ptr = Cls_conn ci0, hs_replies = [], hs_world = w1\<rparr> =
      r_return \<lparr>hs_ptr = Cls_conn ?ci1, hs_replies = [], hs_world = w2\<rparr>"
    using post_body_decodes [of hl new_session ci0 cs "\<lparr>hs_ptr = Cls_conn ci0, hs_replies = [], hs_world = w1\<rparr>" rc response "Some s2" w2 env con url]
      assms(7,8,10,13) ci by (simp add: ci0_def)
  have "handle_request env hl con url ''POST'' [] \<lparr>hs_ptr = Cls_conn ?ci1, hs_replies = [], hs_world = w2\<rparr> =
      r_return (True, \<lparr>hs_ptr = Cls_conn ?ci1,
        hs_replies = [if rc = DECODER_CALLBACK_OK then accepted_reply else refusal rc response], hs_world = w2\<rparr>)"
  proof (cases "rc = DECODER_CALLBACK_OK")
    case True
    then show ?thesis
      using assms(5,6,10) ci
      by (simp add: handle_request_def strcmp0_def handle_post_def handle_post_end_def send_http_ok_def MHD_queue_response_def
          shared_responses_def accepted_reply_def ci0_def mhd_replies.truncate_def http_codes)
  next
    case False
    then have "ci_error_code ?ci1 \<noteq> 0" by (cases rc) (simp_all add: conn_info_queue_response_def http_codes)
    with False show ?thesis
      using assms(4,5)
      by (simp add: handle_request_def strcmp0_def handle_post_def handle_post_end_def reply_with_def send_buffered_response_def
          MHD_create_response_from_buffer_def MHD_queue_response_def refusal_def effective_len_def conn_info_queue_response_def
          mhd_replies.truncate_def split: option.splits)
  qed
  with open0 body assms(11,14) show ?thesis
    by (simp add: post_request_def request_completed_def ci0_def conn_info_queue_response_def)
qed

text \<open>C6: an admitted POST request whose body is not compressed gives the decoder its chunks one by one,
  in order and up to the first that the decoder refuses, in one session that is opened before and closed
  after them; the client gets exactly one reply, 200 if no chunk was refused and otherwise the code and
  the text of the refusal, and the request's memory is released.\<close>

theorem http_post_request:
  fixes env :: "'z http_env" and hl :: "('w, 'j, 'o, 's) http_listener"
  assumes "request_admitted env hl con" and "client_addr env con = Some client" and "env_conn_calloc_ok env"
    and "mhd_create_ok con" and "mhd_queue_ok con = (\<lambda>_. True)" and "env_responses env = shared_responses n"
    and "\<not> compressed_request con" and "\<forall>c \<in> set cs. c \<noteq> []" and "props = request_props con ''POST'' url (Some client)"
    and "dec_new_session (li_decoder (hl_listener hl)) = Some new_session"
    and "dec_delete_session (li_decoder (hl_listener hl)) = Some delete_session"
    and "new_session (li_decoder_opaque (hl_listener hl)) props w = r_return (0, Some s, w1)"
    and "decode_chunks (hl_listener hl) props cs (Some s) w1 = r_return (rc, response, Some s2, w2)"
    and "delete_session s2 w2 = r_return w3"
  shows "post_request env hl con url cs w =
    r_return \<lparr>hs_ptr = Cls_null,
      hs_replies = [if rc = DECODER_CALLBACK_OK then accepted_reply else refusal rc response], hs_world = w3\<rparr>"
  by (rule post_request_run [OF assms])

text \<open>C25: a compressed chunk is decoded as its decompressed pieces would be: the same calls of the decoder in
  the same order, the same code, reply text, session and effects.\<close>

theorem compressed_chunk_equiv:
  assumes "quiet_decoder (hl_listener hl)"
    and "inflates (env_zlib env) (al_ok (env_al env) (of_nat ZLIB_CHUNK)) (ci_zlib_strm ci) chunk outs strm'"
    and "decode_chunks (hl_listener hl) (ci_decoder_params ci) (filter (\<lambda>out. out \<noteq> []) outs) (ci_decoder_sess ci) w =
      r_return (rc, response, sess', w')"
  shows "\<exists>strm''. compressed_callback env hl ci chunk no_response w =
    r_return (rc, response, ci\<lparr>ci_zlib_strm := strm'', ci_decoder_sess := sess'\<rparr>, w')"
  using inflate_loop_decodes [OF assms] by (auto simp: compressed_callback_def)

text \<open>When the decompressed chunk ends exactly where the output buffer does, inflate is called once more
  and cannot progress, which the listener takes for a failure: the request is answered with 500 although
  the decoder accepted everything.\<close>

lemma compressed_full_buffer_fails:
  assumes "z_inflate (env_zlib env) (ci_zlib_strm ci) chunk ok = (Z_OK, out, rest, strm1)" and "length out = ZLIB_CHUNK"
    and "z_inflate (env_zlib env) strm1 rest ok = (Z_BUF_ERROR, [], rest, strm1)"
    and "ok = al_ok (env_al env) (of_nat ZLIB_CHUNK)"
    and "listener_decode (hl_listener hl) out (ci_decoder_params ci) (Some no_response) (ci_decoder_sess ci) (hs_world st) =
      r_return (DECODER_CALLBACK_OK, Some no_response, sess, w)"
    and "dec_new_session (li_decoder (hl_listener hl)) = Some new_session" and "ci_zlib_enable ci" and "ci_error_code ci = 0"
  shows "\<exists>ci'. handle_http_post_chunk env hl chunk ci st = r_return (True, st\<lparr>hs_ptr := Cls_conn ci', hs_world := w\<rparr>) \<and>
    ci_error_code ci' = 500"
proof -
  have "out \<noteq> []" using assms(2) ZLIB_CHUNK_pos by auto
  have "inflate_loop (env_zlib env) ok (hl_listener hl) (ci_decoder_params ci) strm1 rest no_response sess w =
      r_return (DECODER_CALLBACK_GENERIC_ERROR, (Some (zlib_deflate_error2str Z_BUF_ERROR), 0), sess, strm1, w)"
    using assms(3) by (subst inflate_loop.simps) (simp add: zlib_error_code_def no_response_def)
  then have "inflate_loop (env_zlib env) ok (hl_listener hl) (ci_decoder_params ci) (ci_zlib_strm ci) chunk no_response
        (ci_decoder_sess ci) (hs_world st) =
      r_return (DECODER_CALLBACK_GENERIC_ERROR, (Some (zlib_deflate_error2str Z_BUF_ERROR), 0), sess, strm1, w)"
    using assms(1,2,5) \<open>out \<noteq> []\<close> by (subst inflate_loop.simps) simp
  with assms(4,6-8) show ?thesis
    by (intro exI [of _ "conn_info_queue_response (ci\<lparr>ci_zlib_strm := strm1, ci_decoder_sess := sess\<rparr>) 500
          (Some (zlib_deflate_error2str Z_BUF_ERROR)) 0"])
      (simp add: handle_http_post_chunk_def conn_info_has_queue_response_def compressed_callback_def
        conn_info_queue_response_def http_codes del: zlib_deflate_error2str.simps)
qed

text \<open>The headers of the client come before what the listener adds, and lookups take the first: a client
  that sends a header with the name of a listener's property decides its value.\<close>

lemma client_header_overrides:
  assumes "(key, v) \<in> set (mc_headers con)"
  shows "\<exists>v'. (key, v') \<in> set (mc_headers con) \<and> valueof (request_props con http_method url client) key strcmp0 = v'"
proof -
  have "\<exists>v'. (key, v') \<in> set kvs \<and> valueof (map (\<lambda>(k, v). \<lparr>pair_key = k, pair_value = v\<rparr>) kvs @ l) key strcmp0 = v'"
    if "(key, v) \<in> set kvs" for kvs l
    using that by (induction kvs) (auto simp: strcmp0_def)
  from this [OF assms] show ?thesis unfolding request_props_def .
qed

text \<open>A GET request that breaks off after its first call makes the completion callback use the mark it
  left as if it were the connection information.\<close>

lemma get_abort_faults:
  assumes "hs_ptr st = Cls_null"
  shows "\<exists>st'. handle_request env hl con url ''GET'' data st = r_return (True, st') \<and>
    request_completed hl st' = Some (Inl OutOfBounds)"
  using assms by (simp add: handle_request_def strcmp0_def handle_get_def request_completed_def)

section \<open>Witnesses\<close>

text \<open>A decoder that writes down what it is asked to do and refuses the chunk \<^verbatim>\<open>bad\<close>.\<close>

definition log_decoder :: "(bytes list, unit, unit, nat) n2k_decoder" where
  "log_decoder = \<lparr>dec_name = ''log'',
     dec_callback = (\<lambda>buf props _ sess resp w.
       if buf = ''bad'' then r_return (DECODER_CALLBACK_INVALID_REQUEST, Some (Some ''no'', 2), map_option Suc sess, w)
       else r_return (DECODER_CALLBACK_OK, resp, map_option Suc sess, w @ [buf])),
     dec_init = None, dec_reload = None, dec_done = None, dec_opaque_creator = None, dec_opaque_reload = None,
     dec_opaque_destructor = None,
     dec_new_session = Some (\<lambda>_ _ w. r_return (0, Some 0, w @ [''open''])),
     dec_delete_session = Some (\<lambda>_ w. r_return (w @ [''close''])), dec_session_size = Some 8\<rparr>"

definition log_listener :: "(bytes list, unit, unit, nat) http_listener" where
  "log_listener = \<lparr>hl_listener = \<lparr>li_decoder = log_decoder, li_decoder_opaque = (), li_port = 80\<rparr>, hl_htpasswd = None,
     hl_client_tls_cert = False\<rparr>"

text \<open>A zlib whose stream is never compressed, except that its output buffer is full once when the input is empty.\<close>

definition copy_zlib :: "bytes zlib" where
  "copy_zlib = \<lparr>z_zero = [], z_inflateInit2 = (Z_OK, []),
     z_inflate = (\<lambda>strm input ok. if strm = [] \<and> input = [] then (Z_BUF_ERROR, [], [], []) else (Z_OK, strm @ input, [], []))\<rparr>"

definition log_env :: "bytes http_env" where
  "log_env = \<lparr>env_zlib = copy_zlib, env_al = total_allocator, env_conn_calloc_ok = True, env_responses = shared_responses 1,
     env_inet_ntop = (\<lambda>_. Some ''::1''), env_cert_flags = (\<lambda>_. 0)\<rparr>"

definition plain_con :: mhd_connection where
  "plain_con = \<lparr>mhd_create_ok = True, mhd_queue_ok = (\<lambda>_. True), mc_client_addr = Some (AF_INET6 (replicate 15 0 @ [1])), mc_cert_status = Some 0,
     mc_basic_auth = None, mc_headers = [(''D-HTTP-URI'', Some ''/other'')]\<rparr>"

definition log_conn :: "(bytes, nat) conn_info" where
  "log_conn = zeroed_conn_info []"

lemma plain_con_ok:
  "request_admitted log_env log_listener plain_con" "client_addr log_env plain_con = Some ''::1''" "env_conn_calloc_ok log_env"
  "mhd_create_ok plain_con" "mhd_queue_ok plain_con = (\<lambda>_. True)" "env_responses log_env = shared_responses 1"
  "\<not> compressed_request plain_con"
  by (auto simp: request_admitted_def client_addr_def sockaddr2str_def plain_con_def log_listener_def log_env_def compressed_request_def strcasecmp0_def tolower_def)

lemma log_listener_simps:
  "dec_new_session (li_decoder (hl_listener log_listener)) = Some (\<lambda>_ _ w. r_return (0, Some 0, w @ [''open'']))"
  "dec_delete_session (li_decoder (hl_listener log_listener)) = Some (\<lambda>_ w. r_return (w @ [''close'']))"
  "listener_decode (hl_listener log_listener) buf props resp sess w =
     (if buf = ''bad'' then r_return (DECODER_CALLBACK_INVALID_REQUEST, Some (Some ''no'', 2), map_option Suc sess, w)
      else r_return (DECODER_CALLBACK_OK, resp, map_option Suc sess, w @ [buf]))"
  by (simp_all add: log_listener_def log_decoder_def listener_decode_def)

theorem http_post_request_witness:
  "post_request log_env log_listener plain_con ''/x'' [''a'', ''bad'', ''b''] [] =
     r_return \<lparr>hs_ptr = Cls_null, hs_replies = [refusal DECODER_CALLBACK_INVALID_REQUEST (Some ''no'', 2)],
       hs_world = [''open'', ''a'', ''close'']\<rparr>"
proof -
  have "decode_chunks (hl_listener log_listener) (request_props plain_con ''POST'' ''/x'' (Some ''::1'')) [''a'', ''bad'', ''b''] (Some 0)
      ([] @ [''open'']) = r_return (DECODER_CALLBACK_INVALID_REQUEST, (Some ''no'', 2), Some 2, [''open'', ''a''])"
    by (simp add: log_listener_simps)
  from http_post_request [OF plain_con_ok _ refl log_listener_simps(1,2) refl this refl] show ?thesis by simp
qed

theorem compressed_chunk_equiv_witness:
  "\<exists>ci'. compressed_callback log_env log_listener log_conn ''abc'' no_response [] =
     r_return (DECODER_CALLBACK_OK, no_response, ci', [''abc''])"
proof -
  have q: "quiet_decoder (hl_listener log_listener)" by (auto simp: quiet_decoder_def log_listener_simps split: if_splits)
  have i: "inflates (env_zlib log_env) (al_ok (env_al log_env) (of_nat ZLIB_CHUNK)) (ci_zlib_strm log_conn) ''abc'' [''abc''] []"
    by (simp add: log_env_def copy_zlib_def log_conn_def zeroed_conn_info_def ZLIB_CHUNK_def)
  have d: "decode_chunks (hl_listener log_listener) (ci_decoder_params log_conn) (filter (\<lambda>out. out \<noteq> []) [''abc''])
      (ci_decoder_sess log_conn) [] = r_return (DECODER_CALLBACK_OK, no_response, None, [''abc''])"
    by (simp add: log_listener_simps log_conn_def zeroed_conn_info_def)
  show ?thesis using compressed_chunk_equiv [OF q i d] by blast
qed

end
