(* ===== verification/Zz_Http.thy ===== *)
theory Zz_Http
  imports Zz_Decoder Xml_Document Http_Request
begin

text \<open>
  The HTTP decoder behind the HTTP listener: the table of functions at the end of
  \<^verbatim>\<open>src/decoder/zz_http2k/zz_http2k_decoder.c\<close>, over a world that holds the topics database, the heap of
  topics and what librdkafka was handed, and the proof that the decoder keeps the contract a listener
  relies on (\<open>session_decoder\<close>): a session holds one reference of its topic from the moment it is opened
  until it is closed, whichever parser it uses and whatever the chunks are.
\<close>

section \<open>A chunk keeps the topic of its session\<close>

lemma queue_xml_error0_topic:
  assumes "queue_xml_error0 al what json_text xml_text rc w s = r_return s'"
  shows "zs_topic_handler s' = zs_topic_handler s"
proof -
  obtain p where "string_printf al (zs_http_response (s\<lparr>xs_rc := rc\<rparr>)) (xml_error_text what json_text xml_text w) = r_return p"
    and p: "(case p of (string_printf_rc, resp) \<Rightarrow>
      r_return (if string_printf_rc < 0 then s\<lparr>xs_rc := rc, zs_http_response := resp\<rparr>
        else s\<lparr>xs_rc := rc, zs_http_response := resp, xs_stopped := True\<rparr>)) = r_return s'"
    using assms unfolding queue_xml_error0_def Let_def r_bind_return_iff by (elim exE conjE) (rule that)
  obtain a b where "p = (a, b)" by force
  with p show ?thesis by (cases "a < 0") auto
qed

lemma queue_xml_error_topic:
  "queue_xml_error al L w what status s = r_return s' \<Longrightarrow> zs_topic_handler s' = zs_topic_handler s"
  unfolding queue_xml_error_def Let_def by (erule queue_xml_error0_topic)

lemma print_callback_topic:
  assumes "yajl_print_callback al L w d s = r_return s'"
  shows "zs_topic_handler s' = zs_topic_handler s"
proof -
  obtain rc b where a: "string_append al (xs_gen_buf s) d = (rc, b)" by fastforce
  show ?thesis
  proof (cases "rc = 0")
    case True
    with a assms show ?thesis by (auto simp: yajl_print_callback_def)
  next
    case False
    with a assms have "\<exists>what. queue_xml_error al L w what yajl_gen_status_ok (s\<lparr>xs_gen_buf := b\<rparr>) = r_return s'"
      unfolding yajl_print_callback_def Let_def by (simp only: prod.case if_True not_False_eq_True) blast
    then show ?thesis using queue_xml_error_topic by fastforce
  qed
qed

lemma print_pieces_topic: "print_pieces al L w ds s = r_return s' \<Longrightarrow> zs_topic_handler s' = zs_topic_handler s"
  by (induction ds arbitrary: s) (fastforce simp: r_bind_return_iff dest: print_callback_topic)+

lemma gen_seq_topic: "gen_seq al L w ops s = r_return (err, s') \<Longrightarrow> zs_topic_handler s' = zs_topic_handler s"
proof (induction ops arbitrary: s)
  case (Cons ow ops)
  obtain oper what where ow: "ow = (oper, what)" by force
  from Cons.prems ow obtain status s1 where s1: "gen_call al L w oper s = r_return (status, s1)"
    "(if status \<noteq> yajl_gen_status_ok then r_return (Some (status, what), s1) else gen_seq al L w ops s1) = r_return (err, s')"
    by (auto simp: r_bind_return_iff)
  have "zs_topic_handler s1 = zs_topic_handler s"
    using s1(1) by (auto simp: gen_call_def r_bind_return_iff split: prod.splits dest: print_pieces_topic)
  with s1(2) Cons.IH show ?case by (auto split: if_splits)
qed simp

lemma xml_element_err_topic:
  "xml_element_err al L w (err, s) = r_return s' \<Longrightarrow> zs_topic_handler s' = zs_topic_handler s"
  by (auto simp: xml_element_err_def r_bind_return_iff split: option.splits dest!: queue_xml_error_topic)

lemma start_element_topic:
  assumes "zz_parse_start_xml_element al L w el attr s = r_return s'"
  shows "zs_topic_handler s' = zs_topic_handler s"
proof -
  have o: "open_in_parent al L w s = r_return (err, s1) \<Longrightarrow> zs_topic_handler s1 = zs_topic_handler s" for err s1
    by (fastforce simp: open_in_parent_def r_bind_return_iff split: if_splits dest: gen_seq_topic simp del: gen_seq.simps)
  from assms show ?thesis
    by (fastforce simp: zz_parse_start_xml_element_def Let_def r_bind_return_iff split: if_splits
        dest: o gen_seq_topic xml_element_err_topic simp del: gen_seq.simps)
qed

lemma end_element_topic:
  assumes "zz_parse_end_xml_element al L w s = r_return s'"
  shows "zs_topic_handler s' = zs_topic_handler s"
proof -
  have c: "close_children al L w s = r_return (err, s1) \<Longrightarrow> zs_topic_handler s1 = zs_topic_handler s" for err s1
    by (auto simp: close_children_def r_bind_return_iff split: if_splits dest: gen_seq_topic simp del: gen_seq.simps)
  from assms show ?thesis
    by (fastforce simp: zz_parse_end_xml_element_def Let_def r_bind_return_iff split: if_splits
        dest: c gen_seq_topic xml_element_err_topic queue_xml_error_topic simp del: gen_seq.simps)
qed

lemma character_data_topic:
  assumes "zz_parse_xml_character_data al L w d s = r_return s'"
  shows "zs_topic_handler s' = zs_topic_handler s"
  using assms
  by (fastforce simp: zz_parse_xml_character_data_def Let_def r_bind_return_iff split: if_splits option.splits
      dest: gen_seq_topic queue_xml_error_topic simp del: gen_seq.simps)

lemma xml_deliver_topic: "xml_deliver al L cs s = r_return (s', stop) \<Longrightarrow> zs_topic_handler s' = zs_topic_handler s"
proof (induction cs arbitrary: s)
  case (Cons c cs)
  then obtain s1 where s1: "xml_handler al L c s = r_return s1"
    "(if xs_stopped s1 then r_return (s1, Some (xc_stop_byte c)) else xml_deliver al L cs s1) = r_return (s', stop)"
    by (auto simp: r_bind_return_iff)
  have "zs_topic_handler s1 = zs_topic_handler s"
    using s1(1) by (auto simp: xml_handler_def split: xml_event.splits
        dest: start_element_topic end_element_topic character_data_topic)
  with s1(2) Cons.IH show ?case by (auto split: if_splits)
qed simp

lemma XML_Parse_topic: "XML_Parse al L buf s = r_return (stat, w, s') \<Longrightarrow> zs_topic_handler s' = zs_topic_handler s"
  by (auto simp: XML_Parse_def Let_def r_bind_return_iff split: option.splits dest!: xml_deliver_topic)

text \<open>What the loop does with the answer of the parser, before the rest \<open>k\<close> of the buffer.\<close>

lemma xml_round_topic:
  assumes "(if stat = XML_STATUS_OK then r_return s1
        else if if stat = XML_STATUS_SUSPENDED then str_buf (zs_http_response s1) \<noteq> None
                else if stat \<noteq> XML_STATUS_ERROR then False
                else xw_error w \<noteq> XML_ERROR_JUNK_AFTER_DOC_ELEMENT \<and> xw_error w \<noteq> XML_ERROR_ABORTED
        then queue_xml_error al L w ''Error parsing XML'' yajl_gen_status_ok s1
        else if xw_byte w \<le> 0 \<and> string_size (zs_http_response s1) = 0
        then queue_xml_error al L w ''Can't get parse offset'' yajl_gen_status_ok s1
        else if xw_byte w < 0 \<or> int (length buf) < xw_byte w then Some (Inl OutOfBounds)
        else k) = r_return s'"
    and "k = r_return s' \<Longrightarrow> zs_topic_handler s' = zs_topic_handler s1"
  shows "zs_topic_handler s' = zs_topic_handler s1"
  using assms by (auto dest: queue_xml_error_topic split: if_splits)

lemma process_xml_loop_topic:
  assumes "process_xml_loop al L buf s = Some r"
  shows "r = Inr s' \<Longrightarrow> zs_topic_handler s' = zs_topic_handler s"
proof (induction arbitrary: s' rule: process_xml_loop.raw_induct [OF _ assms])
  case (1 f al L buf s r)
  show ?case
  proof (cases "length buf > 0 \<and> string_size (zs_http_response s) = 0")
    case False
    with 1(2,3) show ?thesis by auto
  next
    case True
    then obtain stat w s1 where p: "XML_Parse al L buf s = r_return (stat, w, s1)"
      using 1(2,3) by (auto simp: r_bind_return_iff)
    note t = XML_Parse_topic [OF p]
    have z: "zs_topic_handler (zz_reset_xml_handler L True s1) = zs_topic_handler s1" by (simp add: zz_reset_xml_handler_def)
    have ih: "f al L (drop (nat (xw_byte w)) buf) (zz_reset_xml_handler L True s1) = r_return s' \<Longrightarrow> zs_topic_handler s' = zs_topic_handler s1"
      using 1(1) [of al L "drop (nat (xw_byte w)) buf" "zz_reset_xml_handler L True s1", OF _ refl] z by simp
    have "zs_topic_handler s' = zs_topic_handler s1"
      by (rule xml_round_topic [OF _ ih]) (use True 1(2,3) p in \<open>unfold Let_def, simp only: r_bind_simps prod.case simp_thms if_False\<close>)
    with t show ?thesis by simp
  qed
qed

lemma process_xml_buffer_topic:
  "process_xml_buffer al L a buf s = r_return (rc, s', text) \<Longrightarrow> zs_topic_handler s' = zs_topic_handler s"
  by (auto simp: process_xml_buffer_def r_bind_return_iff split: if_splits dest: process_xml_loop_topic)

lemma process_json_buffer_topic:
  assumes "process_json_buffer al yp a buf s = Inr (rc, s', out)"
  shows "zs_topic_handler s' = zs_topic_handler s"
proof -
  have f: "finish_json_chunk b x = Inr x' \<Longrightarrow> zs_topic_handler x' = zs_topic_handler x" for b and x x' :: "'a zz_json_session"
    by (auto simp: finish_json_chunk_def c_bind_Inr_iff)
  have o: "zs_topic_handler (save_open_object al b buf x) = zs_topic_handler x" for b and x :: "'a zz_json_session"
    by (simp add: save_open_object_def)
  show ?thesis
  proof (cases a)
    case None
    with assms show ?thesis by (auto simp: process_json_buffer_def c_bind_Inr_iff split: if_splits dest: f)
  next
    case (Some b)
    obtain evs stat h where y: "yp (js_yajl_handler s) buf = (evs, stat, h)" by (metis prod_cases3)
    show ?thesis
    proof (cases stat)
      case Yajl_ok
      with assms Some y show ?thesis
        by (auto simp: process_json_buffer_def Let_def c_bind_Inr_iff o split: if_splits dest!: f json_callbacks_handler)
    next
      case (Yajl_error str)
      with assms Some y show ?thesis
        by (auto simp: process_json_buffer_def Let_def c_bind_Inr_iff split: if_splits dest!: f json_callbacks_handler)
    qed
  qed
qed

lemma zz_decode_topic:
  assumes "zz_decode process_buffer error_message produce_batch now ka buf props s = r_return res"
    and "\<And>b s s' rc out. process_buffer b s = r_return (rc, s', out) \<Longrightarrow> zs_topic_handler s' = zs_topic_handler s"
  shows "zs_topic_handler (zd_session res) = zs_topic_handler s"
proof -
  have p: "zz_produce produce_batch now ka x = Inr (n, m, x', b) \<Longrightarrow> zs_topic_handler x' = zs_topic_handler x" for x n m x' b
    by (auto simp: zz_produce_def c_bind_Inr_iff split: if_splits)
  have r: "zz_respond error_message err n m x = r_return (rc, resp, x') \<Longrightarrow> zs_topic_handler x' = zs_topic_handler x" for err n m x rc resp x'
    by (auto simp: zz_respond_def Let_def r_bind_return_iff split: if_splits)
  from assms(1) show ?thesis
    by (auto simp: zz_decode_def Let_def r_bind_return_iff run_r_def split: if_splits dest!: p r assms(2))
qed

section \<open>The decoder's table\<close>

text \<open>
  A session with the parser it was opened with. The source tells them apart by the function pointers in
  the session.
\<close>

datatype ('y, 'x, 'g) zz_any_session = Json_session "'y zz_json_session" | Xml_session "('x, 'g) zz_xml_session"

fun session_topic :: "('y, 'x, 'g) zz_any_session \<Rightarrow> addr" where
  "session_topic (Json_session s) = zs_topic_handler s"
| "session_topic (Xml_session s) = zs_topic_handler s"

text \<open>
  The libraries the decoder calls. What depends on the moment of a call (the clock, fresh memory, what
  librdkafka accepts) is given by the number of the call.
\<close>

record ('h, 'l, 'y, 'x, 'g) zz_libs =
  zl_tommy :: "('h, 'l) tommy"
  zl_rdkafka :: rdkafka_topics
  zl_al :: allocator
  zl_now :: "nat \<Rightarrow> time_t"
  zl_topic_addr :: "nat \<Rightarrow> topic_heap \<Rightarrow> addr option"
  zl_chunk_addr :: "nat \<Rightarrow> addr option"
  zl_text_addr :: "nat \<Rightarrow> addr"
  zl_karray_addr :: "nat \<Rightarrow> addr"
  zl_produce_batch :: "nat \<Rightarrow> produce_batch_fn"
  zl_warning_now :: "nat \<Rightarrow> nat \<Rightarrow> time_t"
  zl_yajl_parse :: "'y yajl_parse_fn"
  zl_yajl_alloc :: "nat \<Rightarrow> 'y option"
  zl_yajl_null :: 'y
  zl_xml :: "('x, 'g) xml_lib"
  zl_expat_create :: "nat \<Rightarrow> 'x option"
  zl_expat_null :: 'x
  zl_gen_alloc :: "nat \<Rightarrow> 'g option"
  zl_gen_null :: 'g
  zl_database_calloc_ok :: bool
  zl_sizeof_session :: size_t

text \<open>The heap of topics, the database, what librdkafka was handed (with the topic) and the number of calls.\<close>

record ('h, 'l) zz_world =
  zw_heap :: topic_heap
  zw_db :: "('h, 'l) zz_database"
  zw_handed :: "(rkt \<times> bytes) list"
  zw_calls :: nat

definition zeroed_json_session :: "'y \<Rightarrow> addr \<Rightarrow> 'y zz_json_session" where
  "zeroed_json_session y p = \<lparr>zs_topic_handler = p, zs_kafka_msgs = KAFKA_MESSAGE_ARRAY_INITIALIZER,
     zs_last_warning = \<lparr>produce_error_last_time = replicate 4 0\<rparr>, zs_messages_sent = 0,
     zs_http_response = N2K_STRING_INITIALIZER, js_yajl_handler = y, js_stack_pos = 0, js_in_buffer = 0,
     js_last_open_map = 0, js_last_object = N2K_STRING_INITIALIZER\<rparr>"

definition zeroed_xml_session :: "'x \<Rightarrow> 'g \<Rightarrow> addr \<Rightarrow> ('x, 'g) zz_xml_session" where
  "zeroed_xml_session x g p = \<lparr>zs_topic_handler = p, zs_kafka_msgs = KAFKA_MESSAGE_ARRAY_INITIALIZER,
     zs_last_warning = \<lparr>produce_error_last_time = replicate 4 0\<rparr>, zs_messages_sent = 0,
     zs_http_response = N2K_STRING_INITIALIZER, xs_gen_buf = N2K_STRING_INITIALIZER, xs_last_open_map = 0,
     xs_stack_pos = 0, xs_bits = replicate STACK_BYTES 0, xs_expat = x, xs_gen = g, xs_rc = DECODER_CALLBACK_OK,
     xs_stopped = False\<rparr>"

definition zz_new_parser ::
  "('h, 'l, 'y, 'x, 'g) zz_libs \<Rightarrow> nat \<Rightarrow> bool \<Rightarrow> addr \<Rightarrow> ('y, 'x, 'g) zz_any_session option c_result" where
  "zz_new_parser Z k content_type_xml p =
     (if content_type_xml
      then c_bind (new_zz_session_xml (zl_expat_create Z k) (zl_gen_alloc Z k) (zeroed_xml_session (zl_expat_null Z) (zl_gen_null Z) p))
             (\<lambda>(handler_rc, s). Inr (if handler_rc \<noteq> 0 then None else Some (Xml_session s)))
      else let (handler_rc, s) = new_zz_session_json (zl_yajl_alloc Z k) (zeroed_json_session (zl_yajl_null Z) p)
           in Inr (if handler_rc \<noteq> 0 then None else Some (Json_session s)))"

definition vnew_zz_session ::
  "('h, 'l, 'y, 'x, 'g) zz_libs \<Rightarrow> unit \<Rightarrow> keyval_list \<Rightarrow> ('h, 'l) zz_world
   \<Rightarrow> (int \<times> ('y, 'x, 'g) zz_any_session option \<times> ('h, 'l) zz_world) c_run" where
  "vnew_zz_session Z listener_opaque msg_vars w =
     (let k = zw_calls w
      in run_r (c_bind (new_zz_session (zl_tommy Z) (zl_rdkafka Z) (zl_topic_addr Z k (zw_heap w)) (zz_new_parser Z k)
                          (zw_heap w) (zw_db w) msg_vars (zl_now Z k)) (\<lambda>res.
           Inr (ns_rc res, ns_session res, w\<lparr>zw_heap := ns_heap res, zw_db := ns_db res, zw_calls := Suc k\<rparr>))))"

text \<open>Releasing the XML parser and its generator leaves the part of the session that both parsers share.\<close>

definition vfree_zz_session ::
  "('y, 'x, 'g) zz_any_session \<Rightarrow> ('h, 'l) zz_world \<Rightarrow> ('h, 'l) zz_world c_run" where
  "vfree_zz_session sess w =
     run_r (c_bind (case sess of
                      Json_session s \<Rightarrow> free_zz_session free_zz_session_json (zw_heap w) s
                    | Xml_session s \<Rightarrow> free_zz_session (\<lambda>s. s) (zw_heap w) s) (\<lambda>H.
       Inr (w\<lparr>zw_heap := H\<rparr>)))"

text \<open>Messages are handed over to the topic of the session.\<close>

definition hand_over :: "addr \<Rightarrow> bytes list \<Rightarrow> ('h, 'l) zz_world \<Rightarrow> ('h, 'l) zz_world c_result" where
  "hand_over topic_handler ms w =
     (if ms = [] then Inr w
      else case zw_heap w topic_handler of
             Some (Live t) \<Rightarrow> Inr (w\<lparr>zw_handed := zw_handed w @ map (Pair (topics_db_get_rdkafka_topic t)) ms\<rparr>)
           | _ \<Rightarrow> Inl UseAfterFree)"

text \<open>What a decoded chunk leaves in the world and answers the listener.\<close>

definition zz_finish ::
  "(('s, 'e) zz_decode_result \<Rightarrow> ('y, 'x, 'g) zz_any_session) \<Rightarrow> addr \<Rightarrow> bytes list \<Rightarrow> ('s, 'e) zz_decode_result
   \<Rightarrow> decoder_response option \<Rightarrow> ('h, 'l) zz_world
   \<Rightarrow> (decoder_callback_err \<times> decoder_response option \<times> ('y, 'x, 'g) zz_any_session option \<times> ('h, 'l) zz_world) c_run" where
  "zz_finish session topic_handler ms res response w =
     r_bind (run_r (hand_over topic_handler ms w)) (\<lambda>w1.
       let w2 = w1\<lparr>zw_calls := Suc (zw_calls w1)\<rparr>
       in case zd_response res of
            None \<Rightarrow> r_return (zd_rc res, response, Some (session res), w2)
          | Some b \<Rightarrow> if response = None then Some (Inl NullDeref)
                      else r_return (zd_rc res, Some (Some b, length b), Some (session res), w2))"

definition zz_callback ::
  "('h, 'l, 'y, 'x, 'g) zz_libs \<Rightarrow> bytes \<Rightarrow> keyval_list \<Rightarrow> unit \<Rightarrow> ('y, 'x, 'g) zz_any_session option
   \<Rightarrow> decoder_response option \<Rightarrow> ('h, 'l) zz_world
   \<Rightarrow> (decoder_callback_err \<times> decoder_response option \<times> ('y, 'x, 'g) zz_any_session option \<times> ('h, 'l) zz_world) c_run" where
  "zz_callback Z buffer props decoder_opaque t_session response w =
     (let k = zw_calls w
      in case t_session of
           None \<Rightarrow>
             (case valueof props ''D-HTTP-method'' strcmp0 of
                Some http_method \<Rightarrow>
                  if \<not> strcmp0 ''POST'' http_method
                  then r_return (DECODER_CALLBACK_HTTP_METHOD_NOT_ALLOWED, response, None, w)
                  else Some (Inl NullDeref)
              | None \<Rightarrow> Some (Inl NullDeref))
         | Some (Json_session s) \<Rightarrow>
             r_bind (zz_decode (json_process_buffer (zl_al Z) (zl_yajl_parse Z) (zl_chunk_addr Z k)) (error_message_json (zl_al Z))
                       (zl_produce_batch Z k) (zl_warning_now Z k) (zl_karray_addr Z k) buffer props s) (\<lambda>res.
               zz_finish (\<lambda>r. Json_session (zd_session r)) (zs_topic_handler s)
                 (zd_split res @ map (msg_bytes (case zl_chunk_addr Z k of Some a \<Rightarrow> a | None \<Rightarrow> 0) buffer) (zd_msgs res))
                 res response w)
         | Some (Xml_session s) \<Rightarrow>
             r_bind (zz_decode (process_xml_buffer (zl_al Z) (zl_xml Z) (zl_text_addr Z k)) (xml_error_message (zl_al Z))
                       (zl_produce_batch Z k) (zl_warning_now Z k) (zl_karray_addr Z k) buffer props s) (\<lambda>res.
               zz_finish (\<lambda>r. Xml_session (zd_session r)) (zs_topic_handler s)
                 (map (msg_bytes (zl_text_addr Z k) (zd_split res)) (zd_msgs res)) res response w))"

definition zz_decoder ::
  "('h, 'l, 'y, 'x, 'g) zz_libs \<Rightarrow> (('h, 'l) zz_world, 'j, unit, ('y, 'x, 'g) zz_any_session) n2k_decoder" where
  "zz_decoder Z = \<lparr>dec_name = zz_name, dec_callback = zz_callback Z,
     dec_init = Some (\<lambda>w. let (rc, db) = zz_decoder_init (zl_tommy Z) (zl_database_calloc_ok Z) in r_return (rc, w\<lparr>zw_db := db\<rparr>)),
     dec_reload = None,
     dec_done = Some (\<lambda>w. run_r (c_bind (zz_decoder_done (zl_tommy Z) (zw_heap w) (zw_db w)) (\<lambda>H. Inr (w\<lparr>zw_heap := H\<rparr>)))),
     dec_opaque_creator = None, dec_opaque_reload = None, dec_opaque_destructor = None,
     dec_new_session = Some (vnew_zz_session Z), dec_delete_session = Some vfree_zz_session,
     dec_session_size = Some (zz_session_size (zl_sizeof_session Z))\<rparr>"

section \<open>The decoder keeps the contract of sessions\<close>

definition zz_libs_ok :: "('h, 'l, 'y, 'x, 'g) zz_libs \<Rightarrow> ('h \<Rightarrow> (addr \<times> tommy_hash_t) set) \<Rightarrow> bool" where
  "zz_libs_ok Z E \<longleftrightarrow> tommy_ok (zl_tommy Z) E \<and> rdkafka_topics_ok (zl_rdkafka Z) \<and>
     (\<forall>k H. fresh_addr H (zl_topic_addr Z k H))"

text \<open>The references to topics: one for each the database has, and \<open>ext\<close> others.\<close>

definition topics_held ::
  "('h, 'l, 'y, 'x, 'g) zz_libs \<Rightarrow> ('h \<Rightarrow> (addr \<times> tommy_hash_t) set) \<Rightarrow> (addr \<Rightarrow> nat) \<Rightarrow> ('h, 'l) zz_world \<Rightarrow> bool" where
  "topics_held Z E ext w \<longleftrightarrow> (\<exists>db. zw_db w = \<lparr>zz_topics_db = Some db\<rparr> \<and>
     db_inv (zl_tommy Z) (zl_rdkafka Z) E (zw_heap w) db (db_topics E db) ext)"

definition zz_idle ::
  "('h, 'l, 'y, 'x, 'g) zz_libs \<Rightarrow> ('h \<Rightarrow> (addr \<times> tommy_hash_t) set) \<Rightarrow> (addr \<Rightarrow> nat) \<Rightarrow> ('h, 'l) zz_world \<Rightarrow> bool" where
  "zz_idle Z E ext w \<longleftrightarrow> zz_libs_ok Z E \<and> (\<forall>p. ext p + 3 < 2 ^ 64) \<and> topics_held Z E ext w"

definition zz_busy ::
  "('h, 'l, 'y, 'x, 'g) zz_libs \<Rightarrow> ('h \<Rightarrow> (addr \<times> tommy_hash_t) set) \<Rightarrow> (addr \<Rightarrow> nat) \<Rightarrow> ('h, 'l) zz_world
   \<Rightarrow> ('y, 'x, 'g) zz_any_session \<Rightarrow> bool" where
  "zz_busy Z E ext w s \<longleftrightarrow> zz_libs_ok Z E \<and> (\<forall>p. ext p + 3 < 2 ^ 64) \<and>
     topics_held Z E (ext(session_topic s := ext (session_topic s) + 1)) w"

lemma hand_over_keeps:
  "hand_over p ms w = Inr w' \<Longrightarrow> zw_heap w' = zw_heap w \<and> zw_db w' = zw_db w"
  by (auto simp: hand_over_def split: if_splits option.splits cell.splits)

lemma zz_finish_keeps:
  assumes "zz_finish session p ms res response w = r_return (rc, resp, sess, w')"
  shows "sess = Some (session res) \<and> zw_heap w' = zw_heap w \<and> zw_db w' = zw_db w"
  using assms
  by (auto simp: zz_finish_def run_r_def Let_def r_bind_return_iff split: option.splits if_splits dest!: hand_over_keeps)

lemma json_process_topic:
  "json_process_buffer al yp a b s = r_return (rc, s', out) \<Longrightarrow> zs_topic_handler s' = zs_topic_handler s"
  by (auto simp: json_process_buffer_def run_r_def dest: process_json_buffer_topic)

lemma zz_callback_keeps:
  assumes "zz_callback Z buf props opaque (Some s) response w = r_return (rc, resp, sess, w')"
  shows "\<exists>t. sess = Some t \<and> session_topic t = session_topic s \<and> zw_heap w' = zw_heap w \<and> zw_db w' = zw_db w"
proof (cases s)
  case (Json_session j)
  with assms show ?thesis
    by (auto simp: zz_callback_def Let_def r_bind_return_iff zz_decode_topic [OF _ json_process_topic] dest!: zz_finish_keeps)
next
  case (Xml_session x)
  with assms show ?thesis
    by (auto simp: zz_callback_def Let_def r_bind_return_iff zz_decode_topic [OF _ process_xml_buffer_topic] dest!: zz_finish_keeps)
qed

lemma zz_new_parser_topic: "zz_new_parser Z k xml p = Inr (Some s) \<Longrightarrow> session_topic s = p"
  by (auto simp: zz_new_parser_def new_zz_session_xml_def new_zz_session_json_def zeroed_xml_session_def zeroed_json_session_def
      c_bind_Inr_iff split: if_splits option.splits)

lemma vnew_zz_session_refs:
  assumes "zz_idle Z E ext w" and "vnew_zz_session Z opaque props w = r_return (rc, sess, w')"
  shows "if rc = 0 then \<exists>s. sess = Some s \<and> zz_busy Z E ext w' s else zz_idle Z E ext w'"
proof -
  obtain db where db: "zw_db w = \<lparr>zz_topics_db = Some db\<rparr>"
      "db_inv (zl_tommy Z) (zl_rdkafka Z) E (zw_heap w) db (db_topics E db) ext"
    and ok: "tommy_ok (zl_tommy Z) E" "rdkafka_topics_ok (zl_rdkafka Z)" "\<And>k H. fresh_addr H (zl_topic_addr Z k H)"
    and bound: "\<And>p. ext p + 3 < 2 ^ 64"
    using assms(1) by (auto simp: zz_idle_def topics_held_def zz_libs_ok_def)
  obtain res where res: "new_zz_session (zl_tommy Z) (zl_rdkafka Z) (zl_topic_addr Z (zw_calls w) (zw_heap w))
      (zz_new_parser Z (zw_calls w)) (zw_heap w) (zw_db w) props (zl_now Z (zw_calls w)) = Inr res"
    "rc = ns_rc res" "sess = ns_session res" "zw_heap w' = ns_heap res" "zw_db w' = ns_db res"
    using assms(2) by (auto simp: vnew_zz_session_def Let_def run_r_def c_bind_Inr_iff)
  obtain url where url: "valueof props ''D-HTTP-URI'' strcmp0 = Some url"
    using res(1) by (cases "valueof props ''D-HTTP-URI'' strcmp0") (simp_all add: new_zz_session_def)
  have "session_opened (zl_tommy Z) (zl_rdkafka Z) E ext (zz_new_parser Z (zw_calls w)) props url res"
    using new_zz_session_cases [OF ok(1,2) db(2) bound ok(3) [where k = "zw_calls w"] url, where now = "zl_now Z (zw_calls w)" and new_parser = "zz_new_parser Z (zw_calls w)"] res(1)
    unfolding db(1) by auto
  then show ?thesis
    using assms(1) res(2-5) zz_new_parser_topic
    by (fastforce simp: session_opened_def zz_idle_def zz_busy_def topics_held_def)
qed

lemma vfree_zz_session_returns:
  assumes "zz_busy Z E ext w s"
  shows "\<exists>w'. vfree_zz_session s w = r_return w' \<and> zz_idle Z E ext w' \<and> zw_handed w' = zw_handed w"
proof -
  let ?p = "session_topic s" and ?ext = "ext(session_topic s := ext (session_topic s) + 1)"
  obtain db where db: "zw_db w = \<lparr>zz_topics_db = Some db\<rparr>"
      "db_inv (zl_tommy Z) (zl_rdkafka Z) E (zw_heap w) db (db_topics E db) ?ext"
    and ok: "tommy_ok (zl_tommy Z) E" using assms(1) by (auto simp: zz_busy_def topics_held_def zz_libs_ok_def)
  have again: "?ext(?p := ?ext ?p - 1) = ext" by (simp add: fun_eq_iff)
  have "\<exists>H'. (case s of Json_session s \<Rightarrow> free_zz_session free_zz_session_json (zw_heap w) s
      | Xml_session s \<Rightarrow> free_zz_session (\<lambda>s. s) (zw_heap w) s) = Inr H' \<and>
    db_inv (zl_tommy Z) (zl_rdkafka Z) E H' db (db_topics E db) ext"
  proof (cases s)
    case (Json_session j)
    with free_zz_session_decref [OF ok db(2), of j free_zz_session_json] again show ?thesis
      by (auto simp: free_zz_session_json_def)
  next
    case (Xml_session x)
    with free_zz_session_decref [OF ok db(2), of x "\<lambda>s. s"] again show ?thesis by auto
  qed
  with assms db(1) show ?thesis
    by (auto simp: vfree_zz_session_def run_r_def c_bind_Inr_iff zz_busy_def zz_idle_def topics_held_def)
qed

lemma vfree_zz_session_refs:
  "zz_busy Z E ext w s \<Longrightarrow> vfree_zz_session s w = r_return w' \<Longrightarrow> zz_idle Z E ext w'"
  using vfree_zz_session_returns by fastforce

interpretation zz: session_decoder "zz_decoder Z" "zz_idle Z E ext" "zz_busy Z E ext" "vnew_zz_session Z" vfree_zz_session
  for Z :: "('h, 'l, 'y, 'x, 'g) zz_libs" and E ext
proof unfold_locales
  show "dec_new_session (zz_decoder Z) = Some (vnew_zz_session Z)" "dec_delete_session (zz_decoder Z) = Some vfree_zz_session"
    by (simp_all add: zz_decoder_def)
  show "if rc = 0 then \<exists>s. sess = Some s \<and> zz_busy Z E ext w' s else zz_idle Z E ext w'"
    if "zz_idle Z E ext w" "vnew_zz_session Z opaque props w = r_return (rc, sess, w')" for w opaque props rc sess w'
    using that by (rule vnew_zz_session_refs)
  show "\<exists>t. s' = Some t \<and> zz_busy Z E ext w' t"
    if "zz_busy Z E ext w s" "dec_callback (zz_decoder Z) buf props opaque (Some s) resp w = r_return (err, resp', s', w')"
    for w s buf props opaque resp err resp' s' w'
    using that zz_callback_keeps [of Z buf props opaque s resp w err resp' s' w']
    by (auto simp: zz_decoder_def zz_busy_def topics_held_def)
  show "zz_idle Z E ext w'" if "zz_busy Z E ext w s" "vfree_zz_session s w = r_return w'" for w s w'
    using that by (rule vfree_zz_session_refs)
qed

section \<open>A JSON request from the listener to librdkafka\<close>

text \<open>A listener that decodes with this decoder, directly or through another one.\<close>

definition decodes_with_zz ::
  "(('h, 'l) zz_world, 'j, 'o, ('y, 'x, 'g) zz_any_session) listener \<Rightarrow> keyval_list \<Rightarrow> ('h, 'l, 'y, 'x, 'g) zz_libs \<Rightarrow> bool" where
  "decodes_with_zz li props Z \<longleftrightarrow>
     (\<forall>c sess resp w. listener_decode li c props resp sess w = zz_callback Z c props () sess resp w) \<and>
     dec_delete_session (li_decoder li) = Some vfree_zz_session"

lemma zz_decoder_decodes: "li_decoder li = zz_decoder Z \<Longrightarrow> decodes_with_zz li props Z"
  by (simp add: decodes_with_zz_def listener_decode_def zz_decoder_def zz_callback_def)

text \<open>The memory and the librdkafka a request meets: every chunk's copy has an address that leaves room for it.\<close>

definition zz_provides :: "('h, 'l, 'y, 'x, 'g) zz_libs \<Rightarrow> bytes list \<Rightarrow> bool" where
  "zz_provides Z cs \<longleftrightarrow> (\<forall>k. al_ok (zl_al Z) k) \<and>
     (\<forall>k. produce_batch_ok (zl_produce_batch Z k)) \<and>
     (\<forall>k ms. \<forall>m \<in> set (snd (zl_produce_batch Z k ms 0)).
        rkm_err m \<noteq> RD_KAFKA_RESP_ERR_NO_ERROR \<longrightarrow> known_error (rkm_err m)) \<and>
     (\<forall>k. \<exists>a. zl_chunk_addr Z k = Some a \<and> a \<noteq> 0 \<and> (\<forall>c \<in> set cs. unat a + length c < 2 ^ 64))"

lemma zz_provides_Cons: "zz_provides Z (c # cs) \<Longrightarrow> zz_provides Z cs"
  unfolding zz_provides_def by (meson list.set_intros(2))

lemma zz_callback_json:
  assumes prov: "zz_provides Z (c # cs)" and ne: "c \<noteq> []" and size: "16 + 72 * (length P + length c) \<le> 2 ^ 31"
    and rel: "sess_rel P st s" and warn: "produce_state_ok (zs_last_warning s)"
    and yp: "zl_yajl_parse Z (js_yajl_handler s) c = (evs, Yajl_ok, h')" and pos: "positions_ok 0 (length c) evs"
    and dep: "depth_ok (ob_depth st) evs" and post: "valueof props ''D-HTTP-method'' strcmp0 = Some ''POST''"
    and live: "zw_heap w (zs_topic_handler s) = Some (Live t)" and st': "st' = foldl obj_step st (map (shift_event (length P)) evs)"
  shows "\<exists>s' w'. zz_callback Z c props opaque (Some (Json_session s)) (Some no_response) w =
      r_return (DECODER_CALLBACK_OK, Some no_response, Some (Json_session s'), w') \<and>
    js_yajl_handler s' = h' \<and> sess_rel (P @ c) st' s' \<and> produce_state_ok (zs_last_warning s') \<and>
    zs_topic_handler s' = zs_topic_handler s \<and> zw_heap w' = zw_heap w \<and> zw_db w' = zw_db w \<and>
    zw_handed w' = zw_handed w @ map (Pair (topic_rkt t)) (map (slice (P @ c)) (drop (length (ob_done st)) (ob_done st')))"
proof -
  let ?k = "zw_calls w"
  obtain a where a: "zl_chunk_addr Z ?k = Some a" "a \<noteq> 0" "unat a + length c < 2 ^ 64"
    using prov by (force simp: zz_provides_def)
  have fits: "chunk_fits P a c" using a size by (simp add: chunk_fits_def)
  have al: "\<And>j. al_ok (zl_al Z) j" and pb: "produce_batch_ok (zl_produce_batch Z ?k)" using prov by (simp_all add: zz_provides_def)
  have safe: "\<And>ms. warnings_safe (Some (zs_last_warning s)) (snd (zl_produce_batch Z ?k ms 0))"
    using prov warn by (simp add: warnings_safe_def zz_provides_def)
  obtain res where res: "zz_decode (json_process_buffer (zl_al Z) (zl_yajl_parse Z) (Some a)) (error_message_json (zl_al Z))
      (zl_produce_batch Z ?k) (zl_warning_now Z ?k) (zl_karray_addr Z ?k) c props s = r_return res"
    "zd_rc res = DECODER_CALLBACK_OK" "sess_rel (P @ c) st' (zd_session res)"
    "map (slice (P @ c)) (drop (length (ob_done st)) (ob_done st')) = zd_split res @ map (msg_bytes a c) (zd_msgs res)"
    "js_yajl_handler (zd_session res) = h'" "zs_topic_handler (zd_session res) = zs_topic_handler s"
    "produce_state_ok (zs_last_warning (zd_session res))" "zd_response res = None"
    using decode_json_chunk [where yp = "zl_yajl_parse Z" and now = "zl_warning_now Z ?k" and ka = "zl_karray_addr Z ?k",
        OF post rel fits ne yp pos dep al pb safe] unfolding st' by blast
  with a live show ?thesis
    by (auto simp: zz_callback_def Let_def zz_finish_def run_r_def hand_over_def topics_db_get_rdkafka_topic_def
        split: option.splits)
qed

lemma decode_chunks_json:
  assumes "decodes_with_zz li props Z" and "valueof props ''D-HTTP-method'' strcmp0 = Some ''POST''"
  shows "zz_provides Z cs \<Longrightarrow> \<forall>c \<in> set cs. c \<noteq> [] \<Longrightarrow> 16 + 72 * (length P + length (concat cs)) \<le> 2 ^ 31 \<Longrightarrow>
    sess_rel P st s \<Longrightarrow> \<forall>r \<in> set (ob_done st). snd r \<le> length P \<Longrightarrow> produce_state_ok (zs_last_warning s) \<Longrightarrow>
    feed (zl_yajl_parse Z) (js_yajl_handler s) (length P) cs = Some evs \<Longrightarrow> depth_ok (ob_depth st) evs \<Longrightarrow>
    zw_heap w (zs_topic_handler s) = Some (Live t) \<Longrightarrow>
    \<exists>s' w'. decode_chunks li props cs (Some (Json_session s)) w =
        r_return (DECODER_CALLBACK_OK, no_response, Some (Json_session s'), w') \<and>
      zs_topic_handler s' = zs_topic_handler s \<and> zw_heap w' = zw_heap w \<and> zw_db w' = zw_db w \<and>
      zw_handed w' = zw_handed w @ map (Pair (topic_rkt t))
        (map (slice (P @ concat cs)) (drop (length (ob_done st)) (ob_done (foldl obj_step st evs))))"
proof (induction cs arbitrary: P st s evs w)
  case Nil
  then show ?case by simp
next
  case (Cons c cs)
  obtain evs1 h' evs2 where yp: "zl_yajl_parse Z (js_yajl_handler s) c = (evs1, Yajl_ok, h')" and pos: "positions_ok 0 (length c) evs1"
    and ev2: "feed (zl_yajl_parse Z) h' (length P + length c) cs = Some evs2"
    and evs: "evs = map (shift_event (length P)) evs1 @ evs2"
    using Cons.prems(2,7) by (auto split: prod.splits yajl_status.splits if_splits)
  let ?e1 = "map (shift_event (length P)) evs1"
  define st1 where "st1 = foldl obj_step st ?e1"
  have dep: "depth_ok (ob_depth st) evs1" "depth_ok (ob_depth st1) evs2"
    using Cons.prems(8) evs by (simp_all add: depth_ok_append st1_def)
  have "16 + 72 * (length P + length c) \<le> 2 ^ 31" using Cons.prems(3) by simp
  from zz_callback_json [OF Cons.prems(1) _ this Cons.prems(4,6) yp pos dep(1) assms(2) Cons.prems(9) st1_def, of "()"]
  obtain s1 w1 where s1: "zz_callback Z c props () (Some (Json_session s)) (Some no_response) w =
      r_return (DECODER_CALLBACK_OK, Some no_response, Some (Json_session s1), w1)" "js_yajl_handler s1 = h'"
    "sess_rel (P @ c) st1 s1" "produce_state_ok (zs_last_warning s1)" "zs_topic_handler s1 = zs_topic_handler s"
    "zw_heap w1 = zw_heap w" "zw_db w1 = zw_db w"
    and handed: "zw_handed w1 = zw_handed w @ map (Pair (topic_rkt t)) (map (slice (P @ c)) (drop (length (ob_done st)) (ob_done st1)))"
    using Cons.prems(2) by auto
  have d: "listener_decode li c props (Some no_response) (Some (Json_session s)) w =
      r_return (DECODER_CALLBACK_OK, Some no_response, Some (Json_session s1), w1)"
    using s1(1) assms(1) by (simp add: decodes_with_zz_def)
  have old: "\<forall>r \<in> set (ob_done st1). snd r \<le> length (P @ c)"
    unfolding st1_def using Cons.prems(5) positions_ok_bound [OF pos] by (intro objects_bound) (auto simp: event_pos_shift)
  obtain s2 w2 where s2: "decode_chunks li props cs (Some (Json_session s1)) w1 =
      r_return (DECODER_CALLBACK_OK, no_response, Some (Json_session s2), w2)"
    "zs_topic_handler s2 = zs_topic_handler s1" "zw_heap w2 = zw_heap w1" "zw_db w2 = zw_db w1"
    "zw_handed w2 = zw_handed w1 @ map (Pair (topic_rkt t))
      (map (slice ((P @ c) @ concat cs)) (drop (length (ob_done st1)) (ob_done (foldl obj_step st1 evs2))))"
    using Cons.IH [OF zz_provides_Cons [OF Cons.prems(1)] _ _ s1(3) old s1(4) _ dep(2), of w1] Cons.prems(2,3,9) ev2 s1(2,5,6)
    by (auto simp: add.assoc)
  obtain xs ys where xs: "ob_done st1 = ob_done st @ xs" and ys: "ob_done (foldl obj_step st1 evs2) = ob_done st1 @ ys"
    using objects_extend [of st ?e1] objects_extend [of st1 evs2] unfolding st1_def by blast
  have "map (slice (P @ c @ concat cs)) xs = map (slice (P @ c)) xs"
    using old xs slice_prefix [of _ "P @ c" "concat cs"] by auto
  moreover have "foldl obj_step st evs = foldl obj_step st1 evs2" by (simp add: evs st1_def)
  ultimately show ?case
    using d s2 s1(5-7) handed xs ys by (intro exI [of _ s2] exI [of _ w2]) simp
qed

text \<open>A request that meets no obstacle in the listener.\<close>

definition plain_post :: "'z http_env \<Rightarrow> ('w, 'j, 'o, 's) http_listener \<Rightarrow> mhd_connection \<Rightarrow> string \<Rightarrow> bool" where
  "plain_post env hl con client \<longleftrightarrow> request_admitted env hl con \<and> client_addr env con = Some client \<and>
     env_conn_calloc_ok env \<and> mhd_create_ok con \<and> mhd_queue_ok con = (\<lambda>_. True) \<and>
     (\<exists>n. env_responses env = shared_responses n) \<and> \<not> compressed_request con"

text \<open>A JSON session as it is opened.\<close>

lemma vnew_zz_session_json:
  assumes idle: "zz_idle Z E ext w" and open0: "vnew_zz_session Z opaque props w = r_return (0, Some s, w1)"
    and xml: "\<not> is_xml_content_type (valueof props ''Content-type'' strcasecmp0)"
    and uri: "valueof props ''D-HTTP-URI'' strcmp0 = Some uri"
  obtains p topic h t where "extract_url_topic uri = Some topic" "zl_yajl_alloc Z (zw_calls w) = Some h"
    "s = Json_session (zeroed_json_session h p)" "zw_heap w1 p = Some (Live t)"
    "rd_kafka_topic_name (zl_rdkafka Z) (topic_rkt t) = make_uuid_topic (valueof props ''X-Consumer-ID'' strcasecmp0) topic"
    "zw_handed w1 = zw_handed w"
proof -
  obtain db where db: "zw_db w = \<lparr>zz_topics_db = Some db\<rparr>"
      "db_inv (zl_tommy Z) (zl_rdkafka Z) E (zw_heap w) db (db_topics E db) ext"
    and ok: "tommy_ok (zl_tommy Z) E" "rdkafka_topics_ok (zl_rdkafka Z)" "\<And>k H. fresh_addr H (zl_topic_addr Z k H)"
    and bound: "\<And>p. ext p + 3 < 2 ^ 64"
    using idle by (auto simp: zz_idle_def topics_held_def zz_libs_ok_def)
  obtain res where res: "new_zz_session (zl_tommy Z) (zl_rdkafka Z) (zl_topic_addr Z (zw_calls w) (zw_heap w))
      (zz_new_parser Z (zw_calls w)) (zw_heap w) (zw_db w) props (zl_now Z (zw_calls w)) = Inr res"
    "ns_rc res = 0" "ns_session res = Some s" "w1 = w\<lparr>zw_heap := ns_heap res, zw_db := ns_db res, zw_calls := Suc (zw_calls w)\<rparr>"
    using open0 by (auto simp: vnew_zz_session_def Let_def run_r_def c_bind_Inr_iff)
  have "session_opened (zl_tommy Z) (zl_rdkafka Z) E ext (zz_new_parser Z (zw_calls w)) props uri res"
    using new_zz_session_cases [OF ok(1,2) db(2) bound ok(3) [where k = "zw_calls w"] uri,
        where now = "zl_now Z (zw_calls w)" and new_parser = "zz_new_parser Z (zw_calls w)"] res(1)
    unfolding db(1) by auto
  with res(2,3) xml obtain p topic where p: "extract_url_topic uri = Some topic"
    "tname (zl_rdkafka Z) (ns_heap res) p = Some (make_uuid_topic (valueof props ''X-Consumer-ID'' strcasecmp0) topic)"
    "zz_new_parser Z (zw_calls w) False p = Inr (Some s)"
    by (auto simp: session_opened_def)
  from p(3) obtain h where h: "zl_yajl_alloc Z (zw_calls w) = Some h" "s = Json_session (zeroed_json_session h p)"
    by (auto simp: zz_new_parser_def new_zz_session_json_def zeroed_json_session_def split: option.splits if_splits)
  from p(2) obtain t where t: "ns_heap res p = Some (Live t)"
    "rd_kafka_topic_name (zl_rdkafka Z) (topic_rkt t) = make_uuid_topic (valueof props ''X-Consumer-ID'' strcasecmp0) topic"
    by (auto simp: tname_def split: option.splits cell.splits)
  show thesis using that [OF p(1) h _ t(2)] t(1) res(4) by simp
qed

lemma http_json_request_run:
  fixes env :: "'z http_env" and Z :: "('h, 'l, 'y, 'x, 'g) zz_libs"
  assumes post: "plain_post env hl con client" and props: "props = request_props con ''POST'' url (Some client)"
    and dec: "decodes_with_zz (hl_listener hl) props Z" and meth: "valueof props ''D-HTTP-method'' strcmp0 = Some ''POST''"
    and new: "dec_new_session (li_decoder (hl_listener hl)) = Some new_session"
      "new_session (li_decoder_opaque (hl_listener hl)) props w = vnew_zz_session Z () vars w"
    and vars: "valueof vars ''D-HTTP-URI'' strcmp0 = Some uri" "\<not> is_xml_content_type (valueof vars ''Content-type'' strcasecmp0)"
    and idle: "zz_idle Z E ext w" and open0: "vnew_zz_session Z () vars w = r_return (0, Some s, w1)"
    and yajl: "\<And>h. zl_yajl_alloc Z (zw_calls w) = Some h \<Longrightarrow> yajl_stream (zl_yajl_parse Z) h (concat cs) evs"
    and ne: "\<forall>c \<in> set cs. c \<noteq> []" and prov: "zz_provides Z cs" and size: "16 + 72 * length (concat cs) \<le> 2 ^ 31"
  shows "\<exists>rkt topic w'. post_request env hl con url cs w =
      r_return \<lparr>hs_ptr = Cls_null, hs_replies = [accepted_reply], hs_world = w'\<rparr> \<and>
    extract_url_topic uri = Some topic \<and>
    rd_kafka_topic_name (zl_rdkafka Z) rkt = make_uuid_topic (valueof vars ''X-Consumer-ID'' strcasecmp0) topic \<and>
    zw_handed w' = zw_handed w @ map (\<lambda>r. (rkt, slice (concat cs) r)) (ob_done (objects evs)) \<and> zz_idle Z E ext w'"
proof -
  obtain p topic h t where s: "extract_url_topic uri = Some topic" "zl_yajl_alloc Z (zw_calls w) = Some h"
    "s = Json_session (zeroed_json_session h p)" "zw_heap w1 p = Some (Live t)"
    "rd_kafka_topic_name (zl_rdkafka Z) (topic_rkt t) = make_uuid_topic (valueof vars ''X-Consumer-ID'' strcasecmp0) topic"
    "zw_handed w1 = zw_handed w"
    by (rule vnew_zz_session_json [OF idle open0 vars(2,1)]) (rule that; assumption)
  let ?st = "\<lparr>ob_depth = 0, ob_start = 0, ob_done = []\<rparr>" and ?s = "zeroed_json_session h p"
  have rel: "sess_rel [] ?st ?s" by (simp add: sess_rel_def zeroed_json_session_def)
  have warn: "produce_state_ok (zs_last_warning ?s)" by (simp add: zeroed_json_session_def produce_state_ok_def)
  have feed: "feed (zl_yajl_parse Z) (js_yajl_handler ?s) (length ([] :: bytes)) cs = Some evs" and dep: "depth_ok (ob_depth ?st) evs"
    using yajl [OF s(2)] by (simp_all add: yajl_stream_def zeroed_json_session_def)
  have live: "zw_heap w1 (zs_topic_handler ?s) = Some (Live t)" using s(4) by (simp add: zeroed_json_session_def)
  have "16 + 72 * (length ([] :: bytes) + length (concat cs)) \<le> 2 ^ 31" using size by simp
  from decode_chunks_json [OF dec meth prov ne this rel _ warn feed dep live]
  obtain s2 w2 where d: "decode_chunks (hl_listener hl) props cs (Some (Json_session ?s)) w1 =
      r_return (DECODER_CALLBACK_OK, no_response, Some (Json_session s2), w2)"
    "zs_topic_handler s2 = zs_topic_handler ?s" "zw_heap w2 = zw_heap w1" "zw_db w2 = zw_db w1"
    "zw_handed w2 = zw_handed w1 @ map (Pair (topic_rkt t)) (map (slice (concat cs)) (ob_done (objects evs)))"
    unfolding objects_def by auto
  have "zz_busy Z E ext w1 s" using zz.opens [OF idle open0] by simp
  then have "zz_busy Z E ext w2 (Json_session s2)" using d(2-4) s(3) by (simp add: zz_busy_def topics_held_def)
  from vfree_zz_session_returns [OF this] obtain w3 where
    w3: "vfree_zz_session (Json_session s2 :: ('y, 'x, 'g) zz_any_session) w2 = r_return w3" "zz_idle Z E ext w3" "zw_handed w3 = zw_handed w2" by blast
  obtain n where p: "request_admitted env hl con" "client_addr env con = Some client" "env_conn_calloc_ok env" "mhd_create_ok con"
    "mhd_queue_ok con = (\<lambda>_. True)" "env_responses env = shared_responses n" "\<not> compressed_request con"
    using post by (auto simp: plain_post_def)
  have del: "dec_delete_session (li_decoder (hl_listener hl)) = Some vfree_zz_session" using dec by (simp add: decodes_with_zz_def)
  from post_request_run [OF p ne props new(1) del open0 [folded new(2)] d(1) [folded s(3)] w3(1)] d(5) s(1,5,6) w3(2,3) show ?thesis
    by (intro exI [of _ "topic_rkt t"] exI [of _ topic] exI [of _ w3]) (simp add: comp_def)
qed

section \<open>An example\<close>

text \<open>The decoder on the libraries the other examples use, with an empty topics database, and a connection.\<close>

definition demo_libs :: "((addr \<times> tommy_hash_t) list, addr list, unit, unit, gen_level list) zz_libs" where
  "demo_libs = \<lparr>zl_tommy = alist_tommy, zl_rdkafka = one_topic, zl_al = total_allocator, zl_now = (\<lambda>_. 100),
     zl_topic_addr = (\<lambda>k H. if H 5 = None then Some 5 else None), zl_chunk_addr = (\<lambda>_. Some 4096), zl_text_addr = (\<lambda>_. 8192),
     zl_karray_addr = (\<lambda>_. 77), zl_produce_batch = (\<lambda>_. accept_batch), zl_warning_now = (\<lambda>_ _. 0),
     zl_yajl_parse = brace_parser, zl_yajl_alloc = (\<lambda>_. Some ()), zl_yajl_null = (),
     zl_xml = plain_lib (\<lambda>_. feed_of [] 0), zl_expat_create = (\<lambda>_. Some ()), zl_expat_null = (), zl_gen_alloc = (\<lambda>_. Some []),
     zl_gen_null = [], zl_database_calloc_ok = True, zl_sizeof_session = 500\<rparr>"

definition demo_world :: "((addr \<times> tommy_hash_t) list, addr list) zz_world" where
  "demo_world = \<lparr>zw_heap = (\<lambda>_. None), zw_db = \<lparr>zz_topics_db = Some empty_db\<rparr>, zw_handed = [], zw_calls = 0\<rparr>"

definition demo_con :: mhd_connection where
  "demo_con = plain_con\<lparr>mc_headers := []\<rparr>"

lemma demo_libs_ok: "zz_libs_ok demo_libs set"
  by (simp add: zz_libs_ok_def demo_libs_def alist_tommy_ok one_topic_ok fresh_addr_def)

lemma demo_topics_held: "topics_held demo_libs set (\<lambda>_. 0) demo_world"
  using empty_db_inv by (simp add: topics_held_def demo_world_def demo_libs_def)

lemma demo_provides: "zz_provides demo_libs [''{a}{'', ''b}'']"
  by (simp add: zz_provides_def demo_libs_def refuse_batch_ok accept_batch_def)

lemma demo_opens:
  assumes "valueof vars ''D-HTTP-URI'' strcmp0 = Some ''/v1/data/t''" and "valueof vars ''X-Consumer-ID'' strcasecmp0 = None"
    and "valueof vars ''Content-type'' strcasecmp0 = None"
  shows "\<exists>s w1. vnew_zz_session demo_libs () vars demo_world = r_return (0, Some s, w1)"
proof -
  have "topics_db_get_topic alist_tommy one_topic (Some 5) (\<lambda>_. None) empty_db ''t'' 100 =
      Inr (Some 5, (\<lambda>_. None)(5 \<mapsto> Live \<lparr>topic_rkt = 7, topic_refcnt = 2, topic_timestamp = 100\<rparr>),
           \<lparr>db_hashtable = [(5, 1)], db_lru = [5]\<rparr>)"
    by (simp add: topics_db_get_topic_def get_topic_lookup_def topics_search_def new_topic_s_def
        get_topic_insert_def rkt_found_def purge_topics_older_than_def alist_tommy_def one_topic_def)
  moreover have "extract_url_topic ''/v1/data/t'' = Some ''t''"
    by (simp add: extract_url_topic_def valid_prefix_str_def url_specials_def strncmp0_def strcspn_def)
  ultimately show ?thesis
    by (simp add: vnew_zz_session_def run_r_def new_zz_session_def assms demo_libs_def demo_world_def Let_def
        make_uuid_topic_def zz_http2k_database_get_topic_def is_xml_content_type_def zz_new_parser_def new_zz_session_json_def)
qed

end
