(* ===== verification/Kafka_Client.thy ===== *)
theory Kafka_Client
  imports Topic_Database Kafka_Message_Array
begin

text \<open>
  The use of librdkafka that is not tied to a batch (\<^verbatim>\<open>src/util/kafka.c\<close>): topics on the global handle, the
  delivery reports, the statistics librdkafka reports (sent to a topic or logged, with the members the
  configuration adds), starting and stopping. librdkafka is a parameter.
\<close>

section \<open>Topics and deliveries\<close>

text \<open>\<open>topic_new\<close> creates a topic on the global handle; the name may be a null pointer.\<close>

definition new_rkt_global_config :: "(string option \<Rightarrow> rkt option) \<Rightarrow> string option \<Rightarrow> rkt option" where
  "new_rkt_global_config topic_new topic_name = topic_new topic_name"

text \<open>The batches that messages belong to, by address.\<close>

type_synonym batch_heap = "addr \<Rightarrow> kafka_message_array_internal cell option"

definition msg_delivered :: "rd_kafka_message \<Rightarrow> batch_heap \<Rightarrow> batch_heap c_result" where
  "msg_delivered rkmessage B =
     (if rkm_private rkmessage \<noteq> 0
      then (case B (rkm_private rkmessage) of
              None \<Rightarrow> Inl UseAfterFree
            | Some c \<Rightarrow> c_bind (release kafka_message_array_internal_decref c) (\<lambda>c'. Inr (B(rkm_private rkmessage \<mapsto> c'))))
      else Inr B)"

section \<open>Statistics\<close>

text \<open>What a callback answers: whether librdkafka frees the text, or the program does.\<close>

definition PLEASE_FREE_LIBRDKAFKA :: int where
  "PLEASE_FREE_LIBRDKAFKA = 0"

definition I_WILL_FREE_LIBRDKAFKA :: int where
  "I_WILL_FREE_LIBRDKAFKA = 1"

datatype stats_cb = Stats_topic_cb | Stats_rdlog_cb

record kafka_stats =
  stats_topic :: "rkt option"
  n2k_stats_cb :: stats_cb
  append_buf :: "bytes option"
  append_size :: nat

text \<open>
  What the statistics callbacks do besides answering: the messages they produce (which librdkafka frees)
  and the pieces of text they hand to the log. A text has the bytes of its block, of which the callback is
  told a length.
\<close>

record stats_out =
  so_produced :: "(rkt \<times> bytes) list"
  so_logged :: "bytes list"

definition rdkafka_stats_topic_cb :: "(rkt \<Rightarrow> bytes \<Rightarrow> bool) \<Rightarrow> kafka_stats \<Rightarrow> bytes \<Rightarrow> nat \<Rightarrow> (int \<times> stats_out) c_run" where
  "rdkafka_stats_topic_cb produce_ok stats json json_len =
     (case stats_topic stats of
        None \<Rightarrow> r_return (PLEASE_FREE_LIBRDKAFKA, \<lparr>so_produced = [], so_logged = []\<rparr>)
      | Some rkt \<Rightarrow>
          if length json < json_len then Some (Inl OutOfBounds)
          else if produce_ok rkt (take json_len json)
          then r_return (I_WILL_FREE_LIBRDKAFKA, \<lparr>so_produced = [(rkt, take json_len json)], so_logged = []\<rparr>)
          else r_return (PLEASE_FREE_LIBRDKAFKA, \<lparr>so_produced = [], so_logged = []\<rparr>))"

text \<open>memchr for a comma from an offset on.\<close>

definition find_comma :: "bytes \<Rightarrow> nat \<Rightarrow> nat option" where
  "find_comma json i =
     (let k = length (takeWhile (\<lambda>c. c \<noteq> CHR '','') (drop i json))
      in if i + k < length json then Some (i + k) else None)"

lemma find_comma_Some:
  assumes "find_comma json i = Some j"
  shows "i \<le> j" and "j < length json" and "json ! j = CHR '',''" and "\<And>k. i \<le> k \<Longrightarrow> k < j \<Longrightarrow> json ! k \<noteq> CHR '',''"
proof -
  let ?tw = "takeWhile (\<lambda>c. c \<noteq> CHR '','') (drop i json)"
  have j: "j = i + length ?tw" "i + length ?tw < length json" using assms by (auto simp: find_comma_def Let_def split: if_splits)
  then show "i \<le> j" "j < length json" by simp_all
  have "length ?tw < length (drop i json)" using j(2) by simp
  from nth_length_takeWhile [OF this] show "json ! j = CHR '',''" using j by simp
  fix k assume k: "i \<le> k" "k < j"
  then have kt: "k - i < length ?tw" using j by simp
  from nth_mem [OF kt] have "?tw ! (k - i) \<noteq> CHR '',''" by (metis (mono_tags, lifting) set_takeWhileD)
  with takeWhile_nth [OF kt] k j show "json ! k \<noteq> CHR '',''" by simp
qed

lemma find_comma_None: "find_comma json i = None \<Longrightarrow> i \<le> k \<Longrightarrow> k < length json \<Longrightarrow> json ! k \<noteq> CHR '',''"
proof
  assume none: "find_comma json i = None" and k: "i \<le> k" "k < length json" and c: "json ! k = CHR '',''"
  have "drop i json ! (k - i) = CHR '',''" "k - i < length (drop i json)" using k c by simp_all
  then have "CHR '','' \<in> set (drop i json)" by (metis nth_mem)
  then have "takeWhile (\<lambda>c. c \<noteq> CHR '','') (drop i json) \<noteq> drop i json" using takeWhile_eq_all_conv by fastforce
  then have "length (takeWhile (\<lambda>c. c \<noteq> CHR '','') (drop i json)) \<noteq> length (drop i json)"
    using takeWhile_eq_take [of "\<lambda>c. c \<noteq> CHR '',''" "drop i json"] by fastforce
  then have "length (takeWhile (\<lambda>c. c \<noteq> CHR '','') (drop i json)) < length (drop i json)"
    using length_takeWhile_le [of "\<lambda>c. c \<noteq> CHR '',''" "drop i json"] by simp
  with none show False by (simp add: find_comma_def Let_def split: if_splits)
qed

text \<open>
  The inner loop moves on from comma to comma as long as the piece that starts at the cursor stays below
  1024 bytes. Pointers are offsets in the text.
\<close>

function advance_comma :: "bytes \<Rightarrow> nat \<Rightarrow> nat \<Rightarrow> nat option \<Rightarrow> nat \<times> nat option" where
  "advance_comma json cursor comma next_comma =
     (case next_comma of
        None \<Rightarrow> (comma, None)
      | Some n \<Rightarrow> if int n - int cursor < 1024 then advance_comma json cursor n (find_comma json (n + 1))
                  else (comma, Some n))"
  by pat_completeness auto
termination
proof (relation "measure (\<lambda>(json, cursor, comma, next). case next of None \<Rightarrow> 0 | Some n \<Rightarrow> Suc (length json - n))", goal_cases)
  case (2 json cursor comma next_comma n)
  then show ?case
    by (cases "find_comma json (n + 1)") (use find_comma_Some [of json "n + 1"] in auto)
qed simp

declare advance_comma.simps [simp del]

partial_function (option) stats_log_loop ::
  "bytes \<Rightarrow> nat \<Rightarrow> nat \<Rightarrow> nat option \<Rightarrow> bytes list \<Rightarrow> (nat \<times> bytes list) c_run" where
  "stats_log_loop json cursor comma next_comma logged =
     (case next_comma of
        None \<Rightarrow> r_return (cursor, logged)
      | Some _ \<Rightarrow>
          (case advance_comma json cursor comma next_comma of
             (comma1, None) \<Rightarrow> r_return (cursor, logged)
           | (comma1, Some n1) \<Rightarrow>
               if cursor = n1 then r_return (cursor, logged)
               else stats_log_loop json (comma1 + 1) comma1 (Some n1)
                      (logged @ [take (comma1 + 1 - cursor) (drop cursor json)])))"

definition rdkafka_stats_rdlog_cb :: "bytes \<Rightarrow> nat \<Rightarrow> (int \<times> stats_out) c_run" where
  "rdkafka_stats_rdlog_cb json json_len =
     (if length json < json_len \<or> json_len = 0 then Some (Inl OutOfBounds)
      else r_bind (stats_log_loop (take json_len json) 0 0 (Some 0) []) (\<lambda>(cursor, logged).
        r_return (PLEASE_FREE_LIBRDKAFKA,
          \<lparr>so_produced = [], so_logged = logged @ [drop cursor (take json_len json)]\<rparr>)))"

definition stats_child :: "(rkt \<Rightarrow> bytes \<Rightarrow> bool) \<Rightarrow> kafka_stats \<Rightarrow> bytes \<Rightarrow> nat \<Rightarrow> (int \<times> stats_out) c_run" where
  "stats_child produce_ok stats json json_len =
     (case n2k_stats_cb stats of
        Stats_topic_cb \<Rightarrow> rdkafka_stats_topic_cb produce_ok stats json json_len
      | Stats_rdlog_cb \<Rightarrow> rdkafka_stats_rdlog_cb json json_len)"

text \<open>
  The decorator writes the configured members over the closing brace. The third result tells whether it
  freed the text; without memory it passes on the old text with the new length.
\<close>

definition rdkafka_stats_enrich_decorator_cb ::
  "allocator \<Rightarrow> (rkt \<Rightarrow> bytes \<Rightarrow> bool) \<Rightarrow> kafka_stats \<Rightarrow> bytes \<Rightarrow> nat \<Rightarrow> (int \<times> stats_out \<times> bool) c_run" where
  "rdkafka_stats_enrich_decorator_cb al produce_ok stats json json_len =
     (let new_json_len = json_len + append_size stats
      in case realloc al (Some json) (of_nat new_json_len) of
           None \<Rightarrow> r_bind (stats_child produce_ok stats json new_json_len) (\<lambda>(child_rc, out). r_return (child_rc, out, False))
         | Some new_json \<Rightarrow>
             (case append_buf stats of
                None \<Rightarrow> Some (Inl NullDeref)
              | Some buf \<Rightarrow>
                  if json_len = 0 \<or> length buf < append_size stats \<or> length new_json < new_json_len then Some (Inl OutOfBounds)
                  else let json1 = new_json[json_len - 1 := CHR '',''];
                           json2 = memcpy_at json1 json_len (take (append_size stats) buf);
                           json3 = json2[new_json_len - 1 := CHR ''}'']
                       in r_bind (stats_child produce_ok stats json3 new_json_len) (\<lambda>(child_rc, out).
                            if child_rc = PLEASE_FREE_LIBRDKAFKA then r_return (I_WILL_FREE_LIBRDKAFKA, out, True)
                            else r_return (child_rc, out, False))))"

section \<open>Starting and stopping\<close>

record n2kafka_rdkafka_conf =
  rk_conf :: "(string \<times> string) list option"
  statistics_topic :: "string option"
  extra_buf :: "bytes option"
  extra_size :: nat

text \<open>The callback that librdkafka is given: the chosen one, decorated when there are members to add.\<close>

datatype registered_stats_cb = Plain_stats stats_cb | Decorated_stats

text \<open>\<open>rk_ok\<close> tells whether the producer can be created, which consumes the librdkafka options. A failure ends
  the program.\<close>

definition init_rdkafka ::
  "bool \<Rightarrow> (string option \<Rightarrow> rkt option) \<Rightarrow> n2kafka_rdkafka_conf \<Rightarrow> kafka_stats
   \<Rightarrow> (registered_stats_cb \<times> n2kafka_rdkafka_conf \<times> kafka_stats) c_result" where
  "init_rdkafka rk_ok topic_new conf stats =
     (let cb = (if statistics_topic conf \<noteq> None then Stats_topic_cb else Stats_rdlog_cb);
          stats1 = stats\<lparr>n2k_stats_cb := cb, append_buf := extra_buf conf, append_size := extra_size conf\<rparr>;
          registered = (if append_size stats1 \<noteq> 0 then Decorated_stats else Plain_stats cb)
      in if \<not> rk_ok then Inl Exited
         else (case statistics_topic conf of
                 None \<Rightarrow> Inr (registered, conf\<lparr>rk_conf := None\<rparr>, stats1)
               | Some topic \<Rightarrow>
                   (case topic_new (Some topic) of
                      None \<Rightarrow> Inl Exited
                    | Some rkt \<Rightarrow> Inr (registered, conf\<lparr>rk_conf := None\<rparr>, stats1\<lparr>stats_topic := Some rkt\<rparr>))))"

text \<open>
  Stopping waits until nothing is outstanding, and then until librdkafka destroyed its handles: \<open>outq n\<close> is
  the number of outstanding messages after \<open>n\<close> polls and \<open>undestroyed n\<close> the answer of the \<open>n\<close>th wait. The result
  has the number of polls and of waits that found handles; the members to add are freed.
\<close>

partial_function (option) wait_zero :: "(nat \<Rightarrow> nat) \<Rightarrow> nat \<Rightarrow> nat option" where
  "wait_zero busy n = (if busy n > 0 then wait_zero busy (n + 1) else Some n)"

definition stop_rdkafka :: "(nat \<Rightarrow> nat) \<Rightarrow> (nat \<Rightarrow> nat) \<Rightarrow> kafka_stats \<Rightarrow> (nat \<times> nat \<times> kafka_stats) option" where
  "stop_rdkafka outq undestroyed stats =
     (let stats1 = stats\<lparr>stats_topic := None\<rparr>
      in case wait_zero outq 0 of
           None \<Rightarrow> None
         | Some n \<Rightarrow>
             (case wait_zero undestroyed 0 of
                None \<Rightarrow> None
              | Some k \<Rightarrow> Some (n, k, stats1\<lparr>append_buf := None\<rparr>)))"

section \<open>Deliveries free a batch once\<close>

fun deliver_all :: "rd_kafka_message list \<Rightarrow> batch_heap \<Rightarrow> batch_heap c_result" where
  "deliver_all [] B = Inr B"
| "deliver_all (m # ms) B = c_bind (msg_delivered m B) (deliver_all ms)"

lemma deliver_all_refs:
  "B a = Some (with_refs k (n + length ms)) \<Longrightarrow> n + length ms < 2 ^ 63 \<Longrightarrow> a \<noteq> 0 \<Longrightarrow> \<forall>m \<in> set ms. rkm_private m = a \<Longrightarrow>
   deliver_all ms B = Inr (B(a \<mapsto> with_refs k n))"
proof (induction ms arbitrary: B)
  case (Cons m ms)
  have "release kafka_message_array_internal_decref (with_refs k (n + length (m # ms))) = Inr (with_refs k (n + length ms))"
    using release_with_refs [of "n + length ms" k] Cons.prems(2) by simp
  then have "msg_delivered m B = Inr (B(a \<mapsto> with_refs k (n + length ms)))"
    using Cons.prems(1,3,4) by (simp add: msg_delivered_def)
  moreover have "deliver_all ms (B(a \<mapsto> with_refs k (n + length ms))) =
      Inr ((B(a \<mapsto> with_refs k (n + length ms)))(a \<mapsto> with_refs k n))"
    by (rule Cons.IH) (use Cons.prems in auto)
  ultimately show ?case by (simp add: fun_eq_iff)
qed (simp add: fun_upd_idem)

section \<open>The log of the statistics\<close>

text \<open>Where a field of the text starts: behind the opening brace, or behind a comma.\<close>

definition field_start :: "bytes \<Rightarrow> nat \<Rightarrow> bool" where
  "field_start json i \<longleftrightarrow> i = 1 \<or> (0 < i \<and> i \<le> length json \<and> json ! (i - 1) = CHR '','')"

definition short_fields :: "bytes \<Rightarrow> bool" where
  "short_fields json \<longleftrightarrow> (\<forall>i j. field_start json i \<longrightarrow> find_comma json i = Some j \<longrightarrow> j < i + 1024)"

text \<open>The loop's pointers: the comma is 0 or a comma, and the next one follows it.\<close>

definition at_comma :: "bytes \<Rightarrow> nat \<Rightarrow> nat option \<Rightarrow> bool" where
  "at_comma json comma next_comma \<longleftrightarrow> field_start json (comma + 1) \<and> next_comma = find_comma json (comma + 1)"

lemma advance_comma_spec:
  "advance_comma json cursor comma next_comma = (comma1, next1) \<Longrightarrow> at_comma json comma next_comma \<Longrightarrow>
   at_comma json comma1 next1 \<and> comma \<le> comma1 \<and> (comma1 = comma \<or> int comma1 - int cursor < 1024) \<and>
   (case next1 of None \<Rightarrow> True | Some n \<Rightarrow> 1024 \<le> int n - int cursor)"
proof (induction json cursor comma next_comma rule: advance_comma.induct)
  case (1 json cursor comma next_comma)
  show ?case
  proof (cases next_comma)
    case None
    with 1(2,3) show ?thesis by (subst (asm) advance_comma.simps) simp
  next
    case (Some n)
    note f = find_comma_Some [of json "comma + 1" n]
    have n: "find_comma json (comma + 1) = Some n" using 1(3) Some by (simp add: at_comma_def)
    show ?thesis
    proof (cases "int n - int cursor < 1024")
      case True
      have "at_comma json n (find_comma json (n + 1))" using f(2,3) [OF n] by (simp add: at_comma_def field_start_def)
      moreover have "advance_comma json cursor n (find_comma json (n + 1)) = (comma1, next1)"
        using 1(2) Some True by (subst (asm) advance_comma.simps) simp
      ultimately show ?thesis using 1(1) [OF Some True] f(1) [OF n] True by auto
    next
      case False
      with 1(2,3) Some show ?thesis by (subst (asm) advance_comma.simps) (auto split: if_splits)
    qed
  qed
qed

lemma take_drop_step: "a \<le> b \<Longrightarrow> take a xs @ take (b - a) (drop a xs) = take b xs"
  by (metis le_add_diff_inverse take_add)

text \<open>With short fields the loop ends, and what it logged is the text up to the cursor in pieces of at most 1024 bytes.\<close>

lemma stats_log_loop_returns:
  assumes "short_fields json" and "at_comma json comma next_comma" and "cursor \<le> comma + 1" and "comma + 1 \<le> length json"
    and "concat logged = take cursor json" and "\<forall>p \<in> set logged. length p \<le> 1024" and "int comma - int cursor < 1024"
  shows "\<exists>cursor' logged'. stats_log_loop json cursor comma next_comma logged = r_return (cursor', logged') \<and>
    concat logged' = take cursor' json \<and> (\<forall>p \<in> set logged'. length p \<le> 1024)"
  using assms(2-)
proof (induction "length json - cursor" arbitrary: cursor comma next_comma logged rule: less_induct)
  case less
  show ?case
  proof (cases next_comma)
    case None
    with less.prems show ?thesis by (subst stats_log_loop.simps) simp
  next
    case (Some n)
    obtain comma1 next1 where adv: "advance_comma json cursor comma next_comma = (comma1, next1)" by fastforce
    note s = advance_comma_spec [OF adv less.prems(1)]
    show ?thesis
    proof (cases next1)
      case None
      with Some adv less.prems show ?thesis by (subst stats_log_loop.simps) simp
    next
      case next1: (Some n1)
      with s have far: "1024 \<le> int n1 - int cursor" by simp
      have at1: "at_comma json comma1 (Some n1)" using s next1 by simp
      then have n1: "n1 < comma1 + 1 + 1024" "n1 < length json" "comma1 + 1 \<le> n1"
        using assms(1) find_comma_Some [of json "comma1 + 1" n1] by (auto simp: at_comma_def short_fields_def)
      then have "comma1 + 1 > cursor" using far by linarith
      have len: "int comma1 - int cursor < 1024" using s less.prems(6) by auto
      let ?logged = "logged @ [take (comma1 + 1 - cursor) (drop cursor json)]"
      have l1: "concat ?logged = take (comma1 + 1) json"
        using less.prems(4) take_drop_step [of cursor "comma1 + 1" json] \<open>comma1 + 1 > cursor\<close> by simp
      have l2: "\<forall>p \<in> set ?logged. length p \<le> 1024" using less.prems(5) len by auto
      have "length json - (comma1 + 1) < length json - cursor" using \<open>comma1 + 1 > cursor\<close> n1 by simp
      from less.hyps [OF this at1 _ _ l1 l2] n1 obtain cursor' logged' where
        "stats_log_loop json (comma1 + 1) comma1 (Some n1) ?logged = r_return (cursor', logged')"
        "concat logged' = take cursor' json" "\<forall>p \<in> set logged'. length p \<le> 1024" by auto
      with Some adv next1 far show ?thesis by (subst stats_log_loop.simps) auto
    qed
  qed
qed

text \<open>A field of 1024 bytes or more stops the progress: the cursor stays behind the last comma before it.\<close>

lemma stats_log_loop_stuck:
  assumes "stats_log_loop json cursor comma next_comma logged = Some r"
  shows "find_comma json i = Some j \<Longrightarrow> field_start json i \<Longrightarrow> i + 1024 \<le> j \<Longrightarrow>
    at_comma json comma next_comma \<Longrightarrow> comma + 1 \<le> i \<Longrightarrow> cursor \<le> i \<Longrightarrow> False"
proof (induction rule: stats_log_loop.raw_induct [OF _ assms])
  case (1 f json cursor comma next_comma logged r)
  note gap = find_comma_Some [OF 1(3)]
  have some: "find_comma json (c + 1) \<noteq> None" if "c + 1 \<le> i" for c
    using find_comma_None [of json "c + 1" j] gap(1-3) that by auto
  obtain n where n: "next_comma = Some n" using some [of comma] 1(6,7) by (auto simp: at_comma_def)
  obtain comma1 next1 where adv: "advance_comma json cursor comma next_comma = (comma1, next1)" by fastforce
  note s = advance_comma_spec [OF adv 1(6)]
  have c1: "comma1 + 1 \<le> i"
  proof (rule ccontr)
    assume "\<not> comma1 + 1 \<le> i"
    then have big: "i \<le> comma1" by simp
    moreover have "1 \<le> i" using 1(4) by (auto simp: field_start_def)
    ultimately have "json ! comma1 = CHR '',''" using s by (auto simp: at_comma_def field_start_def)
    then have "j \<le> comma1" using gap(4) [OF big] by (metis not_le)
    with s 1(5,7,8) big show False by auto
  qed
  then obtain n1 where n1: "next1 = Some n1" using some [of comma1] s by (auto simp: at_comma_def)
  with s have "1024 \<le> int n1 - int cursor" by simp
  with 1(2) n adv n1 have "f json (comma1 + 1) comma1 (Some n1) (logged @ [take (comma1 + 1 - cursor) (drop cursor json)]) = Some r"
    by (auto split: if_splits)
  from 1(1) [OF this 1(3-5)] s n1 c1 show ?case by simp
qed

section \<open>Properties\<close>

text \<open>Statistics whose fields are shorter than 1024 bytes are logged completely: the callback returns, the
  lines put together are the text, none but the last is longer than 1024 bytes, and librdkafka is asked to
  free the text.\<close>

lemma stats_log_complete:
  assumes "json \<noteq> []" and "short_fields json"
  shows "\<exists>lines rest. rdkafka_stats_rdlog_cb json (length json) =
      r_return (PLEASE_FREE_LIBRDKAFKA, \<lparr>so_produced = [], so_logged = lines @ [rest]\<rparr>) \<and>
    concat (lines @ [rest]) = json \<and> (\<forall>l \<in> set lines. length l \<le> 1024)"
proof -
  let ?next = "find_comma json 1"
  have "\<exists>cursor lines. stats_log_loop json 0 0 (Some 0) [] = r_return (cursor, lines) \<and> concat lines = take cursor json \<and>
      (\<forall>l \<in> set lines. length l \<le> 1024)"
  proof -
    have at: "at_comma json 0 ?next" by (simp add: at_comma_def field_start_def)
    have adv: "advance_comma json 0 0 (Some 0) = advance_comma json 0 0 ?next"
      by (subst advance_comma.simps) simp
    have "stats_log_loop json 0 0 (Some 0) [] = stats_log_loop json 0 0 ?next []"
      by (subst (1 2) stats_log_loop.simps, subst adv) (simp add: advance_comma.simps [of json 0 0 None] split: option.splits)
    with stats_log_loop_returns [OF assms(2) at, of 0 "[]"] assms(1) show ?thesis by (auto simp: Suc_le_eq)
  qed
  then obtain cursor lines where "stats_log_loop json 0 0 (Some 0) [] = r_return (cursor, lines)" "concat lines = take cursor json"
    "\<forall>l \<in> set lines. length l \<le> 1024" by blast
  with assms(1) show ?thesis
    by (intro exI [of _ lines] exI [of _ "drop cursor json"]) (simp add: rdkafka_stats_rdlog_cb_def)
qed

text \<open>Statistics with a field of 1024 bytes or more, in front of another one, are never logged to the end:
  the callback runs forever.\<close>

lemma stats_log_hangs:
  assumes "field_start json i" and "find_comma json i = Some j" and "i + 1024 \<le> j"
  shows "rdkafka_stats_rdlog_cb json (length json) = None"
proof -
  have i: "1 \<le> i" using assms(1) by (auto simp: field_start_def)
  have adv: "advance_comma json 0 0 (Some 0) = advance_comma json 0 0 (find_comma json 1)"
    by (subst advance_comma.simps) simp
  have eq: "stats_log_loop json 0 0 (Some 0) [] = stats_log_loop json 0 0 (find_comma json 1) []"
    by (subst (1 2) stats_log_loop.simps, subst adv) (simp add: advance_comma.simps [of json 0 0 None] split: option.splits)
  have "stats_log_loop json 0 0 (find_comma json 1) [] = None"
    using stats_log_loop_stuck [OF _ assms(2,1,3), of 0 0 "find_comma json 1" "[]"] i
    by (cases "stats_log_loop json 0 0 (find_comma json 1) []") (auto simp: at_comma_def field_start_def)
  moreover have "json \<noteq> []" using find_comma_Some(2) [OF assms(2)] by auto
  ultimately show ?thesis using eq by (simp add: rdkafka_stats_rdlog_cb_def)
qed
lemma enrich_members:
  assumes "json = text0 @ ''}''" and "append_buf stats = Some (extra @ [NUL])" and "append_size stats = length extra + 1"
    and "al_ok al (of_nat (length json + length extra + 1))" and "length json + length extra + 1 < 2 ^ 64"
  shows "rdkafka_stats_enrich_decorator_cb al produce_ok stats json (length json) =
    r_bind (stats_child produce_ok stats (text0 @ '','' @ extra @ ''}'') (length (text0 @ '','' @ extra @ ''}'')))
      (\<lambda>(child_rc, out). if child_rc = PLEASE_FREE_LIBRDKAFKA then r_return (I_WILL_FREE_LIBRDKAFKA, out, True)
         else r_return (child_rc, out, False))"
proof -
  let ?n = "length json + (length extra + 1)"
  have n: "unat (of_nat ?n :: size_t) = ?n" using assms(5) unat_of_nat_fits [of ?n] by simp
  obtain junk where new: "realloc al (Some json) (of_nat ?n) = Some (json @ junk)" "length junk = length extra + 1"
    using assms(4) n by (auto simp: realloc_def)
  have j1: "(json @ junk)[length json - 1 := CHR '',''] = (text0 @ '','') @ junk" using assms(1) by simp
  have len: "length (text0 @ '','') = length json" using assms(1) by simp
  have j2: "memcpy_at ((text0 @ '','') @ junk) (length json) (extra @ [NUL]) = (text0 @ '','' @ extra) @ [NUL]"
    unfolding memcpy_at_def len [symmetric] using new(2) by simp
  have j3: "((text0 @ '','' @ extra) @ [NUL])[?n - 1 := CHR ''}''] = text0 @ '','' @ extra @ ''}''"
    using assms(1) by (simp add: list_update_append)
  have lenf: "length (text0 @ '','' @ extra @ ''}'') = ?n" using assms(1) by simp
  have ne: "length json \<noteq> 0" using assms(1) by simp
  show ?thesis
    unfolding rdkafka_stats_enrich_decorator_cb_def Let_def assms(2,3) lenf
    using new ne j1 j2 j3 by simp
qed

text \<open>Without memory the old text goes on with the new length, behind its end.\<close>

lemma stats_enrich_oom:
  assumes "\<not> al_ok al (of_nat (length json + append_size stats))" and "0 < append_size stats"
    and "n2k_stats_cb stats = Stats_rdlog_cb \<or> stats_topic stats \<noteq> None"
  shows "rdkafka_stats_enrich_decorator_cb al produce_ok stats json (length json) = Some (Inl OutOfBounds)"
  using assms by (cases "n2k_stats_cb stats")
    (auto simp: rdkafka_stats_enrich_decorator_cb_def realloc_def stats_child_def rdkafka_stats_topic_cb_def rdkafka_stats_rdlog_cb_def)

text \<open>C27: after a batch was handed over, the delivery reports of its accepted messages, in any order, free it:
  none of them touches it after it was freed, and after all of them it is.\<close>

theorem deliveries_free_batch:
  assumes "kma_ok array" and "kma_internal array = Some k" and "payload_buffer k \<noteq> 0"
    and "produce_batch_ok produce_batch" and "produce_batch (owned_by a (msgs k)) flags = (rc, ms')" and "warnings_safe st ms'"
    and "a \<noteq> 0" and "mset reports = mset (filter (\<lambda>m. rkm_err m = RD_KAFKA_RESP_ERR_NO_ERROR) ms')"
  shows "\<exists>res c. kafka_message_array_produce produce_batch now a array flags st = Inr res \<and> pres_karray res = Some c \<and>
    deliver_all reports (B(a \<mapsto> c)) = Inr (B(a \<mapsto> Freed))"
proof -
  let ?acc = "filter (\<lambda>m. rkm_err m = RD_KAFKA_RESP_ERR_NO_ERROR) ms'"
  obtain res where res: "kafka_message_array_produce produce_batch now a array flags st = Inr res"
    "pres_karray res = Some (with_refs (k\<lparr>msgs := ms'\<rparr>) (length ?acc))"
    using produce_stolen [OF assms(1-6), of now] by fastforce
  have len: "length reports = length ?acc" using assms(8) by (metis size_mset)
  have set: "set reports = set ?acc" using assms(8) by (metis set_mset_mset)
  have "map rkm_private ms' = replicate (length (msgs k)) a"
    using produce_batch_okD(3) [OF assms(4,5)] by (simp add: comp_def map_replicate_const)
  then have priv: "\<forall>m \<in> set reports. rkm_private m = a" using set by (metis (no_types, lifting) filter_is_subset in_set_conv_nth
        length_map nth_map nth_replicate subset_code(1) length_replicate)
  have "length ?acc \<le> length ms'" by simp
  also have "\<dots> = length (msgs k)" using produce_batch_okD(1) [OF assms(4,5)] by simp
  also have "\<dots> < 2 ^ 63" using kma_ok_SomeD(7) [OF assms(1,2)] by simp
  finally have "deliver_all reports (B(a \<mapsto> with_refs (k\<lparr>msgs := ms'\<rparr>) (length ?acc))) =
      Inr ((B(a \<mapsto> with_refs (k\<lparr>msgs := ms'\<rparr>) (length ?acc)))(a \<mapsto> with_refs (k\<lparr>msgs := ms'\<rparr>) 0))"
    using len priv assms(7) by (intro deliver_all_refs) auto
  with res show ?thesis by (simp add: with_refs_def fun_eq_iff)
qed

lemma wait_zero_returns: "busy (n + d) = 0 \<Longrightarrow> wait_zero busy n \<noteq> None"
proof (induction d arbitrary: n)
  case 0
  then show ?case by (subst wait_zero.simps) simp
next
  case (Suc d)
  then have "wait_zero busy (n + 1) \<noteq> None" by simp
  then show ?case by (subst wait_zero.simps) simp
qed

lemma wait_zero_done:
  assumes "wait_zero busy n = Some k"
  shows "busy k = 0"
proof (induction rule: wait_zero.raw_induct [OF _ assms])
  case (1 f busy n k)
  then show ?case by (auto split: if_splits)
qed

lemma wait_zero_None: "wait_zero busy 0 = None \<longleftrightarrow> (\<forall>n. 0 < busy n)"
proof
  assume "wait_zero busy 0 = None"
  then show "\<forall>n. 0 < busy n" using wait_zero_returns [of busy 0] by auto
next
  assume "\<forall>n. 0 < busy n"
  then show "wait_zero busy 0 = None" using wait_zero_done [of busy 0] by (metis not_less_zero option.exhaust)
qed

text \<open>Stopping returns exactly if librdkafka gets rid of its outstanding messages and of its handles at some
  time, and then nothing is outstanding, no topic for statistics is left and the members to add are freed.\<close>

lemma stop_rdkafka_returns:
  "case stop_rdkafka outq undestroyed stats of
     None \<Rightarrow> (\<forall>n. 0 < outq n) \<or> (\<forall>n. 0 < undestroyed n)
   | Some (n, k, stats') \<Rightarrow> outq n = 0 \<and> undestroyed k = 0 \<and> stats_topic stats' = None \<and> append_buf stats' = None"
  using wait_zero_None [of outq] wait_zero_None [of undestroyed]
  by (auto simp: stop_rdkafka_def dest: wait_zero_done split: option.splits)

section \<open>Witnesses\<close>

theorem deliveries_free_batch_witness:
  "\<exists>res c. kafka_message_array_produce accept_batch (\<lambda>_. 0) 77 (test_array 1000) 0 None = Inr res \<and> pres_karray res = Some c \<and>
    deliver_all (rev (owned_by 77 (msgs (test_karray 1000)))) ((\<lambda>_. None)(77 \<mapsto> c)) = Inr ((\<lambda>_. None)(77 \<mapsto> Freed))"
proof -
  let ?k = "test_karray 1000"
  have run: "accept_batch (owned_by 77 (msgs ?k)) 0 = (2, owned_by 77 (msgs ?k))" by (simp add: accept_batch_def)
  have acc: "mset (rev (owned_by 77 (msgs ?k))) = mset (filter (\<lambda>m. rkm_err m = RD_KAFKA_RESP_ERR_NO_ERROR) (owned_by 77 (msgs ?k)))"
    by simp
  from deliveries_free_batch [OF test_array_ok [of 1000] _ _ refuse_batch_ok(2) run _ _ acc, where st = None and now = "\<lambda>_. 0" and B = "\<lambda>_. None"]
  show ?thesis by (simp add: warnings_safe_def)
qed

end
