(* ===== verification/Dumb_Decoder.thy ===== *)
theory Dumb_Decoder
  imports Http_Request Kafka_Client
begin

text \<open>
  The decoder without sessions (\<^verbatim>\<open>src/decoder/dumb/dumb.c\<close>): every call is one message on the topic of the
  configuration. Behind the HTTP listener it is called once, at the end of the request, with the whole
  body. librdkafka is a parameter.
\<close>

section \<open>The decoder\<close>

text \<open>What the decoder does to librdkafka: the topic handles that are open and the messages that were accepted.\<close>

record dumb_world =
  dw_open_topics :: "rkt list"
  dw_produced :: "(rkt \<times> bytes) list"

text \<open>librdkafka: the creation of a topic, the error of a message it is given, and the text of an error.\<close>

record dumb_rdkafka =
  du_topic_new :: "string option \<Rightarrow> rkt option"
  du_produce :: "rkt \<Rightarrow> bytes \<Rightarrow> rd_kafka_resp_err"
  du_err2str :: "rd_kafka_resp_err \<Rightarrow> string"

fun dumb_error_code :: "rd_kafka_resp_err \<Rightarrow> decoder_callback_err" where
  "dumb_error_code RD_KAFKA_RESP_ERR_NO_ERROR = DECODER_CALLBACK_OK"
| "dumb_error_code RD_KAFKA_RESP_ERR__QUEUE_FULL = DECODER_CALLBACK_BUFFER_FULL"
| "dumb_error_code RD_KAFKA_RESP_ERR_MSG_SIZE_TOO_LARGE = DECODER_CALLBACK_UNKNOWN_TOPIC"
| "dumb_error_code RD_KAFKA_RESP_ERR__UNKNOWN_PARTITION = DECODER_CALLBACK_UNKNOWN_PARTITION"
| "dumb_error_code RD_KAFKA_RESP_ERR__UNKNOWN_TOPIC = DECODER_CALLBACK_MSG_TOO_LARGE"
| "dumb_error_code (RD_KAFKA_RESP_ERR_other _) = DECODER_CALLBACK_GENERIC_ERROR"

text \<open>Writing the response needs a place for it.\<close>

definition set_response :: "string \<Rightarrow> decoder_response option \<Rightarrow> decoder_response option c_run" where
  "set_response str response = (if response = None then Some (Inl NullDeref) else r_return (Some (Some str, length str)))"

definition dumb_decode ::
  "dumb_rdkafka \<Rightarrow> string option \<Rightarrow> bytes \<Rightarrow> keyval_list \<Rightarrow> unit \<Rightarrow> unit option \<Rightarrow> decoder_response option \<Rightarrow> dumb_world
   \<Rightarrow> (decoder_callback_err \<times> decoder_response option \<times> unit option \<times> dumb_world) c_run" where
  "dumb_decode R default_topic_name buffer keyval listener_callback_opaque sessionp response w =
     (case new_rkt_global_config (du_topic_new R) default_topic_name of
        None \<Rightarrow>
          r_bind (set_response ''No topic specified in config file'' response) (\<lambda>response1.
            r_return (DECODER_CALLBACK_UNKNOWN_TOPIC, response1, sessionp, w))
      | Some rkt \<Rightarrow>
          let w1 = w\<lparr>dw_open_topics := rkt # dw_open_topics w\<rparr>;
              kafka_error_code = du_produce R rkt buffer
          in r_bind (if kafka_error_code \<noteq> RD_KAFKA_RESP_ERR_NO_ERROR
                     then r_bind (set_response (du_err2str R kafka_error_code) response) (\<lambda>response1. r_return (response1, w1))
                     else r_return (response, w1\<lparr>dw_produced := dw_produced w1 @ [(rkt, buffer)]\<rparr>))
               (\<lambda>(response1, w2).
                  r_return (dumb_error_code kafka_error_code, response1, sessionp,
                            w2\<lparr>dw_open_topics := remove1 rkt (dw_open_topics w2)\<rparr>)))"

definition dumb_decoder :: "dumb_rdkafka \<Rightarrow> string option \<Rightarrow> (dumb_world, 'j, unit, unit) n2k_decoder" where
  "dumb_decoder R default_topic_name = \<lparr>dec_name = [], dec_callback = dumb_decode R default_topic_name,
     dec_init = None, dec_reload = None, dec_done = None, dec_opaque_creator = None, dec_opaque_reload = None,
     dec_opaque_destructor = None, dec_new_session = None, dec_delete_session = None, dec_session_size = None\<rparr>"

section \<open>Requests to a decoder without sessions\<close>

text \<open>The listener collects the body.\<close>

lemma post_body_buffers:
  assumes "dec_new_session (li_decoder (hl_listener hl)) = None" and "\<And>k. al_ok (env_al env) k"
  shows "\<forall>c \<in> set cs. c \<noteq> [] \<Longrightarrow> hs_ptr st = Cls_conn ci \<Longrightarrow> ci_error_code ci = 0 \<Longrightarrow> string_ok (ci_str ci) \<Longrightarrow>
    unat (str_size (ci_str ci)) + length (concat cs) \<le> 2 ^ 31 \<Longrightarrow>
    \<exists>str. post_body env hl con url cs st = r_return (st\<lparr>hs_ptr := Cls_conn (ci\<lparr>ci_str := str\<rparr>)\<rparr>) \<and>
      string_bytes str = string_bytes (ci_str ci) @ concat cs"
proof (induction cs arbitrary: st ci)
  case Nil
  then show ?case by (intro exI [of _ "ci_str ci"]) (cases st, cases ci, simp)
next
  case (Cons c cs)
  have fits: "string_fits (ci_str ci) (length c)" using Cons.prems(5) by (simp add: string_fits_def)
  obtain str where app: "string_append (env_al env) (ci_str ci) c = (0, str)"
    using string_append_granted [OF Cons.prems(4) fits assms(2)] by (metis prod.collapse)
  from string_append_spec [OF Cons.prems(4) fits app] have str: "string_ok str" "string_bytes str = string_bytes (ci_str ci) @ c"
    "str_size str = str_size (ci_str ci) + of_nat (length c)" by simp_all
  have n: "unat (str_size str) = unat (str_size (ci_str ci)) + length c"
    unfolding str(3) using Cons.prems(5) by (intro unat_plus_of_nat) simp
  let ?st = "st\<lparr>hs_ptr := Cls_conn (ci\<lparr>ci_str := str\<rparr>)\<rparr>"
  have step: "handle_request env hl con url ''POST'' c st = r_return (True, ?st)"
    using Cons.prems(1-3) assms(1) app
    by (cases st) (simp add: handle_request_def strcmp0_def handle_post_def handle_http_post_chunk_def conn_info_has_queue_response_def)
  from Cons.IH [of ?st "ci\<lparr>ci_str := str\<rparr>"] Cons.prems(1,3,5) str(1,2) n step show ?case by auto
qed

lemma fresh_string_ok: "string_ok N2K_STRING_INITIALIZER" "str_size N2K_STRING_INITIALIZER = 0" "string_bytes N2K_STRING_INITIALIZER = []"
  by (simp_all add: string_ok_def N2K_STRING_INITIALIZER_def string_bytes_def)

text \<open>The request up to its end: the whole body is in the buffer.\<close>

lemma buffered_post_run:
  fixes env :: "'z http_env" and hl :: "('w, 'j, 'o, 's) http_listener"
  assumes "request_admitted env hl con" and "client_addr env con = Some client" and "env_conn_calloc_ok env"
    and "dec_new_session (li_decoder (hl_listener hl)) = None" and "\<And>k. al_ok (env_al env) k"
    and "\<forall>c \<in> set cs. c \<noteq> []" and "length (concat cs) \<le> 2 ^ 31"
  obtains ci :: "('z, 's) conn_info" where "ci_error_code ci = 0" "ci_decoder_params ci = request_props con ''POST'' url (Some client)"
    "string_bytes (ci_str ci) = concat cs"
    "post_request env hl con url cs w =
       r_bind (handle_post_end env hl con ci \<lparr>hs_ptr = Cls_conn ci, hs_replies = [], hs_world = w\<rparr>) (\<lambda>(_, st2). request_completed hl st2)"
proof -
  obtain ci :: "('z, 's) conn_info" and e
    where ci: "create_connection_info env con ''POST'' url (Some client) = (Some ci, e)"
      "ci_decoder_params ci = request_props con ''POST'' url (Some client)" "ci_error_code ci = 0" "ci_str ci = N2K_STRING_INITIALIZER"
    using create_connection_info_spec [OF assms(3), of con "''POST''" url "Some client"] by metis
  let ?start = "\<lparr>hs_ptr = Cls_null, hs_replies = [], hs_world = w\<rparr>" and ?st = "\<lparr>hs_ptr = Cls_conn ci, hs_replies = [], hs_world = w\<rparr>"
  have open0: "handle_request env hl con url ''POST'' [] ?start = r_return (True, ?st)"
    using ci assms(4)
    by (simp add: handle_http_post_init_admitted [OF assms(1,2)] handle_request_def strcmp0_def handle_post_def open_connection_def)
  have "string_ok (ci_str ci)" "unat (str_size (ci_str ci)) + length (concat cs) \<le> 2 ^ 31"
    using ci(4) fresh_string_ok assms(7) by simp_all
  from post_body_buffers [OF assms(4,5,6) _ ci(3) this, where st = ?st and con = con and url = url]
  obtain str where str: "post_body env hl con url cs ?st = r_return (?st\<lparr>hs_ptr := Cls_conn (ci\<lparr>ci_str := str\<rparr>)\<rparr>)"
    "string_bytes str = concat cs" using ci(4) fresh_string_ok(3) by auto
  show thesis
    by (rule that [of "ci\<lparr>ci_str := str\<rparr>"])
      (use ci open0 str in \<open>simp_all add: post_request_def handle_request_def strcmp0_def handle_post_def\<close>)
qed

section \<open>Properties\<close>

text \<open>A POST request to a listener with this decoder whose body librdkafka accepts is answered with exactly
  one 200 and becomes one message with the whole body, in one piece whatever its chunks, on the topic of the
  configuration; the topic handle opened for it is released.\<close>

lemma dumb_post_request:
  fixes env :: "'z http_env" and hl :: "(dumb_world, 'j, unit, unit) http_listener"
  assumes "request_admitted env hl con" and "client_addr env con = Some client" and "env_conn_calloc_ok env"
    and "mhd_queue_ok con = (\<lambda>_. True)" and "env_responses env = shared_responses n" and "\<And>k. al_ok (env_al env) k"
    and "li_decoder (hl_listener hl) = dumb_decoder R topic" and "du_topic_new R topic = Some rkt"
    and "du_produce R rkt (concat cs) = RD_KAFKA_RESP_ERR_NO_ERROR"
    and "\<forall>c \<in> set cs. c \<noteq> []" and "length (concat cs) \<le> 2 ^ 31"
  shows "post_request env hl con url cs w =
    r_return \<lparr>hs_ptr = Cls_null, hs_replies = [accepted_reply], hs_world = w\<lparr>dw_produced := dw_produced w @ [(rkt, concat cs)]\<rparr>\<rparr>"
proof -
  have none: "dec_new_session (li_decoder (hl_listener hl)) = None" "dec_delete_session (li_decoder (hl_listener hl)) = None"
    using assms(7) by (simp_all add: dumb_decoder_def)
  obtain ci :: "('z, unit) conn_info" where ci: "ci_error_code ci = 0" "string_bytes (ci_str ci) = concat cs"
    "post_request env hl con url cs w =
       r_bind (handle_post_end env hl con ci \<lparr>hs_ptr = Cls_conn ci, hs_replies = [], hs_world = w\<rparr>) (\<lambda>(_, st2). request_completed hl st2)"
    by (rule buffered_post_run [OF assms(1-3) none(1) assms(6,10,11)]) (rule that; assumption)
  have "listener_decode (hl_listener hl) (concat cs) (ci_decoder_params ci) None None w =
      r_return (DECODER_CALLBACK_OK, None, None, w\<lparr>dw_produced := dw_produced w @ [(rkt, concat cs)]\<rparr>)"
    using assms(7-9) by (simp add: listener_decode_def dumb_decoder_def dumb_decode_def new_rkt_global_config_def)
  with ci none assms(4,5) show ?thesis
    by (simp add: handle_post_end_def request_completed_def send_http_ok_def MHD_queue_response_def shared_responses_def
        accepted_reply_def mhd_replies.truncate_def http_codes)
qed

text \<open>C33: a POST request to a listener with this decoder whose body librdkafka refuses, or for which there is no
  topic, ends the process: the listener gives the decoder no place for the response and the decoder writes
  one all the same.\<close>

theorem dumb_refused_post_faults:
  fixes env :: "'z http_env" and hl :: "(dumb_world, 'j, unit, unit) http_listener"
  assumes "request_admitted env hl con" and "client_addr env con = Some client" and "env_conn_calloc_ok env"
    and "\<And>k. al_ok (env_al env) k" and "li_decoder (hl_listener hl) = dumb_decoder R topic"
    and "case du_topic_new R topic of None \<Rightarrow> True | Some rkt \<Rightarrow> du_produce R rkt (concat cs) \<noteq> RD_KAFKA_RESP_ERR_NO_ERROR"
    and "\<forall>c \<in> set cs. c \<noteq> []" and "length (concat cs) \<le> 2 ^ 31"
  shows "post_request env hl con url cs w = Some (Inl NullDeref)"
proof -
  have none: "dec_new_session (li_decoder (hl_listener hl)) = None" using assms(5) by (simp add: dumb_decoder_def)
  obtain ci :: "('z, unit) conn_info" where ci: "ci_error_code ci = 0" "string_bytes (ci_str ci) = concat cs"
    "post_request env hl con url cs w =
       r_bind (handle_post_end env hl con ci \<lparr>hs_ptr = Cls_conn ci, hs_replies = [], hs_world = w\<rparr>) (\<lambda>(_, st2). request_completed hl st2)"
    by (rule buffered_post_run [OF assms(1-3) none assms(4,7,8)]) (rule that; assumption)
  have "listener_decode (hl_listener hl) (concat cs) (ci_decoder_params ci) None None w = Some (Inl NullDeref)"
    using assms(5,6)
    by (auto simp: listener_decode_def dumb_decoder_def dumb_decode_def new_rkt_global_config_def set_response_def split: option.splits)
  with ci none show ?thesis by (simp add: handle_post_end_def)
qed

text \<open>
  A message that is too large is reported as an unknown topic, and an unknown topic as a message that is
  too large.
\<close>

lemma dumb_swapped_errors:
  "decoder_err2http (dumb_error_code RD_KAFKA_RESP_ERR_MSG_SIZE_TOO_LARGE) = 400"
  "decoder_err2http (dumb_error_code RD_KAFKA_RESP_ERR__UNKNOWN_TOPIC) = 413"
  by (simp_all add: http_codes)

section \<open>Witnesses\<close>

definition demo_dumb :: "bool \<Rightarrow> dumb_rdkafka" where
  "demo_dumb ok = \<lparr>du_topic_new = (\<lambda>t. map_option length t),
     du_produce = (\<lambda>_ _. if ok then RD_KAFKA_RESP_ERR_NO_ERROR else RD_KAFKA_RESP_ERR__QUEUE_FULL), du_err2str = (\<lambda>_. ''full'')\<rparr>"

definition demo_dumb_listener :: "bool \<Rightarrow> (dumb_world, unit, unit, unit) http_listener" where
  "demo_dumb_listener ok = \<lparr>hl_listener = \<lparr>li_decoder = dumb_decoder (demo_dumb ok) (Some ''t''), li_decoder_opaque = (), li_port = 80\<rparr>,
     hl_htpasswd = None, hl_client_tls_cert = False\<rparr>"

lemma demo_dumb_admitted: "request_admitted log_env (demo_dumb_listener ok) plain_con" "al_ok (env_al log_env) k"
  using plain_con_ok(2) by (simp_all add: request_admitted_def demo_dumb_listener_def) (simp add: log_env_def)

theorem dumb_refused_post_faults_witness:
  "post_request log_env (demo_dumb_listener False) plain_con ''/x'' [''ab'', ''c''] \<lparr>dw_open_topics = [], dw_produced = []\<rparr> =
     Some (Inl NullDeref)"
  using dumb_refused_post_faults [OF demo_dumb_admitted(1) plain_con_ok(2,3) demo_dumb_admitted(2), of False "demo_dumb False" "Some ''t''"
      "[''ab'', ''c'']" "''/x''" "\<lparr>dw_open_topics = [], dw_produced = []\<rparr>"]
  by (simp add: demo_dumb_listener_def demo_dumb_def)

end
