(* ===== verification/Jansson.thy ===== *)
theory Jansson
  imports Prelude
begin

text \<open>
  The JSON library the configuration is read with. It is a parameter of the model: configurations are
  values of a type \<open>'j\<close>, and a record has the functions the code calls on them.
\<close>

section \<open>Unpacking\<close>

text \<open>
  An item of a format of \<^verbatim>\<open>json_unpack_ex\<close>: the kind of value, the key, and whether it may be missing. The
  call tells whether it succeeded and what it set each argument to; an argument that it left alone is \<open>None\<close>.
\<close>

datatype unpack_item =
    Unpack_i string bool
  | Unpack_s string bool
  | Unpack_b string bool
  | Unpack_o string bool

datatype 'j unpacked = U_int int | U_string string | U_bool bool | U_json 'j

record 'j jansson =
  json_object_get :: "'j \<Rightarrow> string \<Rightarrow> 'j option"
  json_string :: "'j \<Rightarrow> bytes option"
  json_is_object :: "'j \<Rightarrow> bool"
  json_members :: "'j \<Rightarrow> (string \<times> 'j) list"
  json_elements :: "'j \<Rightarrow> 'j list"
  json_loads :: "string \<Rightarrow> 'j option"
  json_dumps :: "'j \<Rightarrow> string option"
  json_unpack_ex :: "'j \<Rightarrow> unpack_item list \<Rightarrow> bool \<times> 'j unpacked option list"

text \<open>What a variable holds after a call: the value, if the call set it to one of its type, and the old value otherwise.\<close>

fun set_int :: "'j unpacked option \<Rightarrow> int \<Rightarrow> int" where
  "set_int (Some (U_int i)) old = i"
| "set_int _ old = old"

fun set_string :: "'j unpacked option \<Rightarrow> string option \<Rightarrow> string option" where
  "set_string (Some (U_string s)) old = Some s"
| "set_string _ old = old"

fun set_bool :: "'j unpacked option \<Rightarrow> bool \<Rightarrow> bool" where
  "set_bool (Some (U_bool b)) old = b"
| "set_bool _ old = old"

fun set_json :: "'j unpacked option \<Rightarrow> 'j option \<Rightarrow> 'j option" where
  "set_json (Some (U_json j)) old = Some j"
| "set_json _ old = old"

lemma set_string_default [simp]: "set_string u (Some s) \<noteq> None"
  by (cases "(u, Some s)" rule: set_string.cases) auto

text \<open>The argument at a position of the format.\<close>

definition unpacked_at :: "'j unpacked option list \<Rightarrow> nat \<Rightarrow> 'j unpacked option" where
  "unpacked_at us i = (if i < length us then us ! i else None)"

section \<open>A library for examples\<close>

text \<open>JSON values as data, and the functions on them as the manual describes them.\<close>

datatype json = J_other | J_bool bool | J_int int | J_str string | J_arr "json list" | J_obj "(string \<times> json) list"

fun j_get :: "json \<Rightarrow> string \<Rightarrow> json option" where
  "j_get (J_obj ms) key = map_of ms key"
| "j_get _ key = None"

fun j_string :: "json \<Rightarrow> bytes option" where
  "j_string (J_str s) = Some s"
| "j_string _ = None"

fun j_members :: "json \<Rightarrow> (string \<times> json) list" where
  "j_members (J_obj ms) = ms"
| "j_members _ = []"

fun j_elements :: "json \<Rightarrow> json list" where
  "j_elements (J_arr js) = js"
| "j_elements _ = []"

fun j_is_object :: "json \<Rightarrow> bool" where
  "j_is_object (J_obj _) = True"
| "j_is_object _ = False"

fun j_unpack_item :: "json \<Rightarrow> unpack_item \<Rightarrow> bool \<times> json unpacked option" where
  "j_unpack_item j (Unpack_i key optional) =
     (case j_get j key of None \<Rightarrow> (optional, None) | Some (J_int i) \<Rightarrow> (True, Some (U_int i)) | Some _ \<Rightarrow> (False, None))"
| "j_unpack_item j (Unpack_s key optional) =
     (case j_get j key of None \<Rightarrow> (optional, None) | Some (J_str s) \<Rightarrow> (True, Some (U_string s)) | Some _ \<Rightarrow> (False, None))"
| "j_unpack_item j (Unpack_b key optional) =
     (case j_get j key of None \<Rightarrow> (optional, None) | Some (J_bool b) \<Rightarrow> (True, Some (U_bool b)) | Some _ \<Rightarrow> (False, None))"
| "j_unpack_item j (Unpack_o key optional) =
     (case j_get j key of None \<Rightarrow> (optional, None) | Some v \<Rightarrow> (True, Some (U_json v)))"

text \<open>Items are unpacked in order, up to the first that fails.\<close>

fun j_unpack :: "json \<Rightarrow> unpack_item list \<Rightarrow> bool \<times> json unpacked option list" where
  "j_unpack j [] = (j_is_object j, [])"
| "j_unpack j (item # items) =
     (case j_unpack_item j item of
        (True, u) \<Rightarrow> (case j_unpack j items of (ok, us) \<Rightarrow> (ok, u # us))
      | (False, u) \<Rightarrow> (False, []))"

definition json_values :: "(string \<Rightarrow> json option) \<Rightarrow> json jansson" where
  "json_values loads = \<lparr>json_object_get = j_get, json_string = j_string, json_is_object = j_is_object, json_members = j_members,
     json_elements = j_elements, json_loads = loads, json_dumps = (\<lambda>_. None), json_unpack_ex = j_unpack\<rparr>"

section \<open>What the users rely on\<close>

text \<open>
  A call that succeeds set every argument for an integer that may not be missing, to the value that the key
  has whatever else the format asks for.
\<close>

definition unpack_ok :: "'j jansson \<Rightarrow> bool" where
  "unpack_ok J \<longleftrightarrow> (\<forall>j items us k key. json_unpack_ex J j items = (True, us) \<longrightarrow> k < length items \<longrightarrow> items ! k = Unpack_i key False \<longrightarrow>
     (\<exists>i. unpacked_at us k = Some (U_int i) \<and> json_unpack_ex J j [Unpack_i key False] = (True, [Some (U_int i)])))"

lemma unpack_okD:
  assumes "unpack_ok J" and "json_unpack_ex J j items = (True, us)" and "k < length items" and "items ! k = Unpack_i key False"
  shows "\<exists>i. unpacked_at us k = Some (U_int i) \<and> json_unpack_ex J j [Unpack_i key False] = (True, [Some (U_int i)])"
  using assms unfolding unpack_ok_def by blast

text \<open>
  More of what the manual documents: a call that succeeds set every string that may not be missing, to the value
  that the key has whatever else the format asks for, and a text that is read as an object with members has an
  opening brace and a closing one behind it.
\<close>

definition jansson_ok :: "'j jansson \<Rightarrow> bool" where
  "jansson_ok J \<longleftrightarrow> unpack_ok J \<and>
     (\<forall>j items us k key. json_unpack_ex J j items = (True, us) \<longrightarrow> k < length items \<longrightarrow> items ! k = Unpack_s key False \<longrightarrow>
        (\<exists>s. unpacked_at us k = Some (U_string s) \<and> json_unpack_ex J j [Unpack_s key False] = (True, [Some (U_string s)]))) \<and>
     (\<forall>text j. json_loads J text = Some j \<longrightarrow> json_is_object J j \<longrightarrow> json_members J j \<noteq> [] \<longrightarrow>
        (\<exists>a b c. text = a @ CHR ''{'' # b @ CHR ''}'' # c))"

lemma jansson_ok_string:
  assumes "jansson_ok J" and "json_unpack_ex J j items = (True, us)" and "k < length items" and "items ! k = Unpack_s key False"
  shows "\<exists>s. unpacked_at us k = Some (U_string s) \<and> json_unpack_ex J j [Unpack_s key False] = (True, [Some (U_string s)])"
  using assms unfolding jansson_ok_def by blast

lemma j_unpack_object: "j_unpack j items = (True, us) \<Longrightarrow> j_is_object j"
  by (induction items arbitrary: us) (auto split: prod.splits bool.splits)

lemma j_unpack_mandatory:
  "j_unpack j items = (True, us) \<Longrightarrow> k < length items \<Longrightarrow> items ! k = item \<Longrightarrow>
   \<exists>u. j_unpack_item j item = (True, u) \<and> unpacked_at us k = u \<and> j_unpack j [item] = (True, [u])"
proof (induction items arbitrary: us k)
  case (Cons i items)
  from Cons.prems(1) obtain u us' where u: "j_unpack_item j i = (True, u)" "j_unpack j items = (True, us')" "us = u # us'"
    by (auto split: prod.splits bool.splits)
  show ?case
  proof (cases k)
    case 0
    with u j_unpack_object [OF u(2)] Cons.prems(3) show ?thesis by (simp add: unpacked_at_def)
  next
    case (Suc m)
    have "unpacked_at us k = unpacked_at us' m" using Suc u(3) by (simp add: unpacked_at_def)
    with Cons.IH [OF u(2), of m] Suc Cons.prems(2,3) show ?thesis by (simp del: j_unpack.simps)
  qed
qed simp

lemma json_values_unpack_ok: "unpack_ok (json_values loads)"
proof -
  have "\<exists>i. unpacked_at us k = Some (U_int i) \<and> j_unpack j [Unpack_i key False] = (True, [Some (U_int i)])"
    if "j_unpack j items = (True, us)" "k < length items" "items ! k = Unpack_i key False" for j items us k key
    using j_unpack_mandatory [OF that] by (auto simp del: j_unpack.simps split: option.splits json.splits dest!: sym [of _ "unpacked_at us k"])
  then show ?thesis by (simp add: unpack_ok_def json_values_def)
qed

lemma json_values_ok:
  assumes "\<And>str ms. loads str = Some (J_obj ms) \<Longrightarrow> ms \<noteq> [] \<Longrightarrow> \<exists>a b c. str = a @ CHR ''{'' # b @ CHR ''}'' # c"
  shows "jansson_ok (json_values loads)"
proof -
  have "\<exists>s. unpacked_at us k = Some (U_string s) \<and> j_unpack j [Unpack_s key False] = (True, [Some (U_string s)])"
    if "j_unpack j items = (True, us)" "k < length items" "items ! k = Unpack_s key False" for j items us k key
    using j_unpack_mandatory [OF that] by (auto simp del: j_unpack.simps split: option.splits json.splits dest!: sym [of _ "unpacked_at us k"])
  moreover have "\<exists>a b c. str = a @ CHR ''{'' # b @ CHR ''}'' # c" if "loads str = Some j" "j_is_object j" "j_members j \<noteq> []" for str j
    using assms [of str] that by (cases j) auto
  ultimately show ?thesis using json_values_unpack_ok [of loads] by (simp add: jansson_ok_def json_values_def)
qed

end
