(* ===== verification/Socket.thy ===== *)
theory Socket
  imports Dumb_Decoder In_Addr_List Jansson
begin

text \<open>
  The TCP and UDP listeners (\<^verbatim>\<open>src/listener/socket/socket.c\<close>): the connections a TCP listener accepts and
  distributes to its workers, what a worker does when a connection is readable, the rounds of a UDP
  thread, and creating and joining a listener. The sockets, the event loops and the threads are
  parameters: what the system calls answer is an argument.
\<close>

section \<open>Options\<close>

datatype thread_mode = MODE_THREAD_PER_CONNECTION | MODE_SELECT | MODE_POLL | MODE_EPOLL | MODE_INVALID

definition thread_mode_str :: "string option \<Rightarrow> thread_mode" where
  "thread_mode_str mode_str =
     (case mode_str of
        None \<Rightarrow> MODE_THREAD_PER_CONNECTION
      | Some m \<Rightarrow>
          if strcmp0 ''thread_per_connection'' m then MODE_THREAD_PER_CONNECTION
          else if strcmp0 ''select'' m then MODE_SELECT
          else if strcmp0 ''poll'' m then MODE_POLL
          else if strcmp0 ''epoll'' m then MODE_EPOLL
          else MODE_INVALID)"

definition MAX_NUM_THREADS :: nat where
  "MAX_NUM_THREADS = 256"

definition READ_BUFFER_SIZE :: nat where
  "READ_BUFFER_SIZE = 4096"

text \<open>What socket (a descriptor, or -1), bind and listen answer.\<close>

definition createListenSocket :: "int \<Rightarrow> bool \<Rightarrow> bool \<Rightarrow> string option \<Rightarrow> int" where
  "createListenSocket socket_fd bind_ok listen_ok proto =
     (case proto of
        None \<Rightarrow> 0
      | Some p \<Rightarrow>
          if \<not> strcmp0 ''udp'' p \<and> \<not> strcmp0 ''tcp'' p then 0
          else if socket_fd = -1 then 0
          else if \<not> bind_ok then -1
          else if strcmp0 ''tcp'' p \<and> \<not> listen_ok then -1
          else socket_fd)"

section \<open>Data\<close>

datatype recv_result = Recv_data bytes | Recv_again | Recv_error | Recv_closed

text \<open>Of what there is, recvfrom takes what the buffer holds: the rest of a stream is left, that of a datagram lost.\<close>

fun receive_from_socket :: "recv_result \<Rightarrow> recv_result" where
  "receive_from_socket (Recv_data d) = Recv_data (take READ_BUFFER_SIZE d)"
| "receive_from_socket r = r"

definition process_data_received_from_socket ::
  "bytes \<Rightarrow> string option \<Rightarrow> ('w, 'j, 'o, 's) listener \<Rightarrow> 'w \<Rightarrow> 'w c_run" where
  "process_data_received_from_socket buffer client l w =
     r_bind (listener_decode l buffer (add_key_value_pair keyval_list_init \<lparr>pair_key = ''client_ip'', pair_value = client\<rparr>) None None w)
       (\<lambda>(rc, response, sess, w1). r_return w1)"

text \<open>The answers of select and write; what was written is what write says.\<close>

definition send_to_socket :: "int \<Rightarrow> int \<Rightarrow> bytes \<Rightarrow> int \<times> bytes" where
  "send_to_socket select_result write_result data =
     (if select_result > 0 then (write_result, take (nat write_result) data) else (select_result, []))"

section \<open>TCP connections\<close>

record connection_private =
  cp_first_response_sent :: bool
  cp_client :: string

text \<open>
  A connection: its watcher with the private data behind it, the peer of its descriptor and whether that is
  open, what was sent on it, and the buffers that were allocated for it and not freed.
\<close>

record tcp_connection =
  tc_watcher :: "connection_private cell"
  tc_peer :: in_addr
  tc_fd_open :: bool
  tc_sent :: bytes
  tc_buffers :: nat

definition close_socket_and_stop_watcher :: "tcp_connection \<Rightarrow> tcp_connection" where
  "close_socket_and_stop_watcher c = c\<lparr>tc_watcher := Freed, tc_fd_open := False\<rparr>"

definition set_first_response_sent :: "tcp_connection \<Rightarrow> tcp_connection c_result" where
  "set_first_response_sent c =
     (case tc_watcher c of
        Freed \<Rightarrow> Inl UseAfterFree
      | Live p \<Rightarrow> Inr (c\<lparr>tc_watcher := Live (p\<lparr>cp_first_response_sent := True\<rparr>)\<rparr>))"

text \<open>The first response. One byte less than the response has is sent.\<close>

definition send_first_response :: "bytes \<Rightarrow> int \<Rightarrow> int \<Rightarrow> tcp_connection \<Rightarrow> tcp_connection c_result" where
  "send_first_response response select_result write_result c =
     c_bind (if length response = 0 then c_bind (set_first_response_sent c) (\<lambda>c1. Inr (1, c1))
             else let (send_ret, out) = send_to_socket select_result write_result (take (length response - 1) response)
                  in Inr (send_ret, c\<lparr>tc_sent := tc_sent c @ out\<rparr>))
       (\<lambda>(send_ret, c1). set_first_response_sent (if send_ret \<le> 0 then close_socket_and_stop_watcher c1 else c1))"

text \<open>\<open>response\<close> is the response of the configuration. The buffer of data that was received is not freed.\<close>

definition read_cb ::
  "bytes option \<Rightarrow> recv_result \<Rightarrow> int \<Rightarrow> int \<Rightarrow> ('w, 'j, 'o, 's) listener \<Rightarrow> tcp_connection \<Rightarrow> 'w \<Rightarrow> (tcp_connection \<times> 'w) c_run" where
  "read_cb response recv select_result write_result l c w =
     (case tc_watcher c of
        Freed \<Rightarrow> Some (Inl UseAfterFree)
      | Live p \<Rightarrow>
          (case receive_from_socket recv of
             Recv_again \<Rightarrow> r_return (c, w)
           | Recv_error \<Rightarrow> r_return (close_socket_and_stop_watcher c, w)
           | Recv_closed \<Rightarrow> r_return (close_socket_and_stop_watcher c, w)
           | Recv_data d \<Rightarrow>
               r_bind (process_data_received_from_socket d (Some (cp_client p)) l w) (\<lambda>w1.
                 let c1 = c\<lparr>tc_buffers := tc_buffers c + 1\<rparr>
                 in case response of
                      None \<Rightarrow> r_return (c1, w1)
                    | Some r \<Rightarrow>
                        if cp_first_response_sent p then r_return (c1, w1)
                        else r_bind (run_r (send_first_response r select_result write_result c1)) (\<lambda>c2. r_return (c2, w1)))))"

section \<open>Accepting\<close>

record ('w, 'j, 'o, 's) socket_listener =
  sl_listener :: "('w, 'j, 'o, 's) listener"
  sl_proto :: string
  sl_threads :: nat
  sl_tcp_keepalive :: bool
  sl_thread_mode :: thread_mode
  sl_event_loop :: bool
  sl_event_loops :: "bool list"
  sl_watchers_queue :: "tcp_connection list list"
  sl_accept_current_worker_idx :: nat

text \<open>The bytes of an IPv4 address in a socket address.\<close>

definition sockaddr_in :: "in_addr \<Rightarrow> sockaddr" where
  "sockaddr_in a = AF_INET [ucast (drop_bit 24 a), ucast (drop_bit 16 a), ucast (drop_bit 8 a), ucast a]"

text \<open>
  What becomes of the descriptor that accept gave: there was none, it is closed, it belongs to a connection,
  or nobody has it any more.
\<close>

datatype accepted_fd = No_fd | Fd_closed | Fd_owned | Fd_lost

text \<open>
  The log of a connection prints its address with a limit of sixteen bytes into an array of four. \<open>stack\<close> is
  the memory the compiler has laid out there before anything it needs.
\<close>

definition print_accepted_connection_log :: "nat \<Rightarrow> (sockaddr \<Rightarrow> string option) \<Rightarrow> in_addr \<Rightarrow> unit c_result" where
  "print_accepted_connection_log stack inet_ntop sa =
     (case inet_ntop (sockaddr_in sa) of
        None \<Rightarrow> Inr ()
      | Some str \<Rightarrow> if length str + 1 > stack then Inl OutOfBounds else Inr ())"

text \<open>\<open>client\<close> is the peer that accept gives, if there is no error.\<close>

definition accept_cb ::
  "nat \<Rightarrow> (sockaddr \<Rightarrow> string option) \<Rightarrow> in_addr_list \<Rightarrow> bool \<Rightarrow> in_addr option \<Rightarrow> ('w, 'j, 'o, 's) socket_listener
   \<Rightarrow> (accepted_fd \<times> ('w, 'j, 'o, 's) socket_listener) c_result" where
  "accept_cb stack inet_ntop blacklist calloc_ok client sl =
     (case client of
        None \<Rightarrow> Inr (No_fd, sl)
      | Some client_saddr \<Rightarrow>
          (case sockaddr2str inet_ntop (sockaddr_in client_saddr) of
             None \<Rightarrow> Inr (Fd_lost, sl)
           | Some client_str \<Rightarrow>
               if in_addr_list_contains blacklist client_saddr then Inr (Fd_closed, sl)
               else c_bind (print_accepted_connection_log stack inet_ntop client_saddr) (\<lambda>_.
                 if sl_thread_mode sl = MODE_THREAD_PER_CONNECTION then Inl Exited
                 else if \<not> calloc_ok then Inr (Fd_lost, sl)
                 else let cur_idx = sl_accept_current_worker_idx sl;
                          next_idx = (if cur_idx + 1 \<ge> sl_threads sl then 0 else cur_idx + 1);
                          conn = \<lparr>tc_watcher = Live \<lparr>cp_first_response_sent = False, cp_client = client_str\<rparr>,
                                  tc_peer = client_saddr, tc_fd_open = True, tc_sent = [], tc_buffers = 0\<rparr>
                      in if length (sl_watchers_queue sl) \<le> cur_idx \<or> length (sl_event_loops sl) \<le> cur_idx then Inl OutOfBounds
                         else if \<not> sl_event_loops sl ! cur_idx then Inl NullDeref
                         else Inr (Fd_owned, sl\<lparr>sl_accept_current_worker_idx := next_idx,
                                sl_watchers_queue := (sl_watchers_queue sl)[cur_idx := sl_watchers_queue sl ! cur_idx @ [conn]]\<rparr>))))"

text \<open>
  What the signal of an event loop does: it tells whether the loop ends, and the worker \<open>i\<close> takes all the
  connections out of its queue and starts to watch them. The loop of the main thread has no worker.
\<close>

definition async_cb ::
  "bool \<Rightarrow> nat option \<Rightarrow> ('w, 'j, 'o, 's) socket_listener \<Rightarrow> (bool \<times> tcp_connection list \<times> ('w, 'j, 'o, 's) socket_listener) c_result" where
  "async_cb do_shutdown args sl =
     (case args of
        None \<Rightarrow> Inr (do_shutdown, [], sl)
      | Some i \<Rightarrow>
          if length (sl_watchers_queue sl) \<le> i then Inl OutOfBounds
          else Inr (do_shutdown, sl_watchers_queue sl ! i, sl\<lparr>sl_watchers_queue := (sl_watchers_queue sl)[i := []]\<rparr>))"

text \<open>
  The main thread creates its event loop (if it can) and those of its workers; \<open>loop_ok\<close> tells for which of
  them it can.
\<close>

definition main_tcp_loop_start ::
  "bool \<Rightarrow> (nat \<Rightarrow> bool) \<Rightarrow> ('w, 'j, 'o, 's) socket_listener \<Rightarrow> ('w, 'j, 'o, 's) socket_listener" where
  "main_tcp_loop_start main_loop_ok loop_ok sl =
     (if \<not> main_loop_ok then sl
      else sl\<lparr>sl_event_loop := True,
              sl_event_loops := map (\<lambda>i. i < sl_threads sl \<and> loop_ok i) [0..<MAX_NUM_THREADS],
              sl_watchers_queue := replicate MAX_NUM_THREADS []\<rparr>)"

section \<open>UDP\<close>

text \<open>
  A round of a thread: whether the shutdown was asked for when it has the lock, the answer of select, what
  was received and from whom. Nothing received is a result of 0, and the address is then as it was.
\<close>

record udp_round =
  ur_shutdown :: bool
  ur_select :: int
  ur_recv :: recv_result
  ur_addr :: "string option"

definition udp_consume :: "('w, 'j, 'o, 's) listener \<Rightarrow> udp_round \<Rightarrow> 'w \<Rightarrow> (bool \<times> 'w) c_run" where
  "udp_consume l r w =
     (let recv = (if \<not> ur_shutdown r \<and> ur_select r > 0 then receive_from_socket (ur_recv r) else Recv_closed)
      in case recv of
           Recv_again \<Rightarrow> r_return (True, w)
         | Recv_error \<Rightarrow> r_return (False, w)
         | Recv_closed \<Rightarrow> r_bind (process_data_received_from_socket [] (ur_addr r) l w) (\<lambda>w1. r_return (True, w1))
         | Recv_data d \<Rightarrow> r_bind (process_data_received_from_socket d (ur_addr r) l w) (\<lambda>w1. r_return (True, w1)))"

text \<open>The rounds of a thread until an error; the shutdown ends it after the last.\<close>

fun main_consumer_loop_udp :: "('w, 'j, 'o, 's) listener \<Rightarrow> udp_round list \<Rightarrow> 'w \<Rightarrow> 'w c_run" where
  "main_consumer_loop_udp l [] w = r_return w"
| "main_consumer_loop_udp l (r # rs) w =
     r_bind (udp_consume l r w) (\<lambda>(go, w1). if go then main_consumer_loop_udp l rs w1 else r_return w1)"

text \<open>
  All the threads of a listener, whose rounds come in some order: the number of the thread and its round. A
  thread that had an error has ended.
\<close>

fun udp_threads :: "('w, 'j, 'o, 's) listener \<Rightarrow> bool list \<Rightarrow> (nat \<times> udp_round) list \<Rightarrow> 'w \<Rightarrow> 'w c_run" where
  "udp_threads l running [] w = r_return w"
| "udp_threads l running ((i, r) # rs) w =
     (if i < length running \<and> running ! i
      then r_bind (udp_consume l r w) (\<lambda>(go, w1). udp_threads l (running[i := go]) rs w1)
      else udp_threads l running rs w)"

definition main_udp_loop :: "bool \<Rightarrow> nat \<Rightarrow> ('w, 'j, 'o, 's) listener \<Rightarrow> (nat \<times> udp_round) list \<Rightarrow> 'w \<Rightarrow> 'w c_run" where
  "main_udp_loop mutex_ok n l rounds w =
     (if \<not> mutex_ok then Some (Inl Exited) else udp_threads l (replicate n True) rounds w)"

section \<open>Creating and joining\<close>

text \<open>The loop that the main thread of a listener runs on its descriptor, if it runs one.\<close>

datatype socket_loop = No_loop | Udp_loop int nat | Tcp_loop int

definition main_socket_loop :: "int \<Rightarrow> bool \<Rightarrow> bool \<Rightarrow> ('w, 'j, 'o, 's) socket_listener \<Rightarrow> socket_loop" where
  "main_socket_loop socket_fd bind_ok listen_ok sl =
     (let listenfd = createListenSocket socket_fd bind_ok listen_ok (Some (sl_proto sl))
      in if listenfd = -1 then No_loop
         else if strcmp0 ''udp'' (sl_proto sl) then Udp_loop listenfd (sl_threads sl)
         else Tcp_loop listenfd)"

definition socket_unpack_format :: "unpack_item list" where
  "socket_unpack_format =
     [Unpack_s ''proto'' False, Unpack_i ''port'' False, Unpack_i ''num_threads'' True, Unpack_b ''tcp_keepalive'' True, Unpack_s ''mode'' True]"

text \<open>An integer is written over the low half of the number of threads, which is 1 before.\<close>

definition socket_threads :: "'j unpacked option \<Rightarrow> nat" where
  "socket_threads u =
     (let n = (case u of Some (U_int i) \<Rightarrow> nat (i mod 2 ^ 32) | _ \<Rightarrow> 1)
      in if n = 0 then 1 else if n > MAX_NUM_THREADS then MAX_NUM_THREADS else n)"

record socket_os =
  so_deep_copy_ok :: bool
  so_calloc_ok :: bool
  so_strdup_ok :: bool
  so_pthread_ok :: bool

definition create_socket_listener ::
  "socket_os \<Rightarrow> 'o \<Rightarrow> 'j jansson \<Rightarrow> 'j \<Rightarrow> ('w, 'j, 'o, 's) n2k_decoder \<Rightarrow> 'w \<Rightarrow> (('w, 'j, 'o, 's) socket_listener option \<times> 'w) c_run" where
  "create_socket_listener os o0 J config decoder w =
     (if \<not> so_deep_copy_ok os then r_return (None, w)
      else if \<not> so_calloc_ok os then r_return (None, w)
      else case json_unpack_ex J config socket_unpack_format of
             (ok, us) \<Rightarrow>
               if \<not> ok then r_return (None, w)
               else if \<not> so_strdup_ok os then r_return (None, w)
               else case set_string (unpacked_at us 0) None of
                      None \<Rightarrow> Some (Inl NullDeref)
                    | Some proto \<Rightarrow>
                        r_bind (listener_init o0 (set_int (unpacked_at us 1) 0) decoder config w) (\<lambda>(listener_init_rc, li, w1).
                          if listener_init_rc \<noteq> 0 then r_return (None, w1)
                          else if \<not> so_pthread_ok os then r_bind (listener_join li w1) (\<lambda>w2. r_return (None, w2))
                          else r_return (Some \<lparr>sl_listener = li, sl_proto = proto, sl_threads = socket_threads (unpacked_at us 2),
                                 sl_tcp_keepalive = set_bool (unpacked_at us 3) False,
                                 sl_thread_mode = (case set_string (unpacked_at us 4) None of None \<Rightarrow> MODE_EPOLL | Some m \<Rightarrow> thread_mode_str (Some m)),
                                 sl_event_loop = False, sl_event_loops = replicate MAX_NUM_THREADS False, sl_watchers_queue = replicate MAX_NUM_THREADS [],
                                 sl_accept_current_worker_idx = 0\<rparr>, w1)))"

text \<open>
  Joining sets the flag that all the listeners of the program share, wakes the event loop of the main
  thread, which must exist, and waits for it. The result has the flag.
\<close>

definition join_listener_socket :: "('w, 'j, 'o, 's) socket_listener \<Rightarrow> 'w \<Rightarrow> (bool \<times> 'w) c_run" where
  "join_listener_socket sl w =
     (if \<not> sl_event_loop sl then Some (Inl NullDeref)
      else r_bind (listener_join (sl_listener sl) w) (\<lambda>w1. r_return (True, w1)))"

section \<open>The threads of a TCP listener\<close>

text \<open>
  What the event loops of a listener see, in the order they see it: an attempt to accept (with the peer, if
  there is one), the signal of a worker, a connection at a position of a worker that is readable (with the
  answers of recv, select and write), and the shared flag being set by the end of some listener.
\<close>

datatype tcp_event =
    Ev_accept bool "in_addr option"
  | Ev_async nat
  | Ev_read nat nat recv_result int int
  | Ev_shutdown

record tcp_env =
  te_stack :: nat
  te_inet_ntop :: "sockaddr \<Rightarrow> string option"
  te_blacklist :: in_addr_list
  te_response :: "bytes option"

text \<open>The connections each worker has been given, which of the workers run, and what was received from whom.\<close>

record ('w, 'j, 'o, 's) tcp_state =
  ts_listener :: "('w, 'j, 'o, 's) socket_listener"
  ts_watched :: "tcp_connection list list"
  ts_running :: "bool list"
  ts_do_shutdown :: bool
  ts_received :: "(in_addr \<times> bytes) list"
  ts_world :: 'w

definition received :: "in_addr \<Rightarrow> recv_result \<Rightarrow> (in_addr \<times> bytes) list" where
  "received peer recv = (case receive_from_socket recv of Recv_data d \<Rightarrow> [(peer, d)] | _ \<Rightarrow> [])"

text \<open>A loop that has ended sees nothing more, and a connection that was closed is not watched.\<close>

fun tcp_step :: "tcp_env \<Rightarrow> tcp_event \<Rightarrow> ('w, 'j, 'o, 's) tcp_state \<Rightarrow> ('w, 'j, 'o, 's) tcp_state c_run" where
  "tcp_step env (Ev_accept calloc_ok client) st =
     r_bind (run_r (accept_cb (te_stack env) (te_inet_ntop env) (te_blacklist env) calloc_ok client (ts_listener st))) (\<lambda>(_, sl).
       r_return (st\<lparr>ts_listener := sl\<rparr>))"
| "tcp_step env (Ev_async i) st =
     (if i < length (ts_watched st) \<and> i < length (ts_running st) \<and> ts_running st ! i
      then r_bind (run_r (async_cb (ts_do_shutdown st) (Some i) (ts_listener st))) (\<lambda>(broken, new, sl).
             r_return (st\<lparr>ts_listener := sl, ts_watched := (ts_watched st)[i := ts_watched st ! i @ new],
                          ts_running := (ts_running st)[i := \<not> broken]\<rparr>))
      else r_return st)"
| "tcp_step env (Ev_read i k recv select_result write_result) st =
     (if i < length (ts_watched st) \<and> i < length (ts_running st) \<and> ts_running st ! i \<and> k < length (ts_watched st ! i) \<and>
         tc_fd_open (ts_watched st ! i ! k)
      then let c = ts_watched st ! i ! k
           in r_bind (read_cb (te_response env) recv select_result write_result (sl_listener (ts_listener st)) c (ts_world st)) (\<lambda>(c1, w1).
                r_return (st\<lparr>ts_watched := (ts_watched st)[i := (ts_watched st ! i)[k := c1]], ts_world := w1,
                             ts_received := ts_received st @ received (tc_peer c) recv\<rparr>))
      else r_return st)"
| "tcp_step env Ev_shutdown st = r_return (st\<lparr>ts_do_shutdown := True\<rparr>)"

fun tcp_run :: "tcp_env \<Rightarrow> tcp_event list \<Rightarrow> ('w, 'j, 'o, 's) tcp_state \<Rightarrow> ('w, 'j, 'o, 's) tcp_state c_run" where
  "tcp_run env [] st = r_return st"
| "tcp_run env (ev # evs) st = r_bind (tcp_step env ev st) (tcp_run env evs)"

definition tcp_start :: "('w, 'j, 'o, 's) socket_listener \<Rightarrow> 'w \<Rightarrow> ('w, 'j, 'o, 's) tcp_state" where
  "tcp_start sl w = \<lparr>ts_listener = sl, ts_watched = replicate MAX_NUM_THREADS [], ts_running = replicate MAX_NUM_THREADS True,
     ts_do_shutdown = False, ts_received = [], ts_world = w\<rparr>"

text \<open>
  The end of the loop of the main thread: every worker that has an event loop is woken and joined. Nothing
  is done to the connections they watch.
\<close>

definition main_tcp_loop_end :: "tcp_env \<Rightarrow> ('w, 'j, 'o, 's) tcp_state \<Rightarrow> ('w, 'j, 'o, 's) tcp_state c_run" where
  "main_tcp_loop_end env st =
     (let sl = ts_listener st
      in tcp_run env (map Ev_async (filter (\<lambda>i. sl_event_loops sl ! i) [0..<sl_threads sl])) st)"

section \<open>Connections and workers\<close>

text \<open>The peers whose connections are given to workers.\<close>

fun admitted :: "in_addr_list \<Rightarrow> tcp_event \<Rightarrow> in_addr list" where
  "admitted bl (Ev_accept True (Some a)) = (if in_addr_list_contains bl a then [] else [a])"
| "admitted bl _ = []"

text \<open>Documented behaviour of inet_ntop, with memory for what it prints.\<close>

definition prints_addresses :: "tcp_env \<Rightarrow> bool" where
  "prints_addresses env \<longleftrightarrow> (\<forall>a. \<exists>s. te_inet_ntop env (sockaddr_in a) = Some s \<and> length s < 16)"

fun sends_ok :: "tcp_env \<Rightarrow> tcp_event \<Rightarrow> bool" where
  "sends_ok env (Ev_read i k recv select_result write_result) \<longleftrightarrow> te_response env = None \<or> select_result > 0 \<and> write_result > 0"
| "sends_ok env _ \<longleftrightarrow> True"

definition decodes_always :: "('w, 'j, 'o, 's) listener \<Rightarrow> bool" where
  "decodes_always l \<longleftrightarrow> (\<forall>buf props w. \<exists>r. listener_decode l buf props None None w = r_return r)"

text \<open>The calls of the decoder for what was received.\<close>

fun decode_received :: "tcp_env \<Rightarrow> ('w, 'j, 'o, 's) listener \<Rightarrow> (in_addr \<times> bytes) list \<Rightarrow> 'w \<Rightarrow> 'w c_run" where
  "decode_received env l [] w = r_return w"
| "decode_received env l ((peer, d) # rs) w =
     r_bind (process_data_received_from_socket d (te_inet_ntop env (sockaddr_in peer)) l w) (decode_received env l rs)"

lemma decode_received_append:
  "decode_received env l (xs @ ys) w = r_bind (decode_received env l xs w) (decode_received env l ys)"
  by (induction xs arbitrary: w) (auto simp: r_bind_assoc fun_eq_iff intro!: arg_cong2 [of _ _ _ _ r_bind])

text \<open>An open connection has its watcher, with the text of its peer's address.\<close>

definition conn_ok :: "tcp_env \<Rightarrow> tcp_connection \<Rightarrow> bool" where
  "conn_ok env c \<longleftrightarrow> (tc_fd_open c \<longrightarrow> (\<exists>p. tc_watcher c = Live p \<and> te_inet_ntop env (sockaddr_in (tc_peer c)) = Some (cp_client p)))"

text \<open>
  The state of a listener that admitted the connections of \<open>peers\<close>: the worker with number \<open>i\<close> was given the
  ones whose position is congruent to it.
\<close>

definition listener_ready :: "('w, 'j, 'o, 's) socket_listener \<Rightarrow> bool" where
  "listener_ready sl \<longleftrightarrow> 0 < sl_threads sl \<and> sl_threads sl \<le> MAX_NUM_THREADS \<and> length (sl_watchers_queue sl) = MAX_NUM_THREADS \<and>
     length (sl_event_loops sl) = MAX_NUM_THREADS \<and> (\<forall>i < sl_threads sl. sl_event_loops sl ! i) \<and>
     sl_thread_mode sl \<noteq> MODE_THREAD_PER_CONNECTION"

definition tcp_inv :: "tcp_env \<Rightarrow> in_addr list \<Rightarrow> ('w, 'j, 'o, 's) tcp_state \<Rightarrow> bool" where
  "tcp_inv env peers st \<longleftrightarrow>
     (let sl = ts_listener st; n = sl_threads sl
      in listener_ready sl \<and> length (ts_watched st) = MAX_NUM_THREADS \<and> sl_accept_current_worker_idx sl = length peers mod n \<and>
         (\<forall>i < MAX_NUM_THREADS. map tc_peer (ts_watched st ! i @ sl_watchers_queue sl ! i) = nths peers {k. k mod n = i} \<and>
            (\<forall>c \<in> set (ts_watched st ! i @ sl_watchers_queue sl ! i). conn_ok env c)))"

lemma nths_snoc: "nths (xs @ [x]) A = nths xs A @ (if length xs \<in> A then [x] else [])"
  by (simp add: nths_append)

lemma tcp_inv_start:
  assumes "listener_ready sl" and "sl_accept_current_worker_idx sl = 0" and "sl_watchers_queue sl = replicate MAX_NUM_THREADS []"
  shows "tcp_inv env [] (tcp_start sl w)"
  using assms by (simp add: tcp_inv_def tcp_start_def Let_def)

lemma tcp_inv_worker:
  assumes "tcp_inv env peers st" and "i < MAX_NUM_THREADS"
  shows "map tc_peer (ts_watched st ! i @ sl_watchers_queue (ts_listener st) ! i) = nths peers {k. k mod sl_threads (ts_listener st) = i}"
    and "\<forall>c \<in> set (ts_watched st ! i @ sl_watchers_queue (ts_listener st) ! i). conn_ok env c"
  using assms by (simp_all add: tcp_inv_def Let_def)

lemma tcp_inv_accept:
  assumes "tcp_inv env peers st" and "prints_addresses env" and "16 \<le> te_stack env"
  shows "\<exists>st'. tcp_step env (Ev_accept calloc_ok client) st = r_return st' \<and>
    tcp_inv env (peers @ admitted (te_blacklist env) (Ev_accept calloc_ok client)) st' \<and> sl_listener (ts_listener st') = sl_listener (ts_listener st) \<and>
    ts_world st' = ts_world st \<and> ts_received st' = ts_received st"
proof (cases client)
  case None
  with assms(1) show ?thesis by (cases calloc_ok) (auto simp: accept_cb_def run_r_def)
next
  case (Some a)
  obtain s where s: "te_inet_ntop env (sockaddr_in a) = Some s" "length s < 16"
    using assms(2) by (auto simp: prints_addresses_def)
  let ?sl = "ts_listener st" and ?n = "sl_threads (ts_listener st)"
  let ?i = "sl_accept_current_worker_idx ?sl"
  have rdy: "listener_ready ?sl" and idx: "?i = length peers mod ?n" using assms(1) by (simp_all add: tcp_inv_def Let_def)
  then have n: "0 < ?n" "?n \<le> MAX_NUM_THREADS" "?i < ?n" by (simp_all add: listener_ready_def)
  show ?thesis
  proof (cases "\<not> in_addr_list_contains (te_blacklist env) a \<and> calloc_ok")
    case False
    with Some s assms rdy show ?thesis
      by (cases calloc_ok) (auto simp: accept_cb_def run_r_def sockaddr2str_def sockaddr_in_def print_accepted_connection_log_def listener_ready_def)
  next
    case True
    let ?c = "\<lparr>tc_watcher = Live \<lparr>cp_first_response_sent = False, cp_client = s\<rparr>, tc_peer = a, tc_fd_open = True, tc_sent = [], tc_buffers = 0\<rparr>"
    let ?st = "st\<lparr>ts_listener := ?sl\<lparr>sl_accept_current_worker_idx := (if ?i + 1 \<ge> ?n then 0 else ?i + 1),
        sl_watchers_queue := (sl_watchers_queue ?sl)[?i := sl_watchers_queue ?sl ! ?i @ [?c]]\<rparr>\<rparr>"
    have "tcp_step env (Ev_accept calloc_ok client) st = r_return ?st"
      using True Some s assms(3) rdy n
      by (simp add: accept_cb_def run_r_def sockaddr2str_def sockaddr_in_def print_accepted_connection_log_def listener_ready_def Let_def)
    moreover have "tcp_inv env (peers @ [a]) ?st"
    proof -
      have "(if ?i + 1 \<ge> ?n then 0 else ?i + 1) = Suc (length peers) mod ?n" using idx n by (auto simp: mod_Suc)
      moreover have ok: "conn_ok env ?c" using s(1) by (simp add: conn_ok_def)
      moreover have "map tc_peer (ts_watched st ! i @ (sl_watchers_queue ?sl)[?i := sl_watchers_queue ?sl ! ?i @ [?c]] ! i) =
          nths (peers @ [a]) {k. k mod ?n = i}" if "i < MAX_NUM_THREADS" for i
        unfolding nths_snoc using tcp_inv_worker(1) [OF assms(1) that] that n idx rdy
        by (cases "i = ?i") (simp_all add: listener_ready_def)
      moreover have "\<forall>c \<in> set (ts_watched st ! i @ (sl_watchers_queue ?sl)[?i := sl_watchers_queue ?sl ! ?i @ [?c]] ! i). conn_ok env c"
        if "i < MAX_NUM_THREADS" for i
        using tcp_inv_worker(2) [OF assms(1) that] that n idx rdy ok by (cases "i = ?i") (simp_all add: listener_ready_def ball_Un)
      ultimately show ?thesis using assms(1) rdy by (simp add: tcp_inv_def Let_def listener_ready_def)
    qed
    ultimately show ?thesis using True Some by simp
  qed
qed

lemma tcp_inv_async:
  assumes "tcp_inv env peers st"
  shows "\<exists>st'. tcp_step env (Ev_async i) st = r_return st' \<and> tcp_inv env peers st' \<and> sl_listener (ts_listener st') = sl_listener (ts_listener st) \<and>
    ts_world st' = ts_world st \<and> ts_received st' = ts_received st"
  using assms
  by (auto simp: async_cb_def run_r_def tcp_inv_def Let_def listener_ready_def nth_list_update)

lemma decodes_alwaysD: "decodes_always l \<Longrightarrow> \<exists>w'. process_data_received_from_socket d client l w = r_return w'"
  unfolding decodes_always_def process_data_received_from_socket_def
  by (metis (no_types, lifting) r_bind_simps(3) split_beta)

lemma read_cb_ok:
  assumes "conn_ok env c" and "tc_fd_open c" and "decodes_always l" and "sends_ok env (Ev_read i k recv select_result write_result)"
  shows "\<exists>c' w'. read_cb (te_response env) recv select_result write_result l c w = r_return (c', w') \<and> conn_ok env c' \<and> tc_peer c' = tc_peer c \<and>
    decode_received env l (received (tc_peer c) recv) w = r_return w'"
proof -
  obtain p where p: "tc_watcher c = Live p" "te_inet_ntop env (sockaddr_in (tc_peer c)) = Some (cp_client p)"
    using assms(1,2) by (auto simp: conn_ok_def)
  show ?thesis
  proof (cases "receive_from_socket recv")
    case (Recv_data d)
    obtain w' where w': "process_data_received_from_socket d (Some (cp_client p)) l w = r_return w'"
      using decodes_alwaysD [OF assms(3)] by blast
    have "\<exists>c'. read_cb (te_response env) recv select_result write_result l c w = r_return (c', w') \<and> conn_ok env c' \<and> tc_peer c' = tc_peer c"
      using Recv_data p w' assms(4)
      by (auto simp: read_cb_def Let_def conn_ok_def send_first_response_def set_first_response_sent_def send_to_socket_def run_r_def
          split: option.splits)
    with w' p Recv_data show ?thesis by (auto simp: received_def)
  qed (use p assms(1) in \<open>auto simp: read_cb_def conn_ok_def close_socket_and_stop_watcher_def received_def\<close>)
qed

lemma tcp_inv_read:
  assumes "tcp_inv env peers st" and "decodes_always (sl_listener (ts_listener st))"
    and "sends_ok env (Ev_read i k recv select_result write_result)"
  shows "\<exists>st' rs. tcp_step env (Ev_read i k recv select_result write_result) st = r_return st' \<and> tcp_inv env peers st' \<and>
    ts_listener st' = ts_listener st \<and> ts_received st' = ts_received st @ rs \<and>
    decode_received env (sl_listener (ts_listener st)) rs (ts_world st) = r_return (ts_world st')"
proof (cases "i < length (ts_watched st) \<and> i < length (ts_running st) \<and> ts_running st ! i \<and> k < length (ts_watched st ! i) \<and>
    tc_fd_open (ts_watched st ! i ! k)")
  case True
  let ?c = "ts_watched st ! i ! k" and ?l = "sl_listener (ts_listener st)"
  have i: "i < MAX_NUM_THREADS" using True assms(1) by (simp add: tcp_inv_def Let_def)
  have "conn_ok env ?c" using tcp_inv_worker(2) [OF assms(1) i] True by (simp add: ball_Un)
  from read_cb_ok [OF this _ assms(2,3), of "ts_world st"] True obtain c' w' where c':
    "read_cb (te_response env) recv select_result write_result ?l ?c (ts_world st) = r_return (c', w')" "conn_ok env c'" "tc_peer c' = tc_peer ?c"
    "decode_received env ?l (received (tc_peer ?c) recv) (ts_world st) = r_return w'" by blast
  have peers: "map tc_peer ((ts_watched st ! i)[k := c']) = map tc_peer (ts_watched st ! i)"
    using c'(3) True by (metis list_update_id map_update nth_map)
  have "tcp_inv env peers (st\<lparr>ts_watched := (ts_watched st)[i := (ts_watched st ! i)[k := c']], ts_world := w',
      ts_received := ts_received st @ received (tc_peer ?c) recv\<rparr>)"
  proof -
    let ?watched = "(ts_watched st)[i := (ts_watched st ! i)[k := c']]" and ?queue = "sl_watchers_queue (ts_listener st)"
    have "map tc_peer (?watched ! j @ ?queue ! j) = nths peers {k. k mod sl_threads (ts_listener st) = j} \<and>
        (\<forall>c \<in> set (?watched ! j @ ?queue ! j). conn_ok env c)" if "j < MAX_NUM_THREADS" for j
      using tcp_inv_worker [OF assms(1) that] c'(2) peers True
      by (cases "j = i") (auto dest: set_update_subset_insert [THEN subsetD])
    with assms(1) show ?thesis by (simp add: tcp_inv_def Let_def)
  qed
  with c' True show ?thesis by (auto simp: Let_def)
qed (use assms(1) in \<open>auto intro: exI [of _ "[]"]\<close>)

lemma tcp_inv_step:
  assumes "tcp_inv env peers st" and "prints_addresses env" and "16 \<le> te_stack env" and "decodes_always (sl_listener (ts_listener st))"
    and "sends_ok env ev"
  shows "\<exists>st' rs. tcp_step env ev st = r_return st' \<and> tcp_inv env (peers @ admitted (te_blacklist env) ev) st' \<and>
    sl_listener (ts_listener st') = sl_listener (ts_listener st) \<and> ts_received st' = ts_received st @ rs \<and>
    decode_received env (sl_listener (ts_listener st)) rs (ts_world st) = r_return (ts_world st')"
proof (cases ev)
  case (Ev_accept calloc_ok client)
  with tcp_inv_accept [OF assms(1-3), of calloc_ok client] show ?thesis by (metis append_Nil2 decode_received.simps(1))
next
  case (Ev_async i)
  with tcp_inv_async [OF assms(1), of i] show ?thesis by (metis admitted.simps(4) append_Nil2 decode_received.simps(1))
next
  case (Ev_read i k recv s w)
  with tcp_inv_read [OF assms(1,4), of i k recv s w] assms(5) show ?thesis by auto
next
  case Ev_shutdown
  with assms(1) show ?thesis by (auto simp: tcp_inv_def Let_def)
qed

lemma tcp_run_inv:
  assumes "prints_addresses env" and "16 \<le> te_stack env"
  shows "tcp_inv env peers st \<Longrightarrow> decodes_always (sl_listener (ts_listener st)) \<Longrightarrow> \<forall>ev \<in> set evs. sends_ok env ev \<Longrightarrow>
    \<exists>st' rs. tcp_run env evs st = r_return st' \<and> tcp_inv env (peers @ concat (map (admitted (te_blacklist env)) evs)) st' \<and>
      ts_received st' = ts_received st @ rs \<and>
      decode_received env (sl_listener (ts_listener st)) rs (ts_world st) = r_return (ts_world st')"
proof (induction evs arbitrary: peers st)
  case (Cons ev evs)
  from tcp_inv_step [OF Cons.prems(1) assms Cons.prems(2), of ev] Cons.prems(3) obtain st1 rs where st1: "tcp_step env ev st = r_return st1"
    "tcp_inv env (peers @ admitted (te_blacklist env) ev) st1" "sl_listener (ts_listener st1) = sl_listener (ts_listener st)"
    "ts_received st1 = ts_received st @ rs" "decode_received env (sl_listener (ts_listener st)) rs (ts_world st) = r_return (ts_world st1)" by auto
  from Cons.IH [OF st1(2)] st1(3) Cons.prems(2,3) obtain st' rs' where "tcp_run env evs st1 = r_return st'"
    "tcp_inv env (peers @ admitted (te_blacklist env) ev @ concat (map (admitted (te_blacklist env)) evs)) st'"
    "ts_received st' = ts_received st1 @ rs'" "decode_received env (sl_listener (ts_listener st)) rs' (ts_world st1) = r_return (ts_world st')" by auto
  with st1 show ?case by (auto simp: decode_received_append intro!: exI [of _ "rs @ rs'"])
qed auto

text \<open>With a decoder whose listeners always start, creating a listener does not fault, and it has the protocol of its configuration.\<close>

lemma create_socket_listener_total:
  assumes "opaque_total decoder" and "jansson_ok J"
  shows "\<exists>lo. create_socket_listener os o0 J config decoder w = r_return (lo, w) \<and>
    (\<forall>sl. lo = Some sl \<longrightarrow> li_decoder (sl_listener sl) = decoder \<and> json_unpack_ex J config [Unpack_s ''proto'' False] = (True, [Some (U_string (sl_proto sl))]))"
proof (cases "json_unpack_ex J config socket_unpack_format")
  case (Pair ok us)
  have "\<exists>s. unpacked_at us 0 = Some (U_string s) \<and> json_unpack_ex J config [Unpack_s ''proto'' False] = (True, [Some (U_string s)])" if ok
    using jansson_ok_string [OF assms(2), of config socket_unpack_format us 0 "''proto''"] Pair that by (auto simp: socket_unpack_format_def)
  moreover obtain rc li where "listener_init o0 (set_int (unpacked_at us 1) 0) decoder config w = r_return (rc, li, w)" "li_decoder li = decoder"
    using listener_total(1) [OF assms(1)] by blast
  moreover have "listener_join li w = r_return w" using listener_total(3) [OF assms(1)] calculation by blast
  ultimately show ?thesis unfolding create_socket_listener_def Pair by auto
qed

lemma create_socket_listener_fresh:
  assumes "create_socket_listener os o0 J config decoder w = r_return (Some sl, w1)"
  shows "0 < sl_threads sl" "sl_threads sl \<le> MAX_NUM_THREADS" "sl_accept_current_worker_idx sl = 0"
    "li_decoder (sl_listener sl) = decoder"
  using assms
  by (auto simp: create_socket_listener_def r_bind_return_iff listener_init_def socket_threads_def MAX_NUM_THREADS_def Let_def
      split: if_splits prod.splits option.splits)

text \<open>One thread is the loop of its rounds.\<close>

lemma udp_threads_one: "udp_threads l [go] (map (Pair 0) rs) w = (if go then main_consumer_loop_udp l rs w else r_return w)"
proof (induction rs arbitrary: go w)
  case (Cons r rs)
  have "(\<lambda>(go, w1). udp_threads l [go] (map (Pair 0) rs) w1) = (\<lambda>(go, w1). if go then main_consumer_loop_udp l rs w1 else r_return w1)"
    by (auto simp: Cons.IH fun_eq_iff)
  with Cons.IH [of False w] show ?case by simp
qed simp

text \<open>A listener that was created and whose event loops were, before its first connection.\<close>

definition tcp_listening :: "socket_os \<Rightarrow> 'o \<Rightarrow> 'j jansson \<Rightarrow> 'j \<Rightarrow> ('w, 'j, 'o, 's) n2k_decoder \<Rightarrow> 'w \<Rightarrow> ('w, 'j, 'o, 's) tcp_state \<Rightarrow> bool" where
  "tcp_listening os o0 J config decoder w0 st \<longleftrightarrow>
     (\<exists>sl w. create_socket_listener os o0 J config decoder w0 = r_return (Some sl, w) \<and> sl_thread_mode sl \<noteq> MODE_THREAD_PER_CONNECTION \<and>
        st = tcp_start (main_tcp_loop_start True (\<lambda>_. True) sl) w)"

lemma tcp_listening_inv:
  assumes "tcp_listening os o0 J config decoder w0 st"
  shows "tcp_inv env [] st" "li_decoder (sl_listener (ts_listener st)) = decoder" "ts_received st = []" "ts_do_shutdown st = False"
proof -
  obtain sl w where sl: "create_socket_listener os o0 J config decoder w0 = r_return (Some sl, w)" "sl_thread_mode sl \<noteq> MODE_THREAD_PER_CONNECTION"
    "st = tcp_start (main_tcp_loop_start True (\<lambda>_. True) sl) w" using assms by (auto simp: tcp_listening_def)
  note fresh = create_socket_listener_fresh [OF sl(1)]
  show "tcp_inv env [] st" unfolding sl(3)
    by (rule tcp_inv_start) (use fresh sl(2) in \<open>auto simp: listener_ready_def main_tcp_loop_start_def\<close>)
  show "li_decoder (sl_listener (ts_listener st)) = decoder" "ts_received st = []" "ts_do_shutdown st = False"
    using fresh by (simp_all add: sl(3) tcp_start_def main_tcp_loop_start_def)
qed

text \<open>With the same decoder, a message that librdkafka refuses - its queue is full, or the message is too large -
  ends the program: the decoder writes the reason where the listener gave it no place.\<close>

lemma tcp_refused_message_faults:
  assumes "tc_watcher c = Live p" and "li_decoder l = dumb_decoder R topic" and "du_topic_new R topic = Some rkt"
    and "du_produce R rkt (take 4096 d) \<noteq> RD_KAFKA_RESP_ERR_NO_ERROR"
  shows "read_cb response (Recv_data d) select_result write_result l c w = Some (Inl NullDeref)"
  using assms
  by (simp add: read_cb_def process_data_received_from_socket_def listener_decode_def dumb_decoder_def dumb_decode_def
      new_rkt_global_config_def set_response_def READ_BUFFER_SIZE_def)

text \<open>The workers never have a connection of a refused address, nor an open one without its watcher.\<close>

lemma admitted_not_refused: "a \<in> set (concat (map (admitted bl) evs)) \<Longrightarrow> \<not> in_addr_list_contains bl a"
proof -
  have "\<forall>a \<in> set (admitted bl ev). \<not> in_addr_list_contains bl a" for ev
    by (cases "(bl, ev)" rule: admitted.cases) auto
  then show "a \<in> set (concat (map (admitted bl) evs)) \<Longrightarrow> \<not> in_addr_list_contains bl a" by auto
qed

lemma tcp_peers_admitted:
  assumes "tcp_listening os o0 J config decoder w0 st" and "prints_addresses env" and "16 \<le> te_stack env"
    and "decodes_always (sl_listener (ts_listener st))" and "\<forall>ev \<in> set evs. sends_ok env ev"
  obtains st' where "tcp_run env evs st = r_return st'" "tcp_inv env (concat (map (admitted (te_blacklist env)) evs)) st'"
    "\<And>i c. i < 256 \<Longrightarrow> c \<in> set (ts_watched st' ! i @ sl_watchers_queue (ts_listener st') ! i) \<Longrightarrow>
       \<not> in_addr_list_contains (te_blacklist env) (tc_peer c)"
    "\<And>i c. i < 256 \<Longrightarrow> c \<in> set (ts_watched st' ! i @ sl_watchers_queue (ts_listener st') ! i) \<Longrightarrow> tc_fd_open c \<longrightarrow> tc_watcher c \<noteq> Freed"
proof -
  let ?peers = "concat (map (admitted (te_blacklist env)) evs)"
  obtain st' where st': "tcp_run env evs st = r_return st'" "tcp_inv env ?peers st'"
    using tcp_run_inv [OF assms(2,3) tcp_listening_inv(1) [OF assms(1)] assms(4,5)] by auto
  have "\<not> in_addr_list_contains (te_blacklist env) (tc_peer c)"
    if "i < 256" "c \<in> set (ts_watched st' ! i @ sl_watchers_queue (ts_listener st') ! i)" for i c
    using tcp_inv_worker(1) [OF st'(2), of i] that notin_set_nthsI [of "tc_peer c" ?peers]
    by (metis (no_types, lifting) MAX_NUM_THREADS_def image_eqI list.set_map admitted_not_refused)
  moreover have "tc_fd_open c \<longrightarrow> tc_watcher c \<noteq> Freed"
    if "i < 256" "c \<in> set (ts_watched st' ! i @ sl_watchers_queue (ts_listener st') ! i)" for i c
    using tcp_inv_worker(2) [OF st'(2), of i] that by (auto simp: conn_ok_def MAX_NUM_THREADS_def)
  ultimately show thesis using that st' by blast
qed

section \<open>Properties\<close>


text \<open>C35: when the response of the configuration cannot be sent on a connection - the client does not take it for
  five seconds, or has gone - the connection is closed and then written to: a use of freed memory.\<close>

theorem failed_first_response_use_after_free:
  assumes "tc_watcher c = Live p" and "\<not> cp_first_response_sent p" and "response \<noteq> []"
    and "decodes_always l" and "select_result \<le> 0 \<or> write_result \<le> 0"
  shows "read_cb (Some response) (Recv_data d) select_result write_result l c w = Some (Inl UseAfterFree)"
proof -
  obtain w' where "process_data_received_from_socket (take READ_BUFFER_SIZE d) (Some (cp_client p)) l w = r_return w'"
    using decodes_alwaysD [OF assms(4)] by blast
  with assms show ?thesis
    by (auto simp: read_cb_def send_first_response_def set_first_response_sent_def send_to_socket_def close_socket_and_stop_watcher_def
        run_r_def Let_def)
qed

text \<open>The log of an accepted connection overflows its array: if the compiler gives it no more than its four
  bytes, every connection from an address that is not refused goes outside it.\<close>

lemma accept_log_overflows:
  assumes "te_inet_ntop env (sockaddr_in a) = Some s" and "7 \<le> length s" and "\<not> in_addr_list_contains (te_blacklist env) a"
  shows "tcp_step (env\<lparr>te_stack := 4\<rparr>) (Ev_accept calloc_ok (Some a)) st = Some (Inl OutOfBounds)"
  using assms by (simp add: accept_cb_def sockaddr2str_def sockaddr_in_def print_accepted_connection_log_def run_r_def)


lemma tcp_step_stopped:
  assumes "tcp_step env ev st = r_return st'"
  shows "(ts_do_shutdown st \<longrightarrow> ts_do_shutdown st') \<and> (i < length (ts_running st) \<and> \<not> ts_running st ! i \<longrightarrow> \<not> ts_running st' ! i) \<and>
    length (ts_running st') = length (ts_running st) \<and> length (ts_watched st') = length (ts_watched st)"
  using assms
  by (cases ev) (auto simp: r_bind_return_iff nth_list_update Let_def split: if_splits)

lemma tcp_run_stopped:
  "tcp_run env evs st = r_return st' \<Longrightarrow>
   (ts_do_shutdown st \<longrightarrow> ts_do_shutdown st') \<and> (i < length (ts_running st) \<and> \<not> ts_running st ! i \<longrightarrow> \<not> ts_running st' ! i) \<and>
    length (ts_running st') = length (ts_running st) \<and> length (ts_watched st') = length (ts_watched st)"
proof (induction evs arbitrary: st)
  case (Cons ev evs)
  then obtain st1 where "tcp_step env ev st = r_return st1" "tcp_run env evs st1 = r_return st'" by (auto simp: r_bind_return_iff)
  with Cons.IH tcp_step_stopped [of env ev st st1 i] show ?case by metis
qed simp

lemma tcp_run_append: "tcp_run env (evs @ evs') st = r_bind (tcp_run env evs st) (tcp_run env evs')"
  by (induction evs arbitrary: st) (auto simp: r_bind_assoc fun_eq_iff intro!: arg_cong2 [of _ _ _ _ r_bind])

text \<open>When a listener that was told to stop ends, all its workers end, and the connections stay theirs.\<close>

lemma tcp_run_async:
  assumes "tcp_inv env peers st"
  shows "\<exists>st'. tcp_run env (map Ev_async is) st = r_return st' \<and> tcp_inv env peers st' \<and>
    (ts_do_shutdown st \<longrightarrow> (\<forall>i \<in> set is. i < 256 \<longrightarrow> i < length (ts_running st) \<longrightarrow> \<not> ts_running st' ! i))"
  using assms
proof (induction "is" arbitrary: st)
  case (Cons i "is")
  from tcp_inv_async [OF Cons.prems] obtain st1 where st1: "tcp_step env (Ev_async i) st = r_return st1" "tcp_inv env peers st1" by blast
  from Cons.IH [OF st1(2)] obtain st' where st': "tcp_run env (map Ev_async is) st1 = r_return st'" "tcp_inv env peers st'"
    "ts_do_shutdown st1 \<longrightarrow> (\<forall>i \<in> set is. i < 256 \<longrightarrow> i < length (ts_running st1) \<longrightarrow> \<not> ts_running st' ! i)" by blast
  have "\<not> ts_running st1 ! i" if "ts_do_shutdown st" "i < 256" "i < length (ts_running st)"
    using st1(1) that Cons.prems
    by (auto simp: r_bind_return_iff async_cb_def run_r_def tcp_inv_def Let_def MAX_NUM_THREADS_def split: if_splits)
  with st1 st' tcp_step_stopped [OF st1(1)] tcp_run_stopped [OF st'(1)] show ?case by auto
qed simp

lemma main_tcp_loop_ends:
  assumes "tcp_inv env peers st" and "ts_do_shutdown st" and "length (ts_running st) = 256"
  shows "\<exists>st'. main_tcp_loop_end env st = r_return st' \<and> tcp_inv env peers st' \<and> (\<forall>i < sl_threads (ts_listener st). \<not> ts_running st' ! i)"
proof -
  have n: "sl_threads (ts_listener st) \<le> 256" "\<forall>i < sl_threads (ts_listener st). sl_event_loops (ts_listener st) ! i"
    using assms(1) by (simp_all add: tcp_inv_def Let_def listener_ready_def MAX_NUM_THREADS_def)
  then have "filter (\<lambda>i. sl_event_loops (ts_listener st) ! i) [0..<sl_threads (ts_listener st)] = [0..<sl_threads (ts_listener st)]" by simp
  with tcp_run_async [OF assms(1), of "[0..<sl_threads (ts_listener st)]"] assms(2,3) n(1) show ?thesis
    by (auto simp: main_tcp_loop_end_def Let_def)
qed


section \<open>Witnesses\<close>

definition demo_socket_config :: json where
  "demo_socket_config = J_obj [(''proto'', J_str ''tcp''), (''port'', J_int 2057), (''num_threads'', J_int 2)]"

definition demo_socket_os :: socket_os where
  "demo_socket_os = \<lparr>so_deep_copy_ok = True, so_calloc_ok = True, so_strdup_ok = True, so_pthread_ok = True\<rparr>"

definition demo_tcp_env :: tcp_env where
  "demo_tcp_env = \<lparr>te_stack = 16, te_inet_ntop = (\<lambda>_. Some ''10.0.0.1''), te_blacklist = \<lparr>list_head = [\<lparr>node_addr = 9\<rparr>]\<rparr>, te_response = None\<rparr>"

abbreviation "demo_tcp_listening \<equiv>
  tcp_listening demo_socket_os () (json_values (\<lambda>_. None)) demo_socket_config (dumb_decoder (demo_dumb True) (Some ''t'')) \<lparr>dw_open_topics = [], dw_produced = []\<rparr>"

abbreviation "demo_tcp_events \<equiv>
  [Ev_accept True (Some 1), Ev_accept True (Some 9), Ev_accept True (Some 2), Ev_accept True (Some 3), Ev_async 0, Ev_read 0 1 (Recv_data ''hi'') 1 1]"

lemma demo_tcp_env_ok: "prints_addresses demo_tcp_env" "16 \<le> te_stack demo_tcp_env" "\<forall>ev \<in> set demo_tcp_events. sends_ok demo_tcp_env ev"
  by (simp_all add: prints_addresses_def demo_tcp_env_def)

lemma demo_listens: "\<exists>st. demo_tcp_listening st"
  by (simp add: tcp_listening_def create_socket_listener_def demo_socket_os_def demo_socket_config_def json_values_def socket_unpack_format_def
      unpacked_at_def listener_init_def dumb_decoder_def)

lemma demo_decodes: "li_decoder l = dumb_decoder (demo_dumb True) (Some ''t'') \<Longrightarrow> decodes_always l"
  by (simp add: decodes_always_def listener_decode_def dumb_decoder_def dumb_decode_def demo_dumb_def new_rkt_global_config_def)


theorem failed_first_response_use_after_free_witness:
  "read_cb (Some ''hello'') (Recv_data ''a'') 0 0 \<lparr>li_decoder = dumb_decoder (demo_dumb True) (Some ''t''), li_decoder_opaque = (), li_port = 80\<rparr>
     \<lparr>tc_watcher = Live \<lparr>cp_first_response_sent = False, cp_client = ''10.0.0.1''\<rparr>, tc_peer = 1, tc_fd_open = True, tc_sent = [], tc_buffers = 0\<rparr>
     \<lparr>dw_open_topics = [], dw_produced = []\<rparr> = Some (Inl UseAfterFree)"
  by (rule failed_first_response_use_after_free) (auto intro: demo_decodes)



end
