(* ===== verification/Meraki_Decoder.thy ===== *)
theory Meraki_Decoder
  imports Zz_Http Jansson
begin

text \<open>
  The decoder for Meraki scanners (\<^verbatim>\<open>src/decoder/meraki/meraki.c\<close>): it answers the GET request that
  validates a receiver and leaves the POST requests to the HTTP decoder, with a session for the topic of
  its listener or of the configuration instead of the one the URL names.
\<close>

section \<open>The opaque value of a listener\<close>

text \<open>
  The topic of the listener, as the bytes of the zeroed block behind its header. \<open>calloc_ok\<close> tells whether
  the block is allocated; the pointer is null before the call.
\<close>

definition meraki_opaque_creator ::
  "'j jansson \<Rightarrow> bool \<Rightarrow> 'j \<Rightarrow> 'w \<Rightarrow> (int \<times> bytes option \<times> 'w) c_run" where
  "meraki_opaque_creator J calloc_ok config w =
     (case json_object_get J config ''topic'' of
        None \<Rightarrow> r_return (0, None, w)
      | Some jlistener_topic_name \<Rightarrow>
          let listener_topic_name = (case json_string J jlistener_topic_name of None \<Rightarrow> [] | Some name \<Rightarrow> name)
          in if \<not> calloc_ok then r_return (-1, None, w)
             else r_return (0, Some (listener_topic_name @ [NUL]), w))"

definition meraki_opaque_destructor :: "bytes option \<Rightarrow> 'w \<Rightarrow> 'w c_run" where
  "meraki_opaque_destructor vopaque w = r_return w"

section \<open>Sessions\<close>

definition meraki_topic_prefix :: string where
  "meraki_topic_prefix = ''/v1/data/''"

definition meraki_session_vars :: "string option \<Rightarrow> bytes option \<Rightarrow> keyval_list \<Rightarrow> keyval_list" where
  "meraki_session_vars default_topic_name listener_opaque msg_vars =
     (let meraki_topic = (case listener_opaque of
                            Some listener_topic \<Rightarrow> c_string listener_topic
                          | None \<Rightarrow> (case default_topic_name of Some topic \<Rightarrow> topic | None \<Rightarrow> []));
          meraki_uri = meraki_topic_prefix @ meraki_topic
      in foldl add_key_value_pair keyval_list_init
           [\<lparr>pair_key = ''D-HTTP-URI'', pair_value = Some meraki_uri\<rparr>,
            \<lparr>pair_key = ''D-Client-IP'', pair_value = valueof msg_vars ''D-Client-IP'' strcmp0\<rparr>])"

definition new_meraki_session ::
  "('h, 'l, 'y, 'x, 'g) zz_libs \<Rightarrow> string option \<Rightarrow> bytes option \<Rightarrow> keyval_list \<Rightarrow> ('h, 'l) zz_world
   \<Rightarrow> (int \<times> ('y, 'x, 'g) zz_any_session option \<times> ('h, 'l) zz_world) c_run" where
  "new_meraki_session Z default_topic_name listener_opaque msg_vars w =
     vnew_zz_session Z () (meraki_session_vars default_topic_name listener_opaque msg_vars) w"

section \<open>Requests\<close>

definition meraki_prefix :: string where
  "meraki_prefix = ''/v1/meraki''"

text \<open>The pointer behind the prefix and the character that follows it: a URL that ends with the prefix has none.\<close>

definition url_validator :: "string \<Rightarrow> string option c_result" where
  "url_validator url =
     (if \<not> strncmp0 meraki_prefix url (length meraki_prefix) then Inr None
      else if length url < length meraki_prefix + 1 then Inl OutOfBounds
      else Inr (Some (drop (length meraki_prefix + 1) url)))"

definition meraki_decode ::
  "('h, 'l, 'y, 'x, 'g) zz_libs \<Rightarrow> bytes \<Rightarrow> keyval_list \<Rightarrow> bytes option \<Rightarrow> ('y, 'x, 'g) zz_any_session option
   \<Rightarrow> decoder_response option \<Rightarrow> ('h, 'l) zz_world
   \<Rightarrow> (decoder_callback_err \<times> decoder_response option \<times> ('y, 'x, 'g) zz_any_session option \<times> ('h, 'l) zz_world) c_run" where
  "meraki_decode Z buffer attrs listener_callback_opaque sessionp response w =
     (case valueof attrs ''D-HTTP-method'' strcmp0 of
        None \<Rightarrow> Some (Inl NullDeref)
      | Some http_method \<Rightarrow>
          if strcmp0 http_method ''GET''
          then (case valueof attrs ''D-HTTP-URI'' strcmp0 of
                  None \<Rightarrow> Some (Inl NullDeref)
                | Some uri \<Rightarrow>
                    r_bind (run_r (url_validator uri)) (\<lambda>validator.
                      case response of
                        None \<Rightarrow> Some (Inl NullDeref)
                      | Some (_, old_size) \<Rightarrow>
                          (case validator of
                             None \<Rightarrow> r_return (DECODER_CALLBACK_RESOURCE_NOT_FOUND, Some (None, old_size), sessionp, w)
                           | Some str \<Rightarrow> r_return (DECODER_CALLBACK_OK, Some (Some str, length str), sessionp, w))))
          else zz_callback Z buffer attrs () sessionp response w)"

definition meraki_decoder ::
  "'j jansson \<Rightarrow> bool \<Rightarrow> ('h, 'l, 'y, 'x, 'g) zz_libs \<Rightarrow> string option
   \<Rightarrow> (('h, 'l) zz_world, 'j, bytes option, ('y, 'x, 'g) zz_any_session) n2k_decoder" where
  "meraki_decoder J calloc_ok Z default_topic_name = \<lparr>dec_name = ''meraki'', dec_callback = meraki_decode Z,
     dec_init = None, dec_reload = None, dec_done = None,
     dec_opaque_creator = Some (meraki_opaque_creator J calloc_ok), dec_opaque_reload = None,
     dec_opaque_destructor = Some meraki_opaque_destructor,
     dec_new_session = Some (new_meraki_session Z default_topic_name), dec_delete_session = Some vfree_zz_session,
     dec_session_size = Some (zz_session_size (zl_sizeof_session Z))\<rparr>"

section \<open>The contract of sessions\<close>

interpretation mk: session_decoder "meraki_decoder J calloc_ok Z default_topic" "zz_idle Z E ext" "zz_busy Z E ext"
    "new_meraki_session Z default_topic" vfree_zz_session
  for J :: "'j jansson" and calloc_ok and Z :: "('h, 'l, 'y, 'x, 'g) zz_libs" and default_topic E ext
proof unfold_locales
  show "dec_new_session (meraki_decoder J calloc_ok Z default_topic) = Some (new_meraki_session Z default_topic)"
    "dec_delete_session (meraki_decoder J calloc_ok Z default_topic) = Some vfree_zz_session"
    by (simp_all add: meraki_decoder_def)
  show "if rc = 0 then \<exists>s. sess = Some s \<and> zz_busy Z E ext w' s else zz_idle Z E ext w'"
    if "zz_idle Z E ext w" "new_meraki_session Z default_topic opaque props w = r_return (rc, sess, w')"
    for opaque props w rc sess w'
    using zz.opens [OF that(1)] that(2) unfolding new_meraki_session_def by blast
  show "\<exists>t. s' = Some t \<and> zz_busy Z E ext w' t"
    if "zz_busy Z E ext w s" "dec_callback (meraki_decoder J calloc_ok Z default_topic) buf props opaque (Some s) resp w =
      r_return (err, resp', s', w')" for w s buf props opaque resp err resp' s' w'
  proof (cases "valueof props ''D-HTTP-method'' strcmp0 = Some ''GET''")
    case True
    with that show ?thesis
      by (auto simp: meraki_decoder_def meraki_decode_def strcmp0_def r_bind_return_iff split: option.splits prod.splits)
  next
    case False
    with that(2) have "dec_callback (zz_decoder Z) buf props () (Some s) resp w = r_return (err, resp', s', w')"
      by (auto simp: meraki_decoder_def meraki_decode_def strcmp0_def zz_decoder_def split: option.splits if_splits)
    from zz.decodes [OF that(1) this] show ?thesis .
  qed
  show "zz_idle Z E ext w'" if "zz_busy Z E ext w s" "vfree_zz_session s w = r_return w'" for w s w'
    using zz.closes [OF that] .
qed

section \<open>Properties\<close>

text \<open>The topic a session is opened for.\<close>

definition meraki_topic :: "string option \<Rightarrow> bytes option \<Rightarrow> string" where
  "meraki_topic default_topic_name listener_opaque =
     (case listener_opaque of
        Some b \<Rightarrow> c_string b
      | None \<Rightarrow> (case default_topic_name of Some topic \<Rightarrow> topic | None \<Rightarrow> []))"

lemma meraki_vars:
  "valueof (meraki_session_vars dt opaque vars) ''D-HTTP-URI'' strcmp0 = Some (''/v1/data/'' @ meraki_topic dt opaque)"
  "valueof (meraki_session_vars dt opaque vars) ''X-Consumer-ID'' strcasecmp0 = None"
  "valueof (meraki_session_vars dt opaque vars) ''Content-type'' strcasecmp0 = None"
  by (simp_all add: meraki_session_vars_def Let_def meraki_topic_def meraki_topic_prefix_def add_key_value_pair_def
      keyval_list_init_def strcmp0_def strcasecmp0_def tolower_def)

text \<open>C13: an admitted JSON POST request to a Meraki listener that opens a session is answered with exactly one
  200, and librdkafka is handed exactly the outermost objects of the body, byte for byte and in order, on the
  topic of the listener or, without one, of the configuration, whatever the URL and the headers say;
  afterwards every topic has the references it had before.\<close>

theorem meraki_json_request:
  fixes env :: "'z http_env" and Z :: "('h, 'l, 'y, 'x, 'g) zz_libs"
  assumes "plain_post env hl con client" and "props = request_props con ''POST'' url (Some client)"
    and "li_decoder (hl_listener hl) = meraki_decoder J calloc_ok Z dt"
    and "valueof props ''D-HTTP-method'' strcmp0 = Some ''POST''"
    and "zz_libs_ok Z E" and "\<And>p. ext p + 3 < 2 ^ 64" and "topics_held Z E ext w"
    and "new_meraki_session Z dt (li_decoder_opaque (hl_listener hl)) props w = r_return (0, Some s, w1)"
    and "\<And>h. zl_yajl_alloc Z (zw_calls w) = Some h \<Longrightarrow> yajl_stream (zl_yajl_parse Z) h (concat cs) evs"
    and "\<forall>c \<in> set cs. c \<noteq> []" and "zz_provides Z cs" and "16 + 72 * length (concat cs) \<le> 2 ^ 31"
    and "set (meraki_topic dt (li_decoder_opaque (hl_listener hl))) \<inter> set url_specials = {}"
  shows "\<exists>rkt w'. post_request env hl con url cs w =
      r_return \<lparr>hs_ptr = Cls_null, hs_replies = [accepted_reply], hs_world = w'\<rparr> \<and>
    rd_kafka_topic_name (zl_rdkafka Z) rkt = meraki_topic dt (li_decoder_opaque (hl_listener hl)) \<and>
    zw_handed w' = zw_handed w @ map (\<lambda>r. (rkt, slice (concat cs) r)) (ob_done (objects evs)) \<and>
    topics_held Z E ext w'"
proof -
  let ?opaque = "li_decoder_opaque (hl_listener hl)"
  let ?topic = "meraki_topic dt ?opaque"
  have idle: "zz_idle Z E ext w" using assms(5-7) by (simp add: zz_idle_def)
  have dec: "decodes_with_zz (hl_listener hl) props Z"
    using assms(3,4) by (simp add: decodes_with_zz_def listener_decode_def meraki_decoder_def meraki_decode_def strcmp0_def)
  have new: "dec_new_session (li_decoder (hl_listener hl)) = Some (new_meraki_session Z dt)"
    using assms(3) by (simp add: meraki_decoder_def)
  have xml: "\<not> is_xml_content_type (valueof (meraki_session_vars dt ?opaque props) ''Content-type'' strcasecmp0)"
    by (simp add: meraki_vars is_xml_content_type_def)
  from http_json_request_run [OF assms(1,2) dec assms(4) new new_meraki_session_def meraki_vars(1) xml idle
      assms(8) [unfolded new_meraki_session_def] assms(9-12)]
  obtain rkt topic w' where run: "post_request env hl con url cs w =
      r_return \<lparr>hs_ptr = Cls_null, hs_replies = [accepted_reply], hs_world = w'\<rparr>" "extract_url_topic (''/v1/data/'' @ ?topic) = Some topic"
    "rd_kafka_topic_name (zl_rdkafka Z) rkt = topic"
    "zw_handed w' = zw_handed w @ map (\<lambda>r. (rkt, slice (concat cs) r)) (ob_done (objects evs))" "zz_idle Z E ext w'"
    by (auto simp: meraki_vars make_uuid_topic_def)
  have "takeWhile (\<lambda>c. c \<notin> set url_specials) ?topic = ?topic" using assms(13) by (auto simp: takeWhile_eq_all_conv)
  then have "topic = ?topic"
    using run(2) by (auto simp: extract_url_topic_def valid_prefix_str_def Let_def strcspn_def takeWhile_eq_take [symmetric] split: if_splits)
  with run show ?thesis by (auto simp: zz_idle_def)
qed

text \<open>What libmicrohttpd does for a GET request that is not interrupted.\<close>

definition get_request ::
  "'z http_env \<Rightarrow> ('w, 'j, 'o, 's) http_listener \<Rightarrow> mhd_connection \<Rightarrow> string \<Rightarrow> 'w \<Rightarrow> ('w, 'z, 's) http_state c_run" where
  "get_request env hl con url w =
     r_bind (handle_request env hl con url ''GET'' [] \<lparr>hs_ptr = Cls_null, hs_replies = [], hs_world = w\<rparr>) (\<lambda>(_, st1).
       r_bind (handle_request env hl con url ''GET'' [] st1) (\<lambda>(_, st2). request_completed hl st2))"

lemma handle_get_props:
  "snd (decoder_opts con http_method uri client (Some (zeroed_conn_info z))) = Some ci \<Longrightarrow>
     ci_decoder_params ci = request_props con http_method uri client"
  by (auto simp: decoder_opts_def Let_def fold_args_iterator foldl_add_pair keyval_list_init_def zeroed_conn_info_def
      request_props_def)

lemma get_request_decodes:
  fixes env :: "'z http_env" and hl :: "('w, 'j, 'o, 's) http_listener"
  assumes "props = request_props con ''GET'' url (client_addr env con)"
  shows "get_request env hl con url w =
    r_bind (listener_decode (hl_listener hl) [] props (Some no_response) None w) (\<lambda>(rc, response, _, w1).
      let resp = (case response of Some r \<Rightarrow> r | None \<Rightarrow> no_response)
      in r_return \<lparr>hs_ptr = Cls_null, hs_replies =
           snd (if rc = DECODER_CALLBACK_HTTP_METHOD_NOT_ALLOWED
                then send_http_method_not_allowed_allow_post (env_responses env) (mhd_replies.truncate con) []
                else send_buffered_response (mhd_replies.truncate con) (snd resp) (fst resp) (decoder_err2http rc) []), hs_world = w1\<rparr>)"
proof -
  obtain ci :: "('z, 's) conn_info" where ci: "snd (decoder_opts con ''GET'' url (client_addr env con)
      (Some (zeroed_conn_info (z_zero (env_zlib env))))) = Some ci" by (simp add: decoder_opts_def)
  note props = handle_get_props [OF ci, folded assms]
  show ?thesis
    using ci props
    by (auto simp: get_request_def handle_request_def strcmp0_def handle_get_def Let_def reply_with_def request_completed_def
        r_bind_def split: option.splits sum.splits prod.splits)
qed

text \<open>C31: the validation request of Meraki: a GET request below the prefix is answered with 200 and the text
  behind the prefix and its separator, which is the validator; any other URL with 404; and a URL that is
  exactly the prefix makes the decoder read behind the end of the URL.\<close>

theorem meraki_get_request:
  fixes env :: "'z http_env" and Z :: "('h, 'l, 'y, 'x, 'g) zz_libs"
  assumes "props = request_props con ''GET'' url (client_addr env con)"
    and "li_decoder (hl_listener hl) = meraki_decoder J calloc_ok Z dt"
    and "valueof props ''D-HTTP-method'' strcmp0 = Some ''GET''" and "valueof props ''D-HTTP-URI'' strcmp0 = Some uri"
    and "mhd_create_ok con" and "mhd_queue_ok con = (\<lambda>_. True)"
  shows "get_request env hl con url w =
    (if uri = ''/v1/meraki'' then Some (Inl OutOfBounds)
     else let reply = (if take 10 uri = ''/v1/meraki''
                       then \<lparr>reply_code = 200, reply_response = \<lparr>resp_body = drop 11 uri, resp_headers = []\<rparr>\<rparr>
                       else \<lparr>reply_code = 404, reply_response = \<lparr>resp_body = [], resp_headers = []\<rparr>\<rparr>)
          in r_return \<lparr>hs_ptr = Cls_null, hs_replies = [reply], hs_world = w\<rparr>)"
proof -
  let ?ok = "take 10 uri = ''/v1/meraki''"
  have v: "url_validator uri = (if uri = ''/v1/meraki'' then Inl OutOfBounds else if ?ok then Inr (Some (drop 11 uri)) else Inr None)"
  proof -
    have "uri = ''/v1/meraki'' \<longleftrightarrow> ?ok \<and> length uri < 11"
      using take_all [of uri 10] by (auto simp del: take_all take_all_iff)
    moreover have "strncmp0 meraki_prefix uri (length meraki_prefix) \<longleftrightarrow> ?ok" "length meraki_prefix + 1 = 11"
      by (auto simp: strncmp0_def meraki_prefix_def eval_nat_numeral)
    ultimately show ?thesis unfolding url_validator_def by (simp only: if_split) argo
  qed
  have d: "listener_decode (hl_listener hl) [] props (Some no_response) None w =
      (if uri = ''/v1/meraki'' then Some (Inl OutOfBounds)
       else if ?ok then r_return (DECODER_CALLBACK_OK, Some (Some (drop 11 uri), length (drop 11 uri)), None, w)
       else r_return (DECODER_CALLBACK_RESOURCE_NOT_FOUND, Some (None, 0), None, w))"
    using assms(2-4) v
    by (simp add: listener_decode_def meraki_decoder_def meraki_decode_def strcmp0_def run_r_def no_response_def)
  show ?thesis
    unfolding get_request_decodes [OF assms(1)] d using assms(5,6)
    by (simp add: send_buffered_response_def MHD_create_response_from_buffer_def MHD_queue_response_def mhd_replies.truncate_def
        http_codes)
qed

section \<open>Witnesses\<close>

definition demo_meraki ::
  "(((addr \<times> tommy_hash_t) list, addr list) zz_world, json, bytes option, (unit, unit, gen_level list) zz_any_session) http_listener" where
  "demo_meraki = \<lparr>hl_listener = \<lparr>li_decoder = meraki_decoder (json_values (\<lambda>_. None)) True demo_libs None,
       li_decoder_opaque = Some (''t'' @ [NUL]), li_port = 80\<rparr>,
     hl_htpasswd = None, hl_client_tls_cert = False\<rparr>"

lemma demo_meraki_post: "plain_post log_env demo_meraki demo_con ''::1''"
  by (auto simp: plain_post_def request_admitted_def client_addr_def sockaddr2str_def demo_con_def plain_con_def
      demo_meraki_def log_env_def compressed_request_def)

theorem meraki_json_request_witness:
  "\<exists>rkt w'. post_request log_env demo_meraki demo_con ''/any'' [''{a}{'', ''b}''] demo_world =
      r_return \<lparr>hs_ptr = Cls_null, hs_replies = [accepted_reply], hs_world = w'\<rparr> \<and>
    zw_handed w' = [(rkt, ''{a}''), (rkt, ''{b}'')]"
proof -
  let ?props = "request_props demo_con ''POST'' ''/any'' (Some ''::1'')"
  have dec: "li_decoder (hl_listener demo_meraki) = meraki_decoder (json_values (\<lambda>_. None)) True demo_libs None"
    and opaque: "li_decoder_opaque (hl_listener demo_meraki) = Some (''t'' @ [NUL])" by (simp_all add: demo_meraki_def)
  have topic: "meraki_topic None (Some (''t'' @ [NUL])) = ''t''" by (simp add: meraki_topic_def c_string_def)
  have post: "valueof ?props ''D-HTTP-method'' strcmp0 = Some ''POST''"
    by (simp add: request_props_def demo_con_def listener_options_def strcmp0_def)
  obtain s w1 where o: "new_meraki_session demo_libs None (Some (''t'' @ [NUL])) ?props demo_world = r_return (0, Some s, w1)"
    using demo_opens [of "meraki_session_vars None (Some (''t'' @ [NUL])) ?props"] topic
    by (auto simp: new_meraki_session_def meraki_vars)
  have y: "yajl_stream (zl_yajl_parse demo_libs) h (concat [''{a}{'', ''b}'']) (brace_events 0 ''{a}{b}'')" for h
    using brace_stream [of "''{a}{b}''"] by (simp add: demo_libs_def)
  from meraki_json_request [OF demo_meraki_post refl dec post demo_libs_ok _ demo_topics_held _ y _ demo_provides, of s w1]
    o opaque topic show ?thesis
    by (simp add: demo_world_def objects_def slice_def url_specials_def) blast
qed

theorem meraki_get_request_witness:
  "get_request log_env demo_meraki demo_con ''/v1/meraki/abc'' demo_world =
     r_return \<lparr>hs_ptr = Cls_null, hs_replies = [\<lparr>reply_code = 200, reply_response = \<lparr>resp_body = ''abc'', resp_headers = []\<rparr>\<rparr>],
       hs_world = demo_world\<rparr>"
proof -
  have lookup: "valueof (request_props demo_con ''GET'' ''/v1/meraki/abc'' c) ''D-HTTP-method'' strcmp0 = Some ''GET''"
    "valueof (request_props demo_con ''GET'' ''/v1/meraki/abc'' c) ''D-HTTP-URI'' strcmp0 = Some ''/v1/meraki/abc''" for c
    by (simp_all add: request_props_def demo_con_def listener_options_def strcmp0_def)
  have "li_decoder (hl_listener demo_meraki) = meraki_decoder (json_values (\<lambda>_. None)) True demo_libs None"
    by (simp add: demo_meraki_def)
  from meraki_get_request [OF refl this lookup] show ?thesis by (simp add: demo_con_def plain_con_def)
qed

end
