(* ===== verification/Http_Config.thy ===== *)
theory Http_Config
  imports Http_Request Jansson
begin

text \<open>
  The configuration and the start of a HTTP listener (\<^verbatim>\<open>src/listener/http/http_config.c\<close>,
  \<^verbatim>\<open>src/util/n2k_config_x.h\<close>, \<^verbatim>\<open>src/util/file.c\<close>): the options with their defaults, the environment and the
  configuration file; the block of secrets that is read from the key, certificate, authority and password
  files; starting and stopping the daemon. The file system, the environment and libmicrohttpd are
  parameters.
\<close>

section \<open>Options\<close>

record http_loop_args =
  ha_port :: int
  ha_num_threads :: int
  ha_connection_memory_limit :: int
  ha_connection_limit :: int
  ha_connection_timeout :: int
  ha_per_ip_connection_limit :: int
  ha_mode :: "string option"
  ha_https_key_filename :: "string option"
  ha_https_cert_filename :: "string option"
  ha_https_key_password :: "string option"
  ha_https_clients_ca_filename :: "string option"
  ha_htpasswd_filename :: "string option"

definition http_defaults :: http_loop_args where
  "http_defaults = \<lparr>ha_port = 0, ha_num_threads = 1, ha_connection_memory_limit = 128 * 1024, ha_connection_limit = 1024,
     ha_connection_timeout = 30, ha_per_ip_connection_limit = 0, ha_mode = Some ''poll'', ha_https_key_filename = None,
     ha_https_cert_filename = None, ha_https_key_password = None, ha_https_clients_ca_filename = None,
     ha_htpasswd_filename = None\<rparr>"

text \<open>A variable of the environment overrides an option if it is set.\<close>

definition env_override :: "(string \<Rightarrow> string option) \<Rightarrow> string \<Rightarrow> string option \<Rightarrow> string option" where
  "env_override getenv env_name old = (case getenv env_name of Some env_val \<Rightarrow> Some env_val | None \<Rightarrow> old)"

definition http_environ :: "(string \<Rightarrow> string option) \<Rightarrow> http_loop_args \<Rightarrow> http_loop_args" where
  "http_environ getenv a = a\<lparr>
     ha_https_key_filename := env_override getenv ''HTTP_TLS_KEY_FILE'' (ha_https_key_filename a),
     ha_https_cert_filename := env_override getenv ''HTTP_TLS_CERT_FILE'' (ha_https_cert_filename a),
     ha_https_key_password := env_override getenv ''HTTP_TLS_KEY_PASSWORD'' (ha_https_key_password a),
     ha_https_clients_ca_filename := env_override getenv ''HTTP_TLS_CLIENT_CA_FILE'' (ha_https_clients_ca_filename a),
     ha_htpasswd_filename := env_override getenv ''HTTP_HTPASSWD_FILE'' (ha_htpasswd_filename a)\<rparr>"

definition http_unpack_format :: "unpack_item list" where
  "http_unpack_format =
     [Unpack_i ''port'' False, Unpack_i ''num_threads'' True, Unpack_i ''connection_memory_limit'' True,
      Unpack_i ''connection_limit'' True, Unpack_i ''connection_timeout'' True, Unpack_i ''per_ip_connection_limit'' True,
      Unpack_s ''mode'' True, Unpack_s ''https_key_filename'' True, Unpack_s ''https_cert_filename'' True,
      Unpack_s ''https_key_password'' True, Unpack_s ''https_clients_ca_filename'' True, Unpack_s ''htpasswd_filename'' True]"

definition http_unpack_args :: "'j unpacked option list \<Rightarrow> http_loop_args \<Rightarrow> http_loop_args" where
  "http_unpack_args us a = \<lparr>
     ha_port = set_int (unpacked_at us 0) (ha_port a),
     ha_num_threads = set_int (unpacked_at us 1) (ha_num_threads a),
     ha_connection_memory_limit = set_int (unpacked_at us 2) (ha_connection_memory_limit a),
     ha_connection_limit = set_int (unpacked_at us 3) (ha_connection_limit a),
     ha_connection_timeout = set_int (unpacked_at us 4) (ha_connection_timeout a),
     ha_per_ip_connection_limit = set_int (unpacked_at us 5) (ha_per_ip_connection_limit a),
     ha_mode = set_string (unpacked_at us 6) (ha_mode a),
     ha_https_key_filename = set_string (unpacked_at us 7) (ha_https_key_filename a),
     ha_https_cert_filename = set_string (unpacked_at us 8) (ha_https_cert_filename a),
     ha_https_key_password = set_string (unpacked_at us 9) (ha_https_key_password a),
     ha_https_clients_ca_filename = set_string (unpacked_at us 10) (ha_https_clients_ca_filename a),
     ha_htpasswd_filename = set_string (unpacked_at us 11) (ha_htpasswd_filename a)\<rparr>"

section \<open>Files\<close>

text \<open>An open file: what is left of it and how the calls that position it answer.\<close>

record secret_file = auth_stream +
  sf_tell_ok :: bool
  sf_seek_end_ok :: bool
  sf_end :: int
  sf_restore_ok :: bool

definition file_size :: "secret_file \<Rightarrow> int" where
  "file_size fp =
     (if \<not> sf_tell_ok fp then -1
      else if \<not> sf_seek_end_ok fp then -1
      else if \<not> sf_restore_ok fp then -1
      else sf_end fp)"

record http_os =
  os_getenv :: "string \<Rightarrow> string option"
  os_stat_mode :: "string \<Rightarrow> 32 word option"
  os_fopen :: "string \<Rightarrow> secret_file option"
  os_file_read :: "string \<Rightarrow> string option"
  os_calloc_ok :: "nat \<Rightarrow> bool"
  os_deep_copy_ok :: bool
  os_create_response_ok :: bool

definition S_IWOTH :: "32 word" where "S_IWOTH = 2"
definition S_IROTH :: "32 word" where "S_IROTH = 4"

section \<open>The block of secrets\<close>

datatype secret_kind = KEY_FILE | CERT_FILE | CLIENT_CA_TRUST | HTPASSWD

record secret_slot =
  ss_kind :: secret_kind
  ss_filename :: "string option"
  ss_file :: "secret_file option"
  ss_filesize :: nat
  ss_mem :: "nat option"

definition secret_slot_of :: "secret_kind \<Rightarrow> string option \<Rightarrow> secret_slot" where
  "secret_slot_of kind filename = \<lparr>ss_kind = kind, ss_filename = filename, ss_file = None, ss_filesize = 0, ss_mem = None\<rparr>"

definition secret_files :: "http_loop_args \<Rightarrow> secret_slot list" where
  "secret_files a =
     [secret_slot_of KEY_FILE (ha_https_key_filename a), secret_slot_of CERT_FILE (ha_https_cert_filename a),
      secret_slot_of CLIENT_CA_TRUST (ha_https_clients_ca_filename a), secret_slot_of HTPASSWD (ha_htpasswd_filename a)]"

text \<open>The permissions of the private key.\<close>

definition key_file_ok :: "http_os \<Rightarrow> string \<Rightarrow> bool" where
  "key_file_ok os filename =
     (case os_stat_mode os filename of
        None \<Rightarrow> False
      | Some st_mode \<Rightarrow> st_mode AND (S_IWOTH OR S_IROTH) = 0)"

definition file_size_callback :: "secret_kind \<Rightarrow> secret_file \<Rightarrow> int c_result" where
  "file_size_callback kind f =
     (if kind = HTPASSWD then c_bind (htpasswd_size (auth_stream.truncate f)) (\<lambda>n. Inr (int n)) else Inr (file_size f))"

text \<open>Opening the files: whether all could be opened and measured, and the slots as they are then.\<close>

fun open_secrets :: "http_os \<Rightarrow> secret_slot list \<Rightarrow> (bool \<times> secret_slot list) c_result" where
  "open_secrets os [] = Inr (True, [])"
| "open_secrets os (s # ss) =
     (case ss_filename s of
        None \<Rightarrow> c_bind (open_secrets os ss) (\<lambda>(ok, ss'). Inr (ok, s # ss'))
      | Some filename \<Rightarrow>
          if ss_kind s = KEY_FILE \<and> \<not> key_file_ok os filename then Inr (False, s # ss)
          else case os_fopen os filename of
                 None \<Rightarrow> Inr (False, s # ss)
               | Some f \<Rightarrow>
                   c_bind (file_size_callback (ss_kind s) f) (\<lambda>t_file_size.
                     if t_file_size = -1 then Inr (False, s\<lparr>ss_file := Some f\<rparr> # ss)
                     else c_bind (open_secrets os ss) (\<lambda>(ok, ss').
                            Inr (ok, s\<lparr>ss_file := Some f, ss_filesize := nat t_file_size\<rparr> # ss'))))"

text \<open>Every file has a terminator behind it.\<close>

fun tls_files_size :: "secret_slot list \<Rightarrow> nat" where
  "tls_files_size [] = 0"
| "tls_files_size (s # ss) = (if ss_filename s = None then 0 else ss_filesize s + 1) + tls_files_size ss"

text \<open>Reading a file at the cursor: how many bytes, and the block then.\<close>

definition file_read_callback :: "secret_kind \<Rightarrow> bytes \<Rightarrow> nat \<Rightarrow> nat \<Rightarrow> secret_file \<Rightarrow> (nat \<times> bytes) c_result" where
  "file_read_callback kind block cursor filesize f =
     (if length block < cursor + filesize then Inl OutOfBounds
      else if kind = HTPASSWD
      then c_bind (htpasswd_fread (drop cursor block) 1 filesize (auth_stream.truncate f)) (\<lambda>(readed, d).
             Inr (readed, take cursor block @ d))
      else let d = take filesize (st_content f) in Inr (length d, memcpy_at block cursor d))"

fun read_secrets :: "nat \<Rightarrow> bytes \<Rightarrow> secret_slot list \<Rightarrow> (bool \<times> secret_slot list \<times> bytes) c_result" where
  "read_secrets cursor block [] = Inr (True, [], block)"
| "read_secrets cursor block (s # ss) =
     (if ss_filename s = None
      then c_bind (read_secrets cursor block ss) (\<lambda>(ok, ss', block'). Inr (ok, s # ss', block'))
      else case ss_file s of
             None \<Rightarrow> Inl NullDeref
           | Some f \<Rightarrow>
               let s1 = s\<lparr>ss_mem := Some cursor\<rparr>
               in c_bind (file_read_callback (ss_kind s) block cursor (ss_filesize s) f) (\<lambda>(readed, block1).
                    if readed < ss_filesize s then Inr (False, s1 # ss, block1)
                    else c_bind (read_secrets (cursor + ss_filesize s + 1) block1 ss) (\<lambda>(ok, ss', block').
                           Inr (ok, s1 # ss', block'))))"

text \<open>The pointer a slot has into the block, as the bytes from there on.\<close>

definition slot_mem :: "secret_kind \<Rightarrow> secret_slot list \<Rightarrow> bytes \<Rightarrow> bytes option" where
  "slot_mem kind ss block =
     (case filter (\<lambda>s. ss_kind s = kind) ss of
        [] \<Rightarrow> None
      | s # _ \<Rightarrow> map_option (\<lambda>off. drop off block) (ss_mem s))"

section \<open>The daemon\<close>

datatype mhd_flag = MHD_USE_THREAD_PER_CONNECTION | MHD_USE_SELECT_INTERNALLY | MHD_USE_POLL_INTERNALLY
  | MHD_USE_EPOLL_INTERNALLY_LINUX_ONLY | MHD_USE_DEBUG | MHD_USE_TLS

datatype mhd_option =
    MHD_OPTION_NOTIFY_COMPLETED
  | MHD_OPTION_NONCE_NC_SIZE int
  | MHD_OPTION_CONNECTION_LIMIT int
  | MHD_OPTION_PER_IP_CONNECTION_LIMIT int
  | MHD_OPTION_CONNECTION_TIMEOUT int
  | MHD_OPTION_CONNECTION_MEMORY_LIMIT int
  | MHD_OPTION_THREAD_POOL_SIZE int
  | MHD_OPTION_HTTPS_MEM_KEY "bytes option"
  | MHD_OPTION_HTTPS_MEM_CERT "bytes option"
  | MHD_OPTION_HTTPS_KEY_PASSWORD "string option"
  | MHD_OPTION_HTTPS_MEM_TRUST "bytes option"
  | MHD_OPTION_END

record mhd_daemon =
  md_flags :: "mhd_flag list"
  md_port :: "16 word"
  md_options :: "mhd_option list"

definition http_mode_flag :: "string option \<Rightarrow> mhd_flag option" where
  "http_mode_flag mode =
     (case mode of
        None \<Rightarrow> Some MHD_USE_THREAD_PER_CONNECTION
      | Some m \<Rightarrow>
          if strcmp0 ''thread_per_connection'' m then Some MHD_USE_THREAD_PER_CONNECTION
          else if strcmp0 ''select'' m then Some MHD_USE_SELECT_INTERNALLY
          else if strcmp0 ''poll'' m then Some MHD_USE_POLL_INTERNALLY
          else if strcmp0 ''epoll'' m then Some MHD_USE_EPOLL_INTERNALLY_LINUX_ONLY
          else None)"

definition http_daemon_options :: "http_loop_args \<Rightarrow> mhd_flag list \<Rightarrow> secret_slot list \<Rightarrow> bytes \<Rightarrow> mhd_option list" where
  "http_daemon_options a flags ss block =
     [MHD_OPTION_NOTIFY_COMPLETED, MHD_OPTION_NONCE_NC_SIZE 0, MHD_OPTION_CONNECTION_LIMIT (ha_connection_limit a),
      MHD_OPTION_PER_IP_CONNECTION_LIMIT (ha_per_ip_connection_limit a), MHD_OPTION_CONNECTION_TIMEOUT (ha_connection_timeout a),
      MHD_OPTION_CONNECTION_MEMORY_LIMIT (ha_connection_memory_limit a), MHD_OPTION_THREAD_POOL_SIZE (ha_num_threads a),
      if MHD_USE_TLS \<in> set flags then MHD_OPTION_HTTPS_MEM_KEY (slot_mem KEY_FILE ss block) else MHD_OPTION_END,
      MHD_OPTION_HTTPS_MEM_CERT (slot_mem CERT_FILE ss block), MHD_OPTION_HTTPS_KEY_PASSWORD (ha_https_key_password a),
      if ha_https_clients_ca_filename a \<noteq> None then MHD_OPTION_HTTPS_MEM_TRUST (slot_mem CLIENT_CA_TRUST ss block) else MHD_OPTION_END,
      MHD_OPTION_END]"

text \<open>A running listener; its daemon refers to the block.\<close>

record ('w, 'j, 'o, 's) http_daemon_listener = "('w, 'j, 'o, 's) http_listener" +
  hd_daemon :: mhd_daemon
  hd_tls_data :: bytes

text \<open>
  What starting returns: a null pointer, a listener that is still zero except for its block (no decoder,
  port, daemon or functions), or a running one.
\<close>

datatype ('w, 'j, 'o, 's) http_loop =
    Loop_null
  | Loop_zeroed bytes
  | Loop_running "('w, 'j, 'o, 's) http_daemon_listener"

record ('w, 'j, 'o, 's) start_result =
  sr_loop :: "('w, 'j, 'o, 's) http_loop"
  sr_responses :: http_responses
  sr_world :: 'w
  sr_open_files :: "secret_kind list"

definition open_files :: "secret_slot list \<Rightarrow> secret_kind list" where
  "open_files ss = map ss_kind (filter (\<lambda>s. ss_file s \<noteq> None) ss)"

text \<open>
  From the allocated listener to the daemon. \<open>start_ok\<close> tells whether libmicrohttpd starts a daemon, and
  \<open>o0\<close> is the zeroed opaque value.
\<close>

definition start_listener ::
  "http_os \<Rightarrow> (mhd_daemon \<Rightarrow> bool) \<Rightarrow> 'o \<Rightarrow> http_loop_args \<Rightarrow> mhd_flag list \<Rightarrow> secret_slot list \<Rightarrow> bytes
   \<Rightarrow> ('w, 'j, 'o, 's) n2k_decoder \<Rightarrow> 'j \<Rightarrow> http_responses \<Rightarrow> 'w \<Rightarrow> ('w, 'j, 'o, 's) start_result c_run" where
  "start_listener os start_ok o0 a flags ss block decoder decoder_conf responses w =
     r_bind (listener_init o0 (ha_port a) decoder decoder_conf w) (\<lambda>(listener_init_rc, li, w1).
       if listener_init_rc \<noteq> 0
       then r_return \<lparr>sr_loop = Loop_null, sr_responses = responses, sr_world = w1, sr_open_files = open_files ss\<rparr>
       else let responses1 = snd (responses_listener_counter_incref (os_create_response_ok os) responses);
                d = \<lparr>md_flags = flags, md_port = word_of_int (ha_port a), md_options = http_daemon_options a flags ss block\<rparr>
            in if \<not> start_ok d
               then r_bind (listener_join li w1) (\<lambda>w2.
                      r_return \<lparr>sr_loop = Loop_null, sr_responses = responses_listener_counter_decref responses1, sr_world = w2,
                                sr_open_files = open_files ss\<rparr>)
               else r_return \<lparr>sr_loop = Loop_running \<lparr>hl_listener = li,
                        hl_htpasswd = (if ha_htpasswd_filename a \<noteq> None then slot_mem HTPASSWD ss block else None),
                        hl_client_tls_cert = ((MHD_USE_TLS \<in> set flags \<or> ha_htpasswd_filename a \<noteq> None) \<and>
                                              ha_https_clients_ca_filename a \<noteq> None),
                        hd_daemon = d, hd_tls_data = block\<rparr>,
                      sr_responses = responses1, sr_world = w1, sr_open_files = []\<rparr>)"

text \<open>
  The files and the memory of a listener: opening them fails (some files may stay open), reading them
  fails, or the slots and the block are there.
\<close>

datatype secrets_loaded =
    Load_failed "secret_kind list"
  | Load_zeroed bytes
  | Load_done "secret_slot list" bytes

definition load_secrets :: "http_os \<Rightarrow> nat \<Rightarrow> http_loop_args \<Rightarrow> bool \<Rightarrow> secrets_loaded c_result" where
  "load_secrets os sizeof_listener a secrets =
     c_bind (if secrets then open_secrets os (secret_files a) else Inr (True, secret_files a)) (\<lambda>(ok, ss).
       if \<not> ok then Inr (Load_failed [])
       else let files_size = (if secrets then tls_files_size ss else 0)
            in if \<not> os_calloc_ok os (sizeof_listener + files_size) then Inr (Load_failed (open_files ss))
               else c_bind (if secrets then read_secrets 0 (replicate files_size NUL) ss else Inr (True, ss, [])) (\<lambda>(ok, ss1, block).
                      if \<not> ok then Inr (Load_zeroed block) else Inr (Load_done ss1 block)))"

definition start_http_loop ::
  "http_os \<Rightarrow> (mhd_daemon \<Rightarrow> bool) \<Rightarrow> nat \<Rightarrow> 'o \<Rightarrow> http_loop_args \<Rightarrow> ('w, 'j, 'o, 's) n2k_decoder \<Rightarrow> 'j
   \<Rightarrow> http_responses \<Rightarrow> 'w \<Rightarrow> ('w, 'j, 'o, 's) start_result c_run" where
  "start_http_loop os start_ok sizeof_listener o0 a decoder decoder_conf responses w =
     (let failed = \<lparr>sr_loop = Loop_null, sr_responses = responses, sr_world = w, sr_open_files = []\<rparr>
      in case http_mode_flag (ha_mode a) of
           None \<Rightarrow> r_return failed
         | Some mode_flag \<Rightarrow>
             if (ha_https_key_filename a = None) \<noteq> (ha_https_cert_filename a = None) then r_return failed
             else if ha_https_key_filename a = None \<and> ha_https_clients_ca_filename a \<noteq> None then r_return failed
             else let flags = [mode_flag, MHD_USE_DEBUG] @ (if ha_https_key_filename a \<noteq> None then [MHD_USE_TLS] else [])
                  in r_bind (run_r (load_secrets os sizeof_listener a (MHD_USE_TLS \<in> set flags \<or> ha_htpasswd_filename a \<noteq> None)))
                       (\<lambda>loaded.
                          case loaded of
                            Load_failed files \<Rightarrow> r_return (failed\<lparr>sr_open_files := files\<rparr>)
                          | Load_zeroed block \<Rightarrow> r_return (failed\<lparr>sr_loop := Loop_zeroed block\<rparr>)
                          | Load_done ss block \<Rightarrow> start_listener os start_ok o0 a flags ss block decoder decoder_conf responses w))"

section \<open>Creating and stopping a listener\<close>

definition http_args :: "http_os \<Rightarrow> 'j jansson \<Rightarrow> 'j \<Rightarrow> http_loop_args option" where
  "http_args os J config =
     (case json_unpack_ex J config http_unpack_format of
        (ok, us) \<Rightarrow>
          let a = http_unpack_args us (http_environ (os_getenv os) http_defaults)
          in if \<not> ok then None
             else (case ha_https_key_password a of
                     Some pw \<Rightarrow> if pw \<noteq> [] \<and> hd pw = CHR ''@'' then Some (a\<lparr>ha_https_key_password := os_file_read os (tl pw)\<rparr>)
                                else Some a
                   | None \<Rightarrow> Some a))"

definition create_http_listener0 ::
  "http_os \<Rightarrow> (mhd_daemon \<Rightarrow> bool) \<Rightarrow> nat \<Rightarrow> 'o \<Rightarrow> 'j jansson \<Rightarrow> 'j \<Rightarrow> ('w, 'j, 'o, 's) n2k_decoder
   \<Rightarrow> http_responses \<Rightarrow> 'w \<Rightarrow> ('w, 'j, 'o, 's) start_result c_run" where
  "create_http_listener0 os start_ok sizeof_listener o0 J t_config decoder responses w =
     (let failed = \<lparr>sr_loop = Loop_null, sr_responses = responses, sr_world = w, sr_open_files = []\<rparr>
      in if \<not> os_deep_copy_ok os then r_return failed
         else case http_args os J t_config of
                None \<Rightarrow> r_return failed
              | Some handler_args \<Rightarrow> start_http_loop os start_ok sizeof_listener o0 handler_args decoder t_config responses w)"

definition http_listener_scrub_tls_data :: "bytes \<Rightarrow> bytes" where
  "http_listener_scrub_tls_data block = replicate (length block) NUL"

text \<open>Stopping leaves the memory it frees, the replies and the world.\<close>

definition break_http_loop ::
  "('w, 'j, 'o, 's) http_daemon_listener \<Rightarrow> http_responses \<Rightarrow> 'w \<Rightarrow> (bytes \<times> http_responses \<times> 'w) c_run" where
  "break_http_loop hl responses w =
     r_bind (listener_join (hl_listener hl) w) (\<lambda>w1.
       r_return (if length (hd_tls_data hl) > 0 then http_listener_scrub_tls_data (hd_tls_data hl) else hd_tls_data hl,
                 responses_listener_counter_decref responses, w1))"

section \<open>Opening and reading the secrets\<close>

text \<open>A slot and what opening makes of it.\<close>

definition slot_opened :: "http_os \<Rightarrow> secret_slot \<Rightarrow> secret_slot \<Rightarrow> bool" where
  "slot_opened os s s' \<longleftrightarrow>
     (case ss_filename s of
        None \<Rightarrow> s' = s
      | Some filename \<Rightarrow> (ss_kind s = KEY_FILE \<longrightarrow> key_file_ok os filename) \<and>
          (\<exists>f n. os_fopen os filename = Some f \<and> file_size_callback (ss_kind s) f = Inr n \<and> n \<noteq> -1 \<and>
             s' = s\<lparr>ss_file := Some f, ss_filesize := nat n\<rparr>))"

lemma open_secrets_opened: "open_secrets os ss = Inr (True, ss') \<Longrightarrow> list_all2 (slot_opened os) ss ss'"
proof (induction ss arbitrary: ss')
  case (Cons s ss)
  show ?case
  proof (cases "ss_filename s")
    case None
    with Cons show ?thesis by (auto simp: c_bind_Inr_iff slot_opened_def)
  next
    case (Some filename)
    with Cons.prems obtain f n where f: "ss_kind s = KEY_FILE \<longrightarrow> key_file_ok os filename" "os_fopen os filename = Some f"
      "file_size_callback (ss_kind s) f = Inr n" "n \<noteq> -1"
      "c_bind (open_secrets os ss) (\<lambda>(ok, ss'). Inr (ok, s\<lparr>ss_file := Some f, ss_filesize := nat n\<rparr> # ss')) = Inr (True, ss')"
      by (auto simp: c_bind_Inr_iff split: if_splits option.splits)
    from f(5) obtain ss1 where "open_secrets os ss = Inr (True, ss1)" "ss' = s\<lparr>ss_file := Some f, ss_filesize := nat n\<rparr> # ss1"
      by (auto simp: c_bind_Inr_iff)
    with Cons.IH Some f(1-4) show ?thesis by (auto simp: slot_opened_def)
  qed
qed simp

text \<open>Reading the secrets stays inside the block that was allocated for them.\<close>

lemma file_read_callback_safe:
  assumes "cursor + filesize \<le> length block"
  shows "\<exists>k block'. file_read_callback kind block cursor filesize f = Inr (k, block') \<and> length block' = length block"
proof (cases "kind = HTPASSWD")
  case True
  obtain k d where "htpasswd_fread (drop cursor block) 1 filesize (auth_stream.truncate f) = Inr (k, d)" "length d = length (drop cursor block)"
    using htpasswd_fread_safe [of filesize "drop cursor block" "auth_stream.truncate f"] assms by (force simp: le_diff_conv2)
  with assms True show ?thesis by (auto simp: file_read_callback_def)
qed (use assms in \<open>auto simp: file_read_callback_def memcpy_at_def Let_def\<close>)

lemma read_secrets_safe:
  "cursor + tls_files_size ss \<le> length block \<Longrightarrow> \<forall>s \<in> set ss. ss_filename s \<noteq> None \<longrightarrow> ss_file s \<noteq> None \<Longrightarrow>
   \<exists>r. read_secrets cursor block ss = Inr r"
proof (induction ss arbitrary: cursor block)
  case (Cons s ss)
  show ?case
  proof (cases "ss_filename s = None")
    case True
    with Cons show ?thesis by fastforce
  next
    case False
    with Cons.prems(2) obtain f where f: "ss_file s = Some f" by auto
    obtain k block1 where k: "file_read_callback (ss_kind s) block cursor (ss_filesize s) f = Inr (k, block1)" "length block1 = length block"
      using file_read_callback_safe [of cursor "ss_filesize s" block "ss_kind s" f] Cons.prems(1) False by force
    with Cons.IH [of "cursor + ss_filesize s + 1" block1] Cons.prems False f show ?thesis by (fastforce simp: Let_def)
  qed
qed auto

lemma open_secrets_safe: "\<exists>r. open_secrets os ss = Inr r"
proof (induction ss)
  case (Cons s ss)
  have "\<exists>n. file_size_callback (ss_kind s) f = Inr n" for f
    using htpasswd_size_safe [of "auth_stream.truncate f"] by (auto simp: file_size_callback_def)
  then obtain n where n: "\<And>f. file_size_callback (ss_kind s) f = Inr (n f)" by metis
  obtain ok ss' where "open_secrets os ss = Inr (ok, ss')" using Cons.IH by auto
  with n show ?case by (auto split: option.split)
qed auto

lemma load_secrets_safe: "\<exists>r. load_secrets os sz a secrets = Inr r"
proof -
  obtain ok ss where o: "open_secrets os (secret_files a) = Inr (ok, ss)" using open_secrets_safe [of os "secret_files a"] by auto
  have "\<exists>r. read_secrets 0 (replicate (tls_files_size ss) NUL) ss = Inr r" if "ok"
  proof (rule read_secrets_safe)
    have "list_all2 (slot_opened os) (secret_files a) ss" using open_secrets_opened o that by simp
    then show "\<forall>s \<in> set ss. ss_filename s \<noteq> None \<longrightarrow> ss_file s \<noteq> None"
      by (induction rule: list_all2_induct) (auto simp: slot_opened_def split: option.splits)
  qed simp
  with o show ?thesis by (fastforce simp: load_secrets_def Let_def)
qed
lemma start_http_loop_total:
  assumes "opaque_total decoder"
  shows "\<exists>res. start_http_loop os start_ok sz o0 a decoder config responses w = r_return res \<and> sr_world res = w \<and>
    (\<forall>hl. sr_loop res = Loop_running hl \<longrightarrow> li_decoder (hl_listener hl) = decoder)"
proof -
  have start: "\<exists>res. start_listener os start_ok o0 a flags ss block decoder config responses w = r_return res \<and> sr_world res = w \<and>
      (\<forall>hl. sr_loop res = Loop_running hl \<longrightarrow> li_decoder (hl_listener hl) = decoder)" for flags ss block
  proof -
    obtain rc li where li: "listener_init o0 (ha_port a) decoder config w = r_return (rc, li, w)" "li_decoder li = decoder"
      using listener_total(1) [OF assms] by blast
    with listener_total(3) [OF assms, of li w] show ?thesis by (simp add: start_listener_def Let_def)
  qed
  have load: "\<exists>r. load_secrets os sz a secrets = Inr r" for secrets by (rule load_secrets_safe)
  show ?thesis
  proof (cases "http_mode_flag (ha_mode a)")
    case (Some mode_flag)
    let ?flags = "[mode_flag, MHD_USE_DEBUG] @ (if ha_https_key_filename a \<noteq> None then [MHD_USE_TLS] else [])"
    obtain r where r: "load_secrets os sz a (MHD_USE_TLS \<in> set ?flags \<or> ha_htpasswd_filename a \<noteq> None) = Inr r" using load by blast
    show ?thesis unfolding start_http_loop_def Let_def Some option.case r using start
      by (cases r) (auto simp: run_r_def)
  qed (simp add: start_http_loop_def)
qed

lemma create_http_listener0_total:
  assumes "opaque_total decoder"
  shows "\<exists>res. create_http_listener0 os start_ok sz o0 J config decoder responses w = r_return res \<and> sr_world res = w \<and>
    (\<forall>hl. sr_loop res = Loop_running hl \<longrightarrow> li_decoder (hl_listener hl) = decoder)"
  using start_http_loop_total [OF assms] by (auto simp: create_http_listener0_def Let_def split: option.split)

text \<open>The text of a file that is not a password file, as it is in the block.\<close>

definition slot_text :: "secret_slot \<Rightarrow> bytes" where
  "slot_text s = (case ss_file s of Some f \<Rightarrow> take (ss_filesize s) (st_content f) | None \<Rightarrow> [])"

text \<open>Reading the slots in front of the rest of the block.\<close>

lemma read_secrets_step:
  assumes "ss_filename s \<noteq> None" and "ss_kind s \<noteq> HTPASSWD" and "length block = cursor"
    and "read_secrets cursor (block @ replicate (ss_filesize s + 1 + n) NUL) (s # ss) = Inr (True, ss', block')"
  obtains ss1 where "length (slot_text s) = ss_filesize s" "ss' = s\<lparr>ss_mem := Some cursor\<rparr> # ss1"
    "read_secrets (cursor + ss_filesize s + 1) ((block @ slot_text s @ [NUL]) @ replicate n NUL) ss = Inr (True, ss1, block')"
proof -
  from assms(1,4) obtain f where f: "ss_file s = Some f" by (auto split: option.splits)
  let ?d = "take (ss_filesize s) (st_content f)" and ?blk = "block @ replicate (ss_filesize s + 1 + n) NUL"
  have rd: "file_read_callback (ss_kind s) ?blk cursor (ss_filesize s) f = Inr (length ?d, memcpy_at ?blk cursor ?d)"
    using assms(2,3) by (simp add: file_read_callback_def Let_def)
  with assms(1,4) f obtain ss1 where ss1: "length ?d = ss_filesize s" "ss' = s\<lparr>ss_mem := Some cursor\<rparr> # ss1"
    "read_secrets (cursor + ss_filesize s + 1) (memcpy_at ?blk cursor ?d) ss = Inr (True, ss1, block')"
    by (auto simp: c_bind_Inr_iff Let_def split: if_splits)
  have "replicate (ss_filesize s + 1 + n) NUL = replicate (ss_filesize s) NUL @ [NUL] @ replicate n NUL"
    by (simp add: replicate_add replicate_append_same)
  then have "memcpy_at ?blk cursor ?d = (block @ ?d @ [NUL]) @ replicate n NUL"
    using assms(3) ss1(1) by (simp add: memcpy_at_def)
  with ss1 f that show thesis by (simp add: slot_text_def)
qed

text \<open>A slot whose text stands in the block, with a terminator behind it, at the pointer it got.\<close>

definition slot_placed :: "bytes \<Rightarrow> secret_slot \<Rightarrow> secret_slot \<Rightarrow> bool" where
  "slot_placed blk s s' \<longleftrightarrow>
     (if ss_filename s = None then s' = s
      else length (slot_text s) = ss_filesize s \<and>
        (\<exists>a b. blk = a @ slot_text s @ [NUL] @ b \<and> s' = s\<lparr>ss_mem := Some (length a)\<rparr>))"

lemma slot_placed_append:
  assumes "slot_placed blk s s'"
  shows "slot_placed (blk @ x) s s'"
proof (cases "ss_filename s = None")
  case False
  with assms obtain a b where "blk = a @ slot_text s @ [NUL] @ b" "s' = s\<lparr>ss_mem := Some (length a)\<rparr>"
    "length (slot_text s) = ss_filesize s" by (auto simp: slot_placed_def)
  then have "blk @ x = a @ slot_text s @ [NUL] @ (b @ x)" "s' = s\<lparr>ss_mem := Some (length a)\<rparr>"
    "length (slot_text s) = ss_filesize s" by simp_all
  with False show ?thesis unfolding slot_placed_def by (metis (no_types))
qed (use assms in \<open>simp add: slot_placed_def\<close>)

lemma read_secrets_texts:
  "\<forall>s \<in> set ss1. ss_kind s \<noteq> HTPASSWD \<Longrightarrow> length block = cursor \<Longrightarrow>
   read_secrets cursor (block @ replicate (tls_files_size ss1 + n) NUL) (ss1 @ ss2) = Inr (True, ss', block') \<Longrightarrow>
   \<exists>ss1' ss2' mid. ss' = ss1' @ ss2' \<and> length mid = tls_files_size ss1 \<and> list_all2 (slot_placed (block @ mid)) ss1 ss1' \<and>
     read_secrets (cursor + tls_files_size ss1) ((block @ mid) @ replicate n NUL) ss2 = Inr (True, ss2', block')"
proof (induction ss1 arbitrary: cursor block ss')
  case Nil
  then show ?case by simp
next
  case (Cons s ss1)
  show ?case
  proof (cases "ss_filename s = None")
    case True
    with Cons.prems obtain ss'' where ss'': "ss' = s # ss''"
      "read_secrets cursor (block @ replicate (tls_files_size ss1 + n) NUL) (ss1 @ ss2) = Inr (True, ss'', block')"
      by (auto simp: c_bind_Inr_iff)
    from Cons.IH [OF _ Cons.prems(2) ss''(2)] Cons.prems(1) obtain ss1' ss2' mid where
      "ss'' = ss1' @ ss2'" "length mid = tls_files_size ss1" "list_all2 (slot_placed (block @ mid)) ss1 ss1'"
      "read_secrets (cursor + tls_files_size ss1) ((block @ mid) @ replicate n NUL) ss2 = Inr (True, ss2', block')" by auto
    moreover have "slot_placed (block @ mid) s s" using True by (simp add: slot_placed_def)
    ultimately have "ss' = (s # ss1') @ ss2'" "length mid = tls_files_size (s # ss1)" "list_all2 (slot_placed (block @ mid)) (s # ss1) (s # ss1')"
      "read_secrets (cursor + tls_files_size (s # ss1)) ((block @ mid) @ replicate n NUL) ss2 = Inr (True, ss2', block')"
      using True ss''(1) by simp_all
    then show ?thesis by blast
  next
    case False
    have "read_secrets cursor (block @ replicate (ss_filesize s + 1 + (tls_files_size ss1 + n)) NUL) (s # ss1 @ ss2) = Inr (True, ss', block')"
      using Cons.prems(3) False by (simp del: read_secrets.simps add: add.assoc)
    from read_secrets_step [OF False _ Cons.prems(2) this] Cons.prems(1) obtain ss'' where
      s: "length (slot_text s) = ss_filesize s" "ss' = s\<lparr>ss_mem := Some cursor\<rparr> # ss''"
      "read_secrets (cursor + ss_filesize s + 1) ((block @ slot_text s @ [NUL]) @ replicate (tls_files_size ss1 + n) NUL) (ss1 @ ss2) =
         Inr (True, ss'', block')" by auto
    have len: "length (block @ slot_text s @ [NUL]) = cursor + ss_filesize s + 1" using s(1) Cons.prems(2) by simp
    from Cons.IH [OF _ len s(3)] Cons.prems(1) obtain ss1' ss2' mid where mid: "ss'' = ss1' @ ss2'" "length mid = tls_files_size ss1"
      "list_all2 (slot_placed ((block @ slot_text s @ [NUL]) @ mid)) ss1 ss1'"
      "read_secrets (cursor + ss_filesize s + 1 + tls_files_size ss1) (((block @ slot_text s @ [NUL]) @ mid) @ replicate n NUL) ss2 =
         Inr (True, ss2', block')" by auto
    let ?mid = "slot_text s @ [NUL] @ mid" and ?s = "s\<lparr>ss_mem := Some cursor\<rparr>"
    have "slot_placed (block @ ?mid) s ?s" using False s(1) Cons.prems(2) by (auto simp: slot_placed_def)
    with s(1,2) mid False have "ss' = (?s # ss1') @ ss2'" "length ?mid = tls_files_size (s # ss1)"
      "list_all2 (slot_placed (block @ ?mid)) (s # ss1) (?s # ss1')"
      "read_secrets (cursor + tls_files_size (s # ss1)) ((block @ ?mid) @ replicate n NUL) ss2 = Inr (True, ss2', block')"
      by (auto simp: ac_simps)
    then show ?thesis by blast
  qed
qed

text \<open>The password file comes last: its part of the block is what the extraction makes of a zeroed block.\<close>

lemma read_secrets_htpasswd:
  assumes "ss_kind s = HTPASSWD" and "length block = cursor"
    and "read_secrets cursor (block @ replicate (tls_files_size [s]) NUL) [s] = Inr (True, ss', block')"
  shows "if ss_filename s = None then ss' = [s] \<and> block' = block
    else \<exists>f n db. ss_file s = Some f \<and> htpasswd_fread (replicate (ss_filesize s + 1) NUL) 1 (ss_filesize s) (auth_stream.truncate f) = Inr (n, db) \<and>
      ss' = [s\<lparr>ss_mem := Some (length block)\<rparr>] \<and> block' = block @ db"
  using assms by (auto simp: c_bind_Inr_iff file_read_callback_def Let_def split: if_splits option.splits)

lemma slot_opened_kind: "slot_opened os s s' \<Longrightarrow> ss_kind s' = ss_kind s \<and> ss_filename s' = ss_filename s"
  by (auto simp: slot_opened_def split: option.splits)

lemma slot_placed_kind: "slot_placed blk s s' \<Longrightarrow> ss_kind s' = ss_kind s"
  by (auto simp: slot_placed_def split: if_splits)

text \<open>A file that was opened and read: the pointer of its slot is a C string with the text of the file.\<close>

definition secret_at :: "http_os \<Rightarrow> string \<Rightarrow> bytes option \<Rightarrow> bool" where
  "secret_at os filename mem \<longleftrightarrow> (\<exists>f m. os_fopen os filename = Some f \<and> mem = Some m \<and>
     (file_size f = int (length (st_content f)) \<longrightarrow> NUL \<notin> set (st_content f) \<longrightarrow> c_string m = st_content f))"

lemma slot_secret:
  assumes "slot_opened os (secret_slot_of kind (Some filename)) s" and "slot_placed blk s s'" and "kind \<noteq> HTPASSWD"
  shows "secret_at os filename (map_option (\<lambda>off. drop off (blk @ x)) (ss_mem s'))" and "kind = KEY_FILE \<Longrightarrow> key_file_ok os filename"
proof -
  obtain f n where f: "os_fopen os filename = Some f" "file_size f = n"
    and s: "s = (secret_slot_of kind (Some filename))\<lparr>ss_file := Some f, ss_filesize := nat n\<rparr>"
    and key: "kind = KEY_FILE \<Longrightarrow> key_file_ok os filename"
    using assms(1,3) by (auto simp: slot_opened_def secret_slot_of_def file_size_callback_def)
  from assms(2) s obtain a b where b: "blk = a @ slot_text s @ [NUL] @ b" "ss_mem s' = Some (length a)"
    by (auto simp: slot_placed_def secret_slot_of_def)
  have "c_string (drop (length a) (blk @ x)) = st_content f" if "file_size f = int (length (st_content f))" "NUL \<notin> set (st_content f)"
  proof -
    have "slot_text s = st_content f" using s f(2) that(1) by (auto simp: slot_text_def)
    moreover have "takeWhile (\<lambda>c. c \<noteq> NUL) (st_content f @ NUL # y) = st_content f" for y
      using that(2) by (subst takeWhile_append2) auto
    ultimately show ?thesis using b(1) by (simp add: c_string_def)
  qed
  with f(1) b(2) show "secret_at os filename (map_option (\<lambda>off. drop off (blk @ x)) (ss_mem s'))"
    by (auto simp: secret_at_def)
  show "kind = KEY_FILE \<Longrightarrow> key_file_ok os filename" by (rule key)
qed

text \<open>The password database a listener has.\<close>

definition htpasswd_db :: "http_os \<Rightarrow> string \<Rightarrow> bytes option \<Rightarrow> bool" where
  "htpasswd_db os filename mem \<longleftrightarrow> (\<exists>f n r db. os_fopen os filename = Some f \<and> htpasswd_size (auth_stream.truncate f) = Inr n \<and>
     htpasswd_fread (replicate (n + 1) NUL) 1 n (auth_stream.truncate f) = Inr (r, db) \<and> mem = Some db)"

lemma secrets_block:
  assumes "open_secrets os (secret_files a) = Inr (True, ss)" and "read_secrets 0 (replicate (tls_files_size ss) NUL) ss = Inr (True, ss', blk)"
  shows "ha_https_key_filename a = Some k \<Longrightarrow> key_file_ok os k \<and> secret_at os k (slot_mem KEY_FILE ss' blk)"
    and "ha_https_cert_filename a = Some c \<Longrightarrow> secret_at os c (slot_mem CERT_FILE ss' blk)"
    and "ha_https_clients_ca_filename a = Some ca \<Longrightarrow> secret_at os ca (slot_mem CLIENT_CA_TRUST ss' blk)"
    and "ha_htpasswd_filename a = Some h \<Longrightarrow> htpasswd_db os h (slot_mem HTPASSWD ss' blk)"
proof -
  from open_secrets_opened [OF assms(1)] obtain s1 s2 s3 s4 where ss: "ss = [s1, s2, s3] @ [s4]"
    and op: "slot_opened os (secret_slot_of KEY_FILE (ha_https_key_filename a)) s1"
      "slot_opened os (secret_slot_of CERT_FILE (ha_https_cert_filename a)) s2"
      "slot_opened os (secret_slot_of CLIENT_CA_TRUST (ha_https_clients_ca_filename a)) s3"
      "slot_opened os (secret_slot_of HTPASSWD (ha_htpasswd_filename a)) s4"
    by (auto simp: secret_files_def list_all2_Cons1)
  note kinds = op [THEN slot_opened_kind]
  have size: "tls_files_size ss = tls_files_size [s1, s2, s3] + tls_files_size [s4]" unfolding ss by simp
  have "\<forall>s \<in> set [s1, s2, s3]. ss_kind s \<noteq> HTPASSWD" using kinds by (simp add: secret_slot_of_def)
  from read_secrets_texts [OF this, of "[]" 0 "tls_files_size [s4]" "[s4]" ss' blk] assms(2) [unfolded size, unfolded ss] obtain ss1 ss2 mid where
    ss': "ss' = ss1 @ ss2" and pl: "list_all2 (slot_placed mid) [s1, s2, s3] ss1" and len: "length mid = tls_files_size [s1, s2, s3]"
    and rd: "read_secrets (length mid) (mid @ replicate (tls_files_size [s4]) NUL) [s4] = Inr (True, ss2, blk)"
    by (auto simp del: read_secrets.simps tls_files_size.simps)
  from pl obtain t1 t2 t3 where ts: "ss1 = [t1, t2, t3]" "slot_placed mid s1 t1" "slot_placed mid s2 t2" "slot_placed mid s3 t3"
    by (auto simp: list_all2_Cons1)
  note tkinds = ts(2-4) [THEN slot_placed_kind]
  have k4: "ss_kind s4 = HTPASSWD" using kinds(4) by (simp add: secret_slot_of_def)
  note ht = read_secrets_htpasswd [OF k4 refl rd]
  obtain x where blk: "blk = mid @ x" using ht by (auto split: if_splits)
  have mem: "slot_mem KEY_FILE ss' blk = map_option (\<lambda>off. drop off (mid @ x)) (ss_mem t1)"
    "slot_mem CERT_FILE ss' blk = map_option (\<lambda>off. drop off (mid @ x)) (ss_mem t2)"
    "slot_mem CLIENT_CA_TRUST ss' blk = map_option (\<lambda>off. drop off (mid @ x)) (ss_mem t3)"
    using tkinds kinds by (simp_all add: slot_mem_def ss' ts(1) blk secret_slot_of_def)
  show "ha_https_key_filename a = Some k \<Longrightarrow> key_file_ok os k \<and> secret_at os k (slot_mem KEY_FILE ss' blk)"
    using slot_secret(1) [OF _ ts(2), of os KEY_FILE k x] slot_secret(2) [OF _ ts(2), of os KEY_FILE k] op(1) unfolding mem by simp
  show "ha_https_cert_filename a = Some c \<Longrightarrow> secret_at os c (slot_mem CERT_FILE ss' blk)"
    using slot_secret(1) [OF _ ts(3), of os CERT_FILE c x] op(2) unfolding mem by simp
  show "ha_https_clients_ca_filename a = Some ca \<Longrightarrow> secret_at os ca (slot_mem CLIENT_CA_TRUST ss' blk)"
    using slot_secret(1) [OF _ ts(4), of os CLIENT_CA_TRUST ca x] op(3) unfolding mem by simp
  show "htpasswd_db os h (slot_mem HTPASSWD ss' blk)" if h: "ha_htpasswd_filename a = Some h"
  proof -
    obtain f n where f: "os_fopen os h = Some f" "htpasswd_size (auth_stream.truncate f) = Inr n"
      "s4 = (secret_slot_of HTPASSWD (Some h))\<lparr>ss_file := Some f, ss_filesize := n\<rparr>"
      using op(4) h by (auto simp: slot_opened_def secret_slot_of_def file_size_callback_def c_bind_Inr_iff)
    with ht obtain r db where "htpasswd_fread (replicate (n + 1) NUL) 1 n (auth_stream.truncate f) = Inr (r, db)"
      "ss2 = [s4\<lparr>ss_mem := Some (length mid)\<rparr>]" "blk = mid @ db" by (auto simp: secret_slot_of_def)
    with f tkinds kinds show ?thesis
      by (auto simp: htpasswd_db_def slot_mem_def ss' ts(1) secret_slot_of_def)
  qed
qed

section \<open>Properties\<close>

text \<open>A listener that was started: what happened on the way.\<close>

lemma start_listener_running:
  assumes "start_listener os start_ok o0 a flags ss blk decoder conf responses w = r_return res" and "sr_loop res = Loop_running hl"
  shows "\<exists>li. listener_init o0 (ha_port a) decoder conf w = r_return (0, li, sr_world res) \<and> hl_listener hl = li \<and>
    hl_htpasswd hl = (if ha_htpasswd_filename a \<noteq> None then slot_mem HTPASSWD ss blk else None) \<and>
    hl_client_tls_cert hl = ((MHD_USE_TLS \<in> set flags \<or> ha_htpasswd_filename a \<noteq> None) \<and> ha_https_clients_ca_filename a \<noteq> None) \<and>
    hd_daemon hl = \<lparr>md_flags = flags, md_port = word_of_int (ha_port a), md_options = http_daemon_options a flags ss blk\<rparr> \<and>
    start_ok (hd_daemon hl) \<and> hd_tls_data hl = blk \<and> sr_open_files res = [] \<and>
    sr_responses res = snd (responses_listener_counter_incref (os_create_response_ok os) responses)"
  using assms unfolding start_listener_def Let_def r_bind_return_iff
  by (auto simp: r_bind_return_iff split: if_splits)

lemma load_secrets_done:
  assumes "load_secrets os sz a secrets = Inr (Load_done ss blk)"
  shows "secrets \<Longrightarrow> \<exists>ss0. open_secrets os (secret_files a) = Inr (True, ss0) \<and>
    read_secrets 0 (replicate (tls_files_size ss0) NUL) ss0 = Inr (True, ss, blk)"
  using assms by (auto simp: load_secrets_def Let_def c_bind_Inr_iff split: if_splits)

lemma http_mode_flag_tls: "http_mode_flag mode = Some fl \<Longrightarrow> fl \<noteq> MHD_USE_TLS"
  by (auto simp: http_mode_flag_def split: option.splits if_splits)

lemma start_http_loop_running:
  assumes "start_http_loop os start_ok sz o0 a decoder conf responses w = r_return res" and "sr_loop res = Loop_running hl"
  shows "\<exists>mode_flag flags ss blk. http_mode_flag (ha_mode a) = Some mode_flag \<and>
    flags = [mode_flag, MHD_USE_DEBUG] @ (if ha_https_key_filename a \<noteq> None then [MHD_USE_TLS] else []) \<and>
    (ha_https_key_filename a = None) = (ha_https_cert_filename a = None) \<and>
    (ha_https_key_filename a = None \<longrightarrow> ha_https_clients_ca_filename a = None) \<and>
    load_secrets os sz a (ha_https_key_filename a \<noteq> None \<or> ha_htpasswd_filename a \<noteq> None) = Inr (Load_done ss blk) \<and>
    start_listener os start_ok o0 a flags ss blk decoder conf responses w = r_return res"
proof -
  obtain fl where fl: "http_mode_flag (ha_mode a) = Some fl"
    using assms by (cases "http_mode_flag (ha_mode a)") (auto simp: start_http_loop_def)
  define flags where "flags = [fl, MHD_USE_DEBUG] @ (if ha_https_key_filename a \<noteq> None then [MHD_USE_TLS] else [])"
  have tls: "MHD_USE_TLS \<in> set flags \<longleftrightarrow> ha_https_key_filename a \<noteq> None" using http_mode_flag_tls [OF fl] by (auto simp: flags_def)
  note run = assms(1) [unfolded start_http_loop_def Let_def fl option.case flags_def [symmetric] tls]
  have ne: "(ha_https_key_filename a = None) = (ha_https_cert_filename a = None)"
    "ha_https_key_filename a = None \<longrightarrow> ha_https_clients_ca_filename a = None"
    using run assms(2) by (auto split: if_splits)
  with run obtain loaded where "load_secrets os sz a (ha_https_key_filename a \<noteq> None \<or> ha_htpasswd_filename a \<noteq> None) = Inr loaded"
    "(case loaded of
        Load_failed files \<Rightarrow> r_return \<lparr>sr_loop = Loop_null, sr_responses = responses, sr_world = w, sr_open_files = files\<rparr>
      | Load_zeroed block \<Rightarrow> r_return \<lparr>sr_loop = Loop_zeroed block, sr_responses = responses, sr_world = w, sr_open_files = []\<rparr>
      | Load_done ss block \<Rightarrow> start_listener os start_ok o0 a flags ss block decoder conf responses w) = r_return res"
    by (auto simp: r_bind_return_iff run_r_def)
  with ne fl flags_def assms(2) show ?thesis by (cases loaded) auto
qed

text \<open>C15: a listener that starts with TLS had a key and a certificate configured, the private key can be
  neither read nor written by others, and libmicrohttpd was given exactly the texts of the key and the
  certificate file, and the text of the authority file if and only if there is one, in which case clients
  are asked for certificates; the files are closed.\<close>

theorem start_http_loop_tls:
  assumes "start_http_loop os start_ok sz o0 a decoder conf responses w = r_return res" and "sr_loop res = Loop_running hl"
    and "ha_https_key_filename a = Some k"
    and "\<And>fn f. os_fopen os fn = Some f \<Longrightarrow> file_size f = int (length (st_content f)) \<and> NUL \<notin> set (st_content f)"
    and "opts = takeWhile (\<lambda>x. x \<noteq> MHD_OPTION_END) (md_options (hd_daemon hl))"
  shows "(\<exists>m. os_stat_mode os k = Some m \<and> m AND (S_IWOTH OR S_IROTH) = 0) \<and> MHD_USE_TLS \<in> set (md_flags (hd_daemon hl)) \<and>
    (\<exists>f b. os_fopen os k = Some f \<and> MHD_OPTION_HTTPS_MEM_KEY (Some b) \<in> set opts \<and> c_string b = st_content f) \<and>
    (\<exists>c f b. ha_https_cert_filename a = Some c \<and> os_fopen os c = Some f \<and> MHD_OPTION_HTTPS_MEM_CERT (Some b) \<in> set opts \<and>
       c_string b = st_content f) \<and>
    (case ha_https_clients_ca_filename a of
       None \<Rightarrow> \<not> hl_client_tls_cert hl \<and> (\<forall>b. MHD_OPTION_HTTPS_MEM_TRUST b \<notin> set opts)
     | Some ca \<Rightarrow> hl_client_tls_cert hl \<and>
         (\<exists>f b. os_fopen os ca = Some f \<and> MHD_OPTION_HTTPS_MEM_TRUST (Some b) \<in> set opts \<and> c_string b = st_content f)) \<and>
    sr_open_files res = []"
proof -
  from start_http_loop_running [OF assms(1,2)] assms(3) obtain mode_flag ss blk
    where ne: "(ha_https_key_filename a = None) = (ha_https_cert_filename a = None)"
    and load: "load_secrets os sz a True = Inr (Load_done ss blk)"
    and run: "start_listener os start_ok o0 a [mode_flag, MHD_USE_DEBUG, MHD_USE_TLS] ss blk decoder conf responses w = r_return res"
    by auto
  note sec = load_secrets_done [OF load TrueI]
  from ne assms(3) obtain c where c: "ha_https_cert_filename a = Some c" by auto
  from sec obtain ss0 where ss0: "open_secrets os (secret_files a) = Inr (True, ss0)"
    "read_secrets 0 (replicate (tls_files_size ss0) NUL) ss0 = Inr (True, ss, blk)" by blast
  have mem: "\<exists>f b. os_fopen os fn = Some f \<and> mem = Some b \<and> c_string b = st_content f" if "secret_at os fn mem" for fn mem
    using that assms(4) by (auto simp: secret_at_def)
  have key: "key_file_ok os k" and km: "secret_at os k (slot_mem KEY_FILE ss blk)" using secrets_block(1) [OF ss0 assms(3)] by simp_all
  note cm = secrets_block(2) [OF ss0 c]
  note st = start_listener_running [OF run assms(2)]
  have opts: "md_options (hd_daemon hl) = http_daemon_options a [mode_flag, MHD_USE_DEBUG, MHD_USE_TLS] ss blk" using st by auto
  show ?thesis
  proof (cases "ha_https_clients_ca_filename a")
    case None
    with key mem [OF km] mem [OF cm] c st show ?thesis
      unfolding assms(5) opts by (auto simp: key_file_ok_def http_daemon_options_def split: option.splits)
  next
    case (Some ca)
    with key mem [OF km] mem [OF cm] mem [OF secrets_block(3) [OF ss0 Some]] c st show ?thesis
      unfolding assms(5) opts by (auto simp: key_file_ok_def http_daemon_options_def split: option.splits)
  qed
qed

lemma start_http_loop_cases:
  assumes "start_http_loop os start_ok sz o0 a decoder conf responses w = r_return res"
  shows "(\<exists>loop files. (\<forall>hl. loop \<noteq> Loop_running hl) \<and>
      res = \<lparr>sr_loop = loop, sr_responses = responses, sr_world = w, sr_open_files = files\<rparr>) \<or>
    (\<exists>flags ss blk. start_listener os start_ok o0 a flags ss blk decoder conf responses w = r_return res)"
proof (cases "http_mode_flag (ha_mode a)")
  case None
  with assms show ?thesis by (auto simp: start_http_loop_def)
next
  case (Some fl)
  define flags where "flags = [fl, MHD_USE_DEBUG] @ (if ha_https_key_filename a \<noteq> None then [MHD_USE_TLS] else [])"
  note run = assms [unfolded start_http_loop_def Let_def Some option.case flags_def [symmetric]]
  show ?thesis
  proof (cases "(ha_https_key_filename a = None) = (ha_https_cert_filename a = None) \<and>
      (ha_https_key_filename a = None \<longrightarrow> ha_https_clients_ca_filename a = None)")
    case True
    with run obtain loaded where
      "(case loaded of
          Load_failed files \<Rightarrow> r_return \<lparr>sr_loop = Loop_null, sr_responses = responses, sr_world = w, sr_open_files = files\<rparr>
        | Load_zeroed block \<Rightarrow> r_return \<lparr>sr_loop = Loop_zeroed block, sr_responses = responses, sr_world = w, sr_open_files = []\<rparr>
        | Load_done ss block \<Rightarrow> start_listener os start_ok o0 a flags ss block decoder conf responses w) = r_return res"
      by (auto simp: r_bind_return_iff)
    then show ?thesis by (cases loaded) auto
  next
    case False
    with run have "res = \<lparr>sr_loop = Loop_null, sr_responses = responses, sr_world = w, sr_open_files = []\<rparr>" by (auto split: if_splits)
    then show ?thesis by blast
  qed
qed

lemma break_http_loop_frees:
  assumes "responses_ok (Suc n) responses" and "break_http_loop hl responses w = r_return (mem, responses', w')"
  shows "responses_ok n responses' \<and> mem = replicate (length (hd_tls_data hl)) NUL"
  using assms(2) responses_ok_decref [OF assms(1)]
  by (auto simp: break_http_loop_def r_bind_return_iff http_listener_scrub_tls_data_def)

lemma create_http_listener0_holds:
  assumes "create_http_listener0 os start_ok sz o0 J config decoder responses w = r_return res" and "responses_ok n responses"
    and "os_create_response_ok os"
  shows "responses_ok (if \<exists>hl. sr_loop res = Loop_running hl then Suc n else n) (sr_responses res)"
proof -
  have start: "responses_ok (if \<exists>hl. sr_loop r = Loop_running hl then Suc n else n) (sr_responses r)"
    if "start_listener os start_ok o0 a flags ss blk decoder conf responses w = r_return r" for a flags ss blk conf r
    using that assms(2,3) responses_ok_incref [OF assms(2)] responses_ok_decref [OF responses_ok_incref [OF assms(2)]]
    unfolding start_listener_def Let_def r_bind_return_iff
    by (auto simp: r_bind_return_iff split: if_splits)
  have loop: "responses_ok (if \<exists>hl. sr_loop r = Loop_running hl then Suc n else n) (sr_responses r)"
    if "start_http_loop os start_ok sz o0 a decoder conf responses w = r_return r" for a conf r
    using start_http_loop_cases [OF that]
  proof (elim disjE exE conjE)
    fix flags ss blk
    assume "start_listener os start_ok o0 a flags ss blk decoder conf responses w = r_return r"
    then show ?thesis by (rule start)
  qed (use assms(2) in auto)
  show ?thesis
    using assms(1,2) unfolding create_http_listener0_def Let_def by (auto dest: loop split: if_splits option.splits)
qed

text \<open>C28: the replies that the listeners share stay balanced: a listener that is started counts as one more
  user of them, a failed start leaves them as they were, and stopping the listener gives its share back and
  overwrites every byte of its secrets before they are freed.\<close>

theorem http_listener_lifecycle:
  assumes "create_http_listener0 os start_ok sz o0 J config decoder responses w = r_return res" and "responses_ok n responses"
    and "os_create_response_ok os"
  shows "case sr_loop res of
      Loop_running hl \<Rightarrow> responses_ok (Suc n) (sr_responses res) \<and>
        (\<forall>n' responses' w1 mem responses'' w2. responses_ok (Suc n') responses' \<longrightarrow>
           break_http_loop hl responses' w1 = r_return (mem, responses'', w2) \<longrightarrow>
           responses_ok n' responses'' \<and> mem = replicate (length (hd_tls_data hl)) NUL)
    | _ \<Rightarrow> responses_ok n (sr_responses res)"
  using create_http_listener0_holds [OF assms] by (auto split: http_loop.splits dest: break_http_loop_frees)

lemma read_secrets_short:
  assumes "ss_filename s \<noteq> None" and "ss_kind s \<noteq> HTPASSWD" and "ss_file s = Some f" and "length (st_content f) < ss_filesize s"
    and "cursor + ss_filesize s \<le> length block"
  shows "\<exists>b. read_secrets cursor block (s # ss) = Inr (False, s\<lparr>ss_mem := Some cursor\<rparr> # ss, b)"
  using assms by (auto simp: file_read_callback_def Let_def)

text \<open>When the private key file gives fewer bytes than its size, the start does not fail: the caller gets a
  listener that is not started, which has no decoder, no port and no daemon.\<close>

lemma short_key_file_half_started:
  assumes "http_mode_flag (ha_mode a) \<noteq> None" and "ha_https_key_filename a = Some k" and "ha_https_cert_filename a = Some c"
    and "ha_https_clients_ca_filename a = None" and "ha_htpasswd_filename a = None"
    and "key_file_ok os k" and "os_fopen os k = Some fk" and "os_fopen os c = Some fc"
    and "file_size fk > int (length (st_content fk))" and "file_size fc \<ge> 0" and "\<And>n. os_calloc_ok os n"
  shows "\<exists>block. start_http_loop os start_ok sz o0 a decoder conf responses w =
    r_return \<lparr>sr_loop = Loop_zeroed block, sr_responses = responses, sr_world = w, sr_open_files = []\<rparr>"
proof -
  let ?s1 = "(secret_slot_of KEY_FILE (Some k))\<lparr>ss_file := Some fk, ss_filesize := nat (file_size fk)\<rparr>"
  let ?s2 = "(secret_slot_of CERT_FILE (Some c))\<lparr>ss_file := Some fc, ss_filesize := nat (file_size fc)\<rparr>"
  let ?ss = "[?s1, ?s2, secret_slot_of CLIENT_CA_TRUST None, secret_slot_of HTPASSWD None]"
  have sizes: "file_size fk \<noteq> -1" "file_size fc \<noteq> -1" using assms(9,10) by auto
  have o: "open_secrets os (secret_files a) = Inr (True, ?ss)"
    using assms(2-8) sizes by (simp add: secret_files_def secret_slot_of_def file_size_callback_def)
  have "\<exists>b. read_secrets 0 (replicate (tls_files_size ?ss) NUL) ?ss = Inr (False, ?s1\<lparr>ss_mem := Some 0\<rparr> # tl ?ss, b)"
    using assms(9) by (subst list.sel(3), intro read_secrets_short) (auto simp: secret_slot_of_def)
  then obtain b where "read_secrets 0 (replicate (tls_files_size ?ss) NUL) ?ss = Inr (False, ?s1\<lparr>ss_mem := Some 0\<rparr> # tl ?ss, b)" by blast
  with o assms(11) have "load_secrets os sz a True = Inr (Load_zeroed b)"
    unfolding load_secrets_def by (simp add: Let_def del: read_secrets.simps tls_files_size.simps open_secrets.simps)
  with assms(1-5) show ?thesis by (auto simp: start_http_loop_def run_r_def)
qed


section \<open>Witnesses\<close>

definition text_file :: "bytes \<Rightarrow> int \<Rightarrow> secret_file" where
  "text_file content n = \<lparr>st_content = content, st_read_error = False, st_seek_ok = True, sf_tell_ok = True, sf_seek_end_ok = True,
     sf_end = n, sf_restore_ok = True\<rparr>"

text \<open>A file system with a key, a certificate and a password file; the key may be longer than what can be read of it.\<close>

definition demo_os :: "int \<Rightarrow> http_os" where
  "demo_os n = \<lparr>os_getenv = (\<lambda>_. None), os_stat_mode = (\<lambda>_. Some 0),
     os_fopen = [''key'' \<mapsto> text_file ''K'' n, ''cert'' \<mapsto> text_file ''C'' 1, ''pw'' \<mapsto> text_file (''u:{PLAIN}p'' @ [NL]) 11],
     os_file_read = (\<lambda>_. None), os_calloc_ok = (\<lambda>_. True), os_deep_copy_ok = True, os_create_response_ok = True\<rparr>"

definition tls_args :: http_loop_args where
  "tls_args = http_defaults\<lparr>ha_port := 443, ha_https_key_filename := Some ''key'', ha_https_cert_filename := Some ''cert''\<rparr>"

definition pw_args :: http_loop_args where
  "pw_args = http_defaults\<lparr>ha_port := 80, ha_htpasswd_filename := Some ''pw''\<rparr>"

text \<open>A configuration that names the port and the files.\<close>

definition tls_json :: "unit jansson" where
  "tls_json = \<lparr>json_object_get = (\<lambda>_ _. None), json_string = (\<lambda>_. None), json_is_object = (\<lambda>_. True), json_members = (\<lambda>_. []),
     json_elements = (\<lambda>_. []), json_loads = (\<lambda>_. None), json_dumps = (\<lambda>_. None),
     json_unpack_ex = (\<lambda>_ _. (True, [Some (U_int 443), None, None, None, None, None, None, Some (U_string ''key''), Some (U_string ''cert'')]))\<rparr>"

lemma demo_start_tls:
  "\<exists>res hl. start_http_loop (demo_os 1) (\<lambda>_. True) 100 () tls_args log_decoder () no_responses [] = r_return res \<and>
     sr_loop res = Loop_running hl"
  by (simp add: start_http_loop_def http_mode_flag_def tls_args_def http_defaults_def strcmp0_def load_secrets_def secret_files_def
      secret_slot_of_def demo_os_def key_file_ok_def text_file_def file_size_callback_def file_size_def file_read_callback_def
      start_listener_def listener_init_def log_decoder_def run_r_def Let_def)

lemma demo_start_pw:
  "\<exists>res hl. start_http_loop (demo_os 1) (\<lambda>_. True) 100 () pw_args log_decoder () no_responses [] = r_return res \<and>
     sr_loop res = Loop_running hl"
proof -
  have sz: "htpasswd_size (auth_stream.truncate (text_file (''u:{PLAIN}p'' @ [NL]) 11)) = Inr 11"
    and rd: "htpasswd_fread (replicate 12 NUL) 1 11 (auth_stream.truncate (text_file (''u:{PLAIN}p'' @ [NL]) 11)) = Inr (11, replicate 12 NUL)"
    by (simp_all add: htpasswd_size_def htpasswd_fread_def http_auth_extract_data_def http_auth_extract_data0_def auth_stream.truncate_def
        text_file_def extract_line_def tokenize_user_pass_line_def strchrnul_def password_hashing_callback_def strncmp0_def
        plain_hashing_callback_prefix_def eval_nat_numeral)
  show ?thesis
    using sz rd
    by (simp add: start_http_loop_def http_mode_flag_def pw_args_def http_defaults_def strcmp0_def load_secrets_def secret_files_def
        secret_slot_of_def demo_os_def file_size_callback_def file_read_callback_def
        start_listener_def listener_init_def log_decoder_def run_r_def Let_def replicate_Suc [symmetric] del: replicate_Suc)
qed

theorem start_http_loop_tls_witness:
  "\<exists>res hl b. start_http_loop (demo_os 1) (\<lambda>_. True) 100 () tls_args log_decoder () no_responses [] = r_return res \<and>
     sr_loop res = Loop_running hl \<and>
     MHD_OPTION_HTTPS_MEM_KEY (Some b) \<in> set (takeWhile (\<lambda>x. x \<noteq> MHD_OPTION_END) (md_options (hd_daemon hl))) \<and> c_string b = ''K''"
proof -
  obtain res and hl :: "(bytes list, unit, unit, nat) http_daemon_listener"
    where r: "start_http_loop (demo_os 1) (\<lambda>_. True) 100 () tls_args log_decoder () no_responses [] = r_return res"
    "sr_loop res = Loop_running hl" using demo_start_tls by blast
  have k: "ha_https_key_filename tls_args = Some ''key''" by (simp add: tls_args_def)
  have files: "file_size f = int (length (st_content f)) \<and> NUL \<notin> set (st_content f)" if "os_fopen (demo_os 1) fn = Some f" for fn f
    using that by (auto simp: demo_os_def text_file_def file_size_def split: if_splits)
  show ?thesis
    using start_http_loop_tls [OF r k files refl] r by (auto simp: demo_os_def text_file_def)
qed

theorem http_listener_lifecycle_witness:
  "\<exists>res hl. create_http_listener0 (demo_os 1) (\<lambda>_. True) 100 () tls_json () log_decoder no_responses [] = r_return res \<and>
     sr_loop res = Loop_running hl \<and> responses_ok 1 (sr_responses res)"
proof -
  obtain res and hl :: "(bytes list, unit, unit, nat) http_daemon_listener"
    where r: "start_http_loop (demo_os 1) (\<lambda>_. True) 100 () tls_args log_decoder () no_responses [] = r_return res"
    "sr_loop res = Loop_running hl" using demo_start_tls by blast
  have "http_args (demo_os 1) tls_json () = Some tls_args"
    by (simp add: http_args_def tls_json_def http_unpack_args_def unpacked_at_def http_environ_def env_override_def tls_args_def
        http_defaults_def demo_os_def)
  with r(1) have c: "create_http_listener0 (demo_os 1) (\<lambda>_. True) 100 () tls_json () log_decoder no_responses [] = r_return res"
    by (simp add: create_http_listener0_def demo_os_def)
  have "responses_ok 0 no_responses" "os_create_response_ok (demo_os 1)" by (simp_all add: responses_ok_def demo_os_def)
  from http_listener_lifecycle [OF c this] r(2) c show ?thesis by auto
qed


end
