(* ===== verification/Rdkafka_Config.thy ===== *)
theory Rdkafka_Config
  imports Kafka_Client Jansson
begin

text \<open>
  The part of the configuration that is meant for librdkafka (\<^verbatim>\<open>src/engine/global_config.c\<close>): options from
  the environment and then from the configuration file, the topic and the members that statistics get.
  \<open>conf_ok\<close> tells whether librdkafka accepts an option; a fatal error ends the program.
\<close>

section \<open>Options\<close>

definition assert_json_string :: "'j jansson \<Rightarrow> 'j \<Rightarrow> string c_result" where
  "assert_json_string J value = (case json_string J value of None \<Rightarrow> Inl Exited | Some str \<Rightarrow> Inr str)"

definition parse_rdkafka_keyval_config ::
  "(string \<Rightarrow> string \<Rightarrow> bool) \<Rightarrow> n2kafka_rdkafka_conf \<Rightarrow> string \<Rightarrow> string \<Rightarrow> n2kafka_rdkafka_conf c_result" where
  "parse_rdkafka_keyval_config conf_ok conf key val =
     (let name0 = drop 8 key;
          name = (if strncmp0 name0 ''topic.'' 6 then drop 6 name0 else name0)
      in if strcmp0 name ''n2kafka.statistics.topic'' then Inr (conf\<lparr>statistics_topic := Some val\<rparr>)
         else if conf_ok name val then Inr (conf\<lparr>rk_conf := map_option (\<lambda>opts. opts @ [(name, val)]) (rk_conf conf)\<rparr>)
         else Inl Exited)"

definition parse_rdkafka_config_json ::
  "'j jansson \<Rightarrow> (string \<Rightarrow> string \<Rightarrow> bool) \<Rightarrow> n2kafka_rdkafka_conf \<Rightarrow> string \<Rightarrow> 'j \<Rightarrow> n2kafka_rdkafka_conf c_result" where
  "parse_rdkafka_config_json J conf_ok conf key jvalue =
     c_bind (assert_json_string J jvalue) (parse_rdkafka_keyval_config conf_ok conf key)"

text \<open>A member of the configuration, with the options and the topic it leaves.\<close>

definition parse_rdkafka_config_keyval ::
  "'j jansson \<Rightarrow> (string \<Rightarrow> string \<Rightarrow> bool) \<Rightarrow> n2kafka_rdkafka_conf \<times> string option \<Rightarrow> string \<Rightarrow> 'j
   \<Rightarrow> (n2kafka_rdkafka_conf \<times> string option) c_result" where
  "parse_rdkafka_config_keyval J conf_ok ct key val =
     (case ct of
        (conf, topic) \<Rightarrow>
          if strcasecmp0 key ''topic'' then c_bind (assert_json_string J val) (\<lambda>t. Inr (conf, Some t))
          else if strcasecmp0 key ''brokers''
          then c_bind (assert_json_string J val) (\<lambda>brokers.
                 c_bind (parse_rdkafka_keyval_config conf_ok conf ''rdkafka.metadata.broker.list'' brokers) (\<lambda>c. Inr (c, topic)))
          else if strcasecmp0 (take 8 key) ''rdkafka.''
          then c_bind (parse_rdkafka_config_json J conf_ok conf key val) (\<lambda>c. Inr (c, topic))
          else Inr (conf, topic))"

section \<open>The environment\<close>

definition rdkafka_env_prefix :: string where
  "rdkafka_env_prefix = ''RDKAFKA_''"

definition stats_add_key :: string where
  "stats_add_key = ''rdkafka.n2kafka.stats.append''"

text \<open>
  The name of an option from the name of a variable. Other characters than capitals, digits and underscores
  leave their place in the buffer as it is, \<open>uninit\<close>, which may also end the string.
\<close>

definition env_key_char :: "(nat \<Rightarrow> char) \<Rightarrow> nat \<Rightarrow> char \<Rightarrow> char" where
  "env_key_char uninit i c =
     (let n = (of_char c :: nat)
      in if c = CHR ''_'' then CHR ''.''
         else if 65 \<le> n \<and> n \<le> 90 then tolower c
         else if 48 \<le> n \<and> n \<le> 57 then c
         else uninit i)"

definition env_option_key :: "(nat \<Rightarrow> char) \<Rightarrow> string \<Rightarrow> string" where
  "env_option_key uninit var = c_string (map (\<lambda>i. env_key_char uninit i (var ! i)) [0..<length var] @ [NUL])"

text \<open>
  A string of the environment: the options and the text of the members for statistics. Without an equals
  sign the length of the name is a null pointer minus the string, which is too long.
\<close>

definition environ_entry ::
  "(string \<Rightarrow> string \<Rightarrow> bool) \<Rightarrow> (nat \<Rightarrow> char) \<Rightarrow> string \<Rightarrow> n2kafka_rdkafka_conf \<times> string option
   \<Rightarrow> (n2kafka_rdkafka_conf \<times> string option) c_result" where
  "environ_entry conf_ok uninit entry st =
     (if \<not> strncmp0 entry rdkafka_env_prefix 8 then Inr st
      else case strchr entry CHR ''='' of
             None \<Rightarrow> Inr st
           | Some key_size \<Rightarrow>
               if key_size + 1 > 64 then Inr st
               else if drop (key_size + 1) entry = [] then Inr st
               else let env_key = env_option_key uninit (take key_size entry);
                        env_val = drop (key_size + 1) entry
                    in if strcmp0 stats_add_key env_key then Inr (fst st, Some env_val)
                       else c_bind (parse_rdkafka_keyval_config conf_ok (fst st) env_key env_val) (\<lambda>c. Inr (c, snd st)))"

fun environ_loop ::
  "(string \<Rightarrow> string \<Rightarrow> bool) \<Rightarrow> (nat \<Rightarrow> char) \<Rightarrow> string list \<Rightarrow> n2kafka_rdkafka_conf \<times> string option
   \<Rightarrow> (n2kafka_rdkafka_conf \<times> string option) c_result" where
  "environ_loop conf_ok uninit [] st = Inr st"
| "environ_loop conf_ok uninit (entry # entries) st =
     c_bind (environ_entry conf_ok uninit entry st) (environ_loop conf_ok uninit entries)"

section \<open>The configuration file\<close>

record 'j rdkafka_json =
  rj_conf :: n2kafka_rdkafka_conf
  rj_topic :: "string option"
  rj_stats_json_enrich :: "string option"
  rj_jstats_json_enrich :: "'j option"

text \<open>The test for an object looks at the variable that is still to be set.\<close>

definition json_member ::
  "'j jansson \<Rightarrow> (string \<Rightarrow> string \<Rightarrow> bool) \<Rightarrow> string \<times> 'j \<Rightarrow> 'j rdkafka_json \<Rightarrow> 'j rdkafka_json c_result" where
  "json_member J conf_ok kv st =
     (case kv of
        (json_key, json_val) \<Rightarrow>
          if strcmp0 stats_add_key json_key
          then (case json_string J json_val of
                  Some str \<Rightarrow> Inr (st\<lparr>rj_stats_json_enrich := Some str\<rparr>)
                | None \<Rightarrow>
                    if (case rj_jstats_json_enrich st of None \<Rightarrow> False | Some j \<Rightarrow> json_is_object J j)
                    then Inr (st\<lparr>rj_jstats_json_enrich := Some json_val\<rparr>)
                    else Inl Exited)
          else c_bind (parse_rdkafka_config_keyval J conf_ok (rj_conf st, rj_topic st) json_key json_val) (\<lambda>(conf, topic).
                 Inr (st\<lparr>rj_conf := conf, rj_topic := topic\<rparr>)))"

fun json_loop ::
  "'j jansson \<Rightarrow> (string \<Rightarrow> string \<Rightarrow> bool) \<Rightarrow> (string \<times> 'j) list \<Rightarrow> 'j rdkafka_json \<Rightarrow> 'j rdkafka_json c_result" where
  "json_loop J conf_ok [] st = Inr st"
| "json_loop J conf_ok (kv # kvs) st = c_bind (json_member J conf_ok kv st) (json_loop J conf_ok kvs)"

text \<open>The members that statistics get: what stands between the first opening and the last closing brace.\<close>

definition stats_message_extra ::
  "'j jansson \<Rightarrow> (nat \<Rightarrow> bool) \<Rightarrow> 'j rdkafka_json \<Rightarrow> n2kafka_rdkafka_conf c_result" where
  "stats_message_extra J malloc_ok st =
     (case rj_jstats_json_enrich st of
        Some j \<Rightarrow> Inr ((rj_conf st)\<lparr>extra_buf := map_option (\<lambda>s. s @ [NUL]) (json_dumps J j)\<rparr>)
      | None \<Rightarrow>
          (case rj_stats_json_enrich st of
             None \<Rightarrow> Inr (rj_conf st)
           | Some str \<Rightarrow>
               (case json_loads J str of
                  None \<Rightarrow> Inl Exited
                | Some extra \<Rightarrow>
                    if \<not> json_is_object J extra then Inl Exited
                    else if length (json_members J extra) = 0 then Inr (rj_conf st)
                    else (case strchr str CHR ''{'' of
                            None \<Rightarrow> Inl NullDeref
                          | Some open_brace \<Rightarrow>
                              (case strrchr (drop open_brace str) CHR ''}'' of
                                 None \<Rightarrow> Inl OutOfBounds
                               | Some sz \<Rightarrow>
                                   if \<not> malloc_ok sz then Inl Exited
                                   else Inr ((rj_conf st)\<lparr>extra_size := sz,
                                               extra_buf := Some (take (sz - 1) (drop (open_brace + 1) str) @ [NUL])\<rparr>))))))"

text \<open>\<open>conf_new_ok\<close> tells whether librdkafka has an empty set of options for us.\<close>

definition get_rdkafka_config ::
  "'j jansson \<Rightarrow> bool \<Rightarrow> (string \<Rightarrow> string \<Rightarrow> bool) \<Rightarrow> (nat \<Rightarrow> char) \<Rightarrow> (nat \<Rightarrow> bool) \<Rightarrow> string list
   \<Rightarrow> n2kafka_rdkafka_conf \<Rightarrow> string option \<Rightarrow> 'j \<Rightarrow> (n2kafka_rdkafka_conf \<times> string option) c_result" where
  "get_rdkafka_config J conf_new_ok conf_ok uninit malloc_ok environ conf topic root =
     (if \<not> conf_new_ok then Inl Exited
      else c_bind (environ_loop conf_ok uninit environ (conf\<lparr>rk_conf := Some []\<rparr>, None)) (\<lambda>(conf1, enrich).
        c_bind (json_loop J conf_ok (json_members J root)
                  \<lparr>rj_conf = conf1, rj_topic = topic, rj_stats_json_enrich = enrich, rj_jstats_json_enrich = None\<rparr>) (\<lambda>st.
          c_bind (stats_message_extra J malloc_ok st) (\<lambda>conf2. Inr (conf2, rj_topic st)))))"

section \<open>Reading the configuration ends\<close>

lemma assert_json_string_runs: "runs_to (run_r (assert_json_string J v)) (\<lambda>_. True)"
  by (simp add: assert_json_string_def split: option.split)

lemma keyval_config_runs: "runs_to (run_r (parse_rdkafka_keyval_config conf_ok conf key val)) (\<lambda>_. True)"
  by (simp add: parse_rdkafka_keyval_config_def Let_def)

lemma config_keyval_runs: "runs_to (run_r (parse_rdkafka_config_keyval J conf_ok ct key val)) (\<lambda>_. True)"
  by (auto simp: parse_rdkafka_config_keyval_def parse_rdkafka_config_json_def split: prod.split
      intro!: runs_to_c_bind [OF runs_to_c_bind [OF assert_json_string_runs keyval_config_runs]] runs_to_c_bind [OF assert_json_string_runs]
        runs_to_c_bind [OF keyval_config_runs])

lemma environ_loop_runs: "runs_to (run_r (environ_loop conf_ok uninit es st)) (\<lambda>_. True)"
proof (induction es arbitrary: st)
  case (Cons e es)
  have "runs_to (run_r (environ_entry conf_ok uninit e st)) (\<lambda>_. True)"
    by (auto simp: environ_entry_def Let_def split: option.split intro!: runs_to_c_bind [OF keyval_config_runs])
  from runs_to_c_bind [OF this Cons.IH] show ?case by simp
qed simp

lemma json_loop_runs: "runs_to (run_r (json_loop J conf_ok kvs st)) (\<lambda>_. True)"
proof (induction kvs arbitrary: st)
  case (Cons kv kvs)
  have "runs_to (run_r (json_member J conf_ok kv st)) (\<lambda>_. True)"
    by (auto simp: json_member_def split: option.split prod.split intro!: runs_to_c_bind [OF config_keyval_runs])
  from runs_to_c_bind [OF this Cons.IH] show ?case by simp
qed simp

lemma stats_message_extra_runs:
  assumes "jansson_ok J"
  shows "runs_to (run_r (stats_message_extra J malloc_ok st)) (\<lambda>_. True)"
proof -
  have "strchr str CHR ''{'' \<noteq> None \<and> (\<forall>n. strchr str CHR ''{'' = Some n \<longrightarrow> strrchr (drop n str) CHR ''}'' \<noteq> None)"
    if load: "json_loads J str = Some j" "json_is_object J j" "json_members J j \<noteq> []" for str j
  proof -
    obtain a b c where t: "str = a @ CHR ''{'' # b @ CHR ''}'' # c" using assms load unfolding jansson_ok_def by blast
    have "strchrnul str CHR ''{'' \<le> length a" unfolding t strchrnul_def by (induction a) auto
    then have "CHR ''}'' \<in> set (drop (strchrnul str CHR ''{'') str)" unfolding t by (auto simp: drop_append)
    with t show ?thesis by (auto simp: strchr_def strrchr_def)
  qed
  then show ?thesis by (fastforce simp: stats_message_extra_def split: option.split)
qed

lemma get_rdkafka_config_ends:
  assumes "jansson_ok J"
  shows "runs_to (run_r (get_rdkafka_config J new_ok conf_ok uninit malloc_ok environ conf topic root)) (\<lambda>_. True)"
  using assms
  by (auto simp: get_rdkafka_config_def split: prod.split intro!: runs_to_c_bind [OF environ_loop_runs] runs_to_c_bind [OF json_loop_runs] runs_to_c_bind [OF stats_message_extra_runs])

section \<open>What the loops collect\<close>

text \<open>The topics that the members of the configuration name, whatever the case of their key; the last one counts.\<close>

definition topic_members :: "'j jansson \<Rightarrow> (string \<times> 'j) list \<Rightarrow> string list" where
  "topic_members J = List.map_filter (\<lambda>(key, v). if strcasecmp0 key ''topic'' then json_string J v else None)"

lemma json_loop_topic:
  "json_loop J conf_ok kvs st = Inr st' \<Longrightarrow> topic_members J kvs = ts @ [t] \<Longrightarrow> rj_topic st' = Some t"
  "json_loop J conf_ok kvs st = Inr st' \<Longrightarrow> topic_members J kvs = [] \<Longrightarrow> rj_topic st' = rj_topic st"
proof -
  have stats: "\<not> strcasecmp0 stats_add_key ''topic''" by code_simp
  have "json_loop J conf_ok kvs st = Inr st' \<Longrightarrow> rj_topic st' = (if topic_members J kvs = [] then rj_topic st else Some (last (topic_members J kvs)))"
  proof (induction kvs arbitrary: st)
    case (Cons kv kvs)
    from Cons.prems obtain st1 where st1: "json_member J conf_ok kv st = Inr st1" "json_loop J conf_ok kvs st1 = Inr st'"
      by (auto simp: c_bind_Inr_iff)
    have "rj_topic st1 = (if topic_members J [kv] = [] then rj_topic st else Some (last (topic_members J [kv])))"
      using st1(1) stats
      by (cases kv) (auto simp: json_member_def parse_rdkafka_config_keyval_def parse_rdkafka_config_json_def assert_json_string_def topic_members_def
          List.map_filter_simps c_bind_Inr_iff strcmp0_def split: if_splits option.splits)
    moreover have "topic_members J (kv # kvs) = topic_members J [kv] @ topic_members J kvs"
      by (simp add: topic_members_def List.map_filter_simps split: option.split)
    ultimately show ?case using Cons.IH [OF st1(2)] by simp
  qed (simp add: topic_members_def List.map_filter_simps)
  then show "json_loop J conf_ok kvs st = Inr st' \<Longrightarrow> topic_members J kvs = ts @ [t] \<Longrightarrow> rj_topic st' = Some t"
    "json_loop J conf_ok kvs st = Inr st' \<Longrightarrow> topic_members J kvs = [] \<Longrightarrow> rj_topic st' = rj_topic st" by simp_all
qed

lemma get_rdkafka_config_topic:
  assumes "get_rdkafka_config J new_ok conf_ok uninit malloc_ok environ conf topic root = Inr (conf', topic')"
    and "topic_members J (json_members J root) = ts @ [t]"
  shows "topic' = Some t"
  using assms(1) json_loop_topic(1) [OF _ assms(2)] by (auto simp: get_rdkafka_config_def c_bind_Inr_iff split: if_splits)

text \<open>The option that a key of the configuration stands for.\<close>

definition option_name :: "string \<Rightarrow> string" where
  "option_name key =
     (let name0 = drop 8 key in if take 6 name0 = ''topic.'' then drop 6 name0 else name0)"

definition option_setting :: "string \<Rightarrow> string \<Rightarrow> (string \<times> string) option" where
  "option_setting key val = (if option_name key = ''n2kafka.statistics.topic'' then None else Some (option_name key, val))"

text \<open>The option a string of the environment sets: a variable with the prefix, a short name and a value.\<close>

definition env_setting :: "(nat \<Rightarrow> char) \<Rightarrow> string \<Rightarrow> (string \<times> string) option" where
  "env_setting uninit entry =
     (case strchr entry CHR ''='' of
        Some n \<Rightarrow>
          if take 8 entry = ''RDKAFKA_'' \<and> n < 64 \<and> n + 1 < length entry \<and> env_option_key uninit (take n entry) \<noteq> stats_add_key
          then option_setting (env_option_key uninit (take n entry)) (drop (n + 1) entry) else None
      | None \<Rightarrow> None)"

text \<open>The option a member of the configuration file sets.\<close>

definition json_setting :: "'j jansson \<Rightarrow> string \<times> 'j \<Rightarrow> (string \<times> string) option" where
  "json_setting J kv =
     (case kv of
        (key, v) \<Rightarrow>
          (case json_string J v of
             None \<Rightarrow> None
           | Some val \<Rightarrow>
               if key = stats_add_key \<or> strcasecmp0 key ''topic'' then None
               else if strcasecmp0 key ''brokers'' then Some (''metadata.broker.list'', val)
               else if strcasecmp0 (take 8 key) ''rdkafka.'' then option_setting key val
               else None))"

lemma keyval_config_sets:
  assumes "parse_rdkafka_keyval_config conf_ok conf key val = Inr conf'" and "rk_conf conf = Some opts"
  shows "rk_conf conf' = Some (opts @ (case option_setting key val of None \<Rightarrow> [] | Some kv \<Rightarrow> [kv]))"
    and "extra_buf conf' = extra_buf conf" and "extra_size conf' = extra_size conf"
  using assms
  by (auto simp: parse_rdkafka_keyval_config_def Let_def option_setting_def option_name_def strncmp0_def strcmp0_def split: if_splits)

lemma environ_loop_sets:
  "environ_loop conf_ok uninit es st = Inr st' \<Longrightarrow> rk_conf (fst st) = Some opts \<Longrightarrow>
   rk_conf (fst st') = Some (opts @ List.map_filter (env_setting uninit) es) \<and>
   extra_buf (fst st') = extra_buf (fst st) \<and> extra_size (fst st') = extra_size (fst st)"
proof (induction es arbitrary: st opts)
  case (Cons e es)
  from Cons.prems(1) obtain st1 where st1: "environ_entry conf_ok uninit e st = Inr st1" "environ_loop conf_ok uninit es st1 = Inr st'"
    by (auto simp: c_bind_Inr_iff)
  have "rk_conf (fst st1) = Some (opts @ (case env_setting uninit e of None \<Rightarrow> [] | Some kv \<Rightarrow> [kv])) \<and>
      extra_buf (fst st1) = extra_buf (fst st) \<and> extra_size (fst st1) = extra_size (fst st)"
    using st1(1) Cons.prems(2)
    by (auto simp: environ_entry_def env_setting_def Let_def strncmp0_def rdkafka_env_prefix_def strcmp0_def c_bind_Inr_iff
        keyval_config_sets split: if_splits option.splits)
  with Cons.IH [OF st1(2)] show ?case by (auto simp: List.map_filter_simps split: option.splits)
qed (simp add: List.map_filter_simps)

lemma json_member_sets:
  assumes "json_member J conf_ok kv st = Inr st'" and "rk_conf (rj_conf st) = Some opts" and "rj_jstats_json_enrich st = None"
  shows "rk_conf (rj_conf st') = Some (opts @ (case json_setting J kv of None \<Rightarrow> [] | Some x \<Rightarrow> [x])) \<and>
    extra_buf (rj_conf st') = extra_buf (rj_conf st) \<and> extra_size (rj_conf st') = extra_size (rj_conf st) \<and>
    rj_jstats_json_enrich st' = None \<and>
    rj_stats_json_enrich st' = (if fst kv = stats_add_key then json_string J (snd kv) else rj_stats_json_enrich st)"
proof -
  obtain key v where kv: "kv = (key, v)" by force
  have brokers: "option_setting ''rdkafka.metadata.broker.list'' val = Some (''metadata.broker.list'', val)" for val
    by (simp add: option_setting_def option_name_def)
  have no_topic: "strcasecmp0 key ''topic'' \<Longrightarrow> key \<noteq> stats_add_key"
    by (auto simp: stats_add_key_def strcasecmp0_def)
  show ?thesis
  proof (cases "key = stats_add_key")
    case True
    with assms kv show ?thesis by (auto simp: json_member_def strcmp0_def json_setting_def split: option.splits)
  next
    case False
    with assms kv obtain conf topic where p: "parse_rdkafka_config_keyval J conf_ok (rj_conf st, rj_topic st) key v = Inr (conf, topic)"
      "st' = st\<lparr>rj_conf := conf, rj_topic := topic\<rparr>" by (auto simp: json_member_def strcmp0_def c_bind_Inr_iff)
    from p(1) assms(2) False have "rk_conf conf = Some (opts @ (case json_setting J kv of None \<Rightarrow> [] | Some x \<Rightarrow> [x])) \<and>
        extra_buf conf = extra_buf (rj_conf st) \<and> extra_size conf = extra_size (rj_conf st)"
      using kv brokers
      by (auto simp: parse_rdkafka_config_keyval_def parse_rdkafka_config_json_def assert_json_string_def json_setting_def
          c_bind_Inr_iff keyval_config_sets split: if_splits option.splits)
    with p(2) False kv assms(3) show ?thesis by simp
  qed
qed

lemma json_loop_sets:
  "json_loop J conf_ok kvs st = Inr st' \<Longrightarrow> rk_conf (rj_conf st) = Some opts \<Longrightarrow> rj_jstats_json_enrich st = None \<Longrightarrow> distinct (map fst kvs) \<Longrightarrow>
   rk_conf (rj_conf st') = Some (opts @ List.map_filter (json_setting J) kvs) \<and>
   extra_buf (rj_conf st') = extra_buf (rj_conf st) \<and> extra_size (rj_conf st') = extra_size (rj_conf st) \<and> rj_jstats_json_enrich st' = None \<and>
   rj_stats_json_enrich st' = (case map_of kvs stats_add_key of Some v \<Rightarrow> json_string J v | None \<Rightarrow> rj_stats_json_enrich st)"
proof (induction kvs arbitrary: st opts)
  case (Cons kv kvs)
  from Cons.prems(1) obtain st1 where st1: "json_member J conf_ok kv st = Inr st1" "json_loop J conf_ok kvs st1 = Inr st'"
    by (auto simp: c_bind_Inr_iff)
  note m = json_member_sets [OF st1(1) Cons.prems(2,3)]
  have "map_of kvs stats_add_key = None" if "fst kv = stats_add_key" using that Cons.prems(4) by (auto simp: map_of_eq_None_iff)
  with Cons.IH [OF st1(2), of "opts @ (case json_setting J kv of None \<Rightarrow> [] | Some x \<Rightarrow> [x])"] m Cons.prems(4) show ?case
    by (cases kv) (auto simp: List.map_filter_simps split: option.splits)
qed (simp add: List.map_filter_simps)

lemma get_rdkafka_config_runs:
  assumes "get_rdkafka_config J new_ok conf_ok uninit malloc_ok environ conf topic root = Inr (conf', topic')"
    and "distinct (map fst (json_members J root))"
  obtains st where "rk_conf (rj_conf st) = Some (List.map_filter (env_setting uninit) environ @ List.map_filter (json_setting J) (json_members J root))"
    "extra_buf (rj_conf st) = extra_buf conf" "extra_size (rj_conf st) = extra_size conf" "rj_jstats_json_enrich st = None"
    "map_of (json_members J root) stats_add_key = Some v \<Longrightarrow> rj_stats_json_enrich st = json_string J v"
    "stats_message_extra J malloc_ok st = Inr conf'"
proof -
  obtain conf1 enrich st where r: "environ_loop conf_ok uninit environ (conf\<lparr>rk_conf := Some []\<rparr>, None) = Inr (conf1, enrich)"
    "json_loop J conf_ok (json_members J root)
       \<lparr>rj_conf = conf1, rj_topic = topic, rj_stats_json_enrich = enrich, rj_jstats_json_enrich = None\<rparr> = Inr st"
    "stats_message_extra J malloc_ok st = Inr conf'"
    using assms(1) by (auto simp: get_rdkafka_config_def c_bind_Inr_iff split: if_splits)
  note e = environ_loop_sets [OF r(1), of "[]"]
  have st: "rk_conf (rj_conf st) = Some (List.map_filter (env_setting uninit) environ @ List.map_filter (json_setting J) (json_members J root)) \<and>
      extra_buf (rj_conf st) = extra_buf conf1 \<and> extra_size (rj_conf st) = extra_size conf1 \<and> rj_jstats_json_enrich st = None \<and>
      rj_stats_json_enrich st = (case map_of (json_members J root) stats_add_key of Some v \<Rightarrow> json_string J v | None \<Rightarrow> enrich)"
    using json_loop_sets [OF r(2), of "List.map_filter (env_setting uninit) environ"] e assms(2) by (simp cong: option.case_cong)
  show thesis by (rule that [of st]) (use st e r(3) in simp_all)
qed

section \<open>Properties\<close>


lemma strrchr_last: "CHR ''}'' \<notin> set post \<Longrightarrow> strrchr (text0 @ ''}'' @ post) CHR ''}'' = Some (length text0)"
proof -
  assume "CHR ''}'' \<notin> set post"
  then have "takeWhile (\<lambda>x. x \<noteq> CHR ''}'') (rev post @ CHR ''}'' # rev text0) = rev post"
    by (subst takeWhile_append2) auto
  then show ?thesis by (simp add: strrchr_def strchrnul_def)
qed

lemma strchr_first: "c \<notin> set pre \<Longrightarrow> strchr (pre @ c # rest) c = Some (length pre)"
proof -
  assume "c \<notin> set pre"
  then have "takeWhile (\<lambda>x. x \<noteq> c) (pre @ c # rest) = pre" by (subst takeWhile_append2) auto
  then show ?thesis by (simp add: strchr_def strchrnul_def)
qed

text \<open>C32: the members of a JSON object that the configuration file asks to append reach the statistics: after
  the configuration is read and librdkafka started, every report of librdkafka is handed on with exactly
  the text between the braces of that object in front of its own closing brace.\<close>

theorem stats_append_configured:
  assumes "get_rdkafka_config J new_ok conf_ok uninit malloc_ok environ conf topic root = Inr (conf', topic')"
    and "distinct (map fst (json_members J root))" and "map_of (json_members J root) stats_add_key = Some v"
    and "json_string J v = Some (pre @ ''{'' @ extra @ ''}'' @ post)" and "CHR ''{'' \<notin> set pre" and "CHR ''}'' \<notin> set post"
    and "json_loads J (pre @ ''{'' @ extra @ ''}'' @ post) = Some j" and "json_members J j \<noteq> []"
    and "init_rdkafka True topic_new conf' stats0 = Inr (registered, conf'', stats)"
    and "al_ok al (of_nat (length (text0 @ ''}'') + length extra + 1))" and "length (text0 @ ''}'') + length extra + 1 < 2 ^ 64"
  shows "registered = Decorated_stats \<and>
    rdkafka_stats_enrich_decorator_cb al produce_ok stats (text0 @ ''}'') (length (text0 @ ''}'')) =
      r_bind (stats_child produce_ok stats (text0 @ '','' @ extra @ ''}'') (length (text0 @ '','' @ extra @ ''}'')))
        (\<lambda>(child_rc, out). if child_rc = PLEASE_FREE_LIBRDKAFKA then r_return (I_WILL_FREE_LIBRDKAFKA, out, True)
           else r_return (child_rc, out, False))"
proof -
  let ?str = "pre @ ''{'' @ extra @ ''}'' @ post"
  obtain st where st: "rj_jstats_json_enrich st = None" "rj_stats_json_enrich st = Some ?str" "stats_message_extra J malloc_ok st = Inr conf'"
    by (rule get_rdkafka_config_runs [OF assms(1,2), of v]) (use assms(3,4) in \<open>auto intro: that\<close>)
  have "strchr ?str CHR ''{'' = Some (length pre)" using strchr_first [OF assms(5)] by simp
  moreover have "strrchr (drop (length pre) ?str) CHR ''}'' = Some (length extra + 1)"
    using strrchr_last [OF assms(6), of "''{'' @ extra"] by simp
  ultimately have conf: "extra_buf conf' = Some (extra @ [NUL])" "extra_size conf' = length extra + 1"
    using st assms(7,8) by (auto simp: stats_message_extra_def split: if_splits)
  from assms(9) conf have "registered = Decorated_stats" "append_buf stats = Some (extra @ [NUL])" "append_size stats = length extra + 1"
    by (auto simp: init_rdkafka_def Let_def split: option.splits)
  with enrich_members [OF refl _ _ assms(10,11)] show ?thesis by simp
qed

text \<open>An object for the members is refused, although the message for it says that an object will do.\<close>

lemma stats_append_object_exits:
  assumes "json_string J v = None" and "(stats_add_key, v) \<in> set kvs" and "rj_jstats_json_enrich st = None"
    and "rk_conf (rj_conf st) = Some opts"
  shows "\<exists>e. json_loop J conf_ok kvs st = Inl e"
  using assms(2-)
proof (induction kvs arbitrary: st opts)
  case (Cons kv kvs)
  show ?case
  proof (cases "kv = (stats_add_key, v)")
    case True
    with assms(1) Cons.prems(2) show ?thesis by (simp add: json_member_def strcmp0_def)
  next
    case False
    show ?thesis
    proof (cases "json_member J conf_ok kv st")
      case (Inr st1)
      with Cons.IH [of st1] json_member_sets [OF Inr Cons.prems(3,2)] Cons.prems(1) False show ?thesis by auto
    qed simp
  qed
qed simp

section \<open>Witnesses\<close>

text \<open>A configuration file with an option and members to append, and the environment with the same option.\<close>

definition demo_rdkafka_root :: json where
  "demo_rdkafka_root = J_obj [(''rdkafka.a'', J_str ''2''), (''rdkafka.n2kafka.statistics.topic'', J_str ''s''), (stats_add_key, J_str ''{b}'')]"

definition demo_rdkafka_json :: "json jansson" where
  "demo_rdkafka_json = json_values (\<lambda>_. Some (J_obj [(''b'', J_other)]))"

definition empty_rdkafka_conf :: n2kafka_rdkafka_conf where
  "empty_rdkafka_conf = \<lparr>rk_conf = None, statistics_topic = None, extra_buf = None, extra_size = 0\<rparr>"

definition demo_rdkafka_conf :: n2kafka_rdkafka_conf where
  "demo_rdkafka_conf = \<lparr>rk_conf = Some [(''a'', ''1''), (''a'', ''2'')], statistics_topic = Some ''s'', extra_buf = Some (''b'' @ [NUL]), extra_size = 2\<rparr>"

lemma demo_env_key: "env_option_key (\<lambda>_. NUL) ''RDKAFKA_A'' = ''rdkafka.a''"
  by code_simp

lemma demo_rdkafka_runs:
  "get_rdkafka_config demo_rdkafka_json True (\<lambda>_ _. True) (\<lambda>_. NUL) (\<lambda>_. True) [''RDKAFKA_A=1''] empty_rdkafka_conf None demo_rdkafka_root =
     Inr (demo_rdkafka_conf, None)"
  by (simp add: get_rdkafka_config_def environ_entry_def strncmp0_def rdkafka_env_prefix_def strchr_def strchrnul_def strrchr_def
      demo_env_key strcmp0_def stats_add_key_def parse_rdkafka_keyval_config_def demo_rdkafka_root_def demo_rdkafka_conf_def
      demo_rdkafka_json_def json_values_def json_member_def parse_rdkafka_config_keyval_def parse_rdkafka_config_json_def
      assert_json_string_def stats_message_extra_def empty_rdkafka_conf_def strcasecmp0_def tolower_def Let_def)

lemma demo_rdkafka_members:
  "distinct (map fst (json_members demo_rdkafka_json demo_rdkafka_root))"
  "map_of (json_members demo_rdkafka_json demo_rdkafka_root) stats_add_key = Some (J_str ''{b}'')"
  by (simp_all add: demo_rdkafka_json_def json_values_def demo_rdkafka_root_def stats_add_key_def)


theorem stats_append_configured_witness:
  "\<exists>conf stats. init_rdkafka True (\<lambda>_. Some 7) demo_rdkafka_conf \<lparr>stats_topic = None, n2k_stats_cb = Stats_rdlog_cb, append_buf = None, append_size = 0\<rparr> =
       Inr (Decorated_stats, conf, stats) \<and>
     rdkafka_stats_enrich_decorator_cb total_allocator (\<lambda>_ _. True) stats ''{a}'' 3 =
       r_return (I_WILL_FREE_LIBRDKAFKA, \<lparr>so_produced = [(7, ''{a,b}'')], so_logged = []\<rparr>, False)"
proof -
  let ?s0 = "\<lparr>stats_topic = None, n2k_stats_cb = Stats_rdlog_cb, append_buf = None, append_size = 0\<rparr>"
  let ?stats = "\<lparr>stats_topic = Some 7, n2k_stats_cb = Stats_topic_cb, append_buf = Some (''b'' @ [NUL]), append_size = 2\<rparr>"
  have i: "init_rdkafka True (\<lambda>_. Some 7) demo_rdkafka_conf ?s0 = Inr (Decorated_stats, demo_rdkafka_conf\<lparr>rk_conf := None\<rparr>, ?stats)"
    by (simp add: init_rdkafka_def demo_rdkafka_conf_def)
  have s: "json_string demo_rdkafka_json (J_str ''{b}'') = Some ([] @ ''{'' @ ''b'' @ ''}'' @ [])"
    by (simp add: demo_rdkafka_json_def json_values_def)
  have j: "json_loads demo_rdkafka_json ([] @ ''{'' @ ''b'' @ ''}'' @ []) = Some (J_obj [(''b'', J_other)])"
    "json_members demo_rdkafka_json (J_obj [(''b'', J_other)]) \<noteq> []" by (simp_all add: demo_rdkafka_json_def json_values_def)
  from stats_append_configured [OF demo_rdkafka_runs demo_rdkafka_members s _ _ j i, of total_allocator "''{a''" "\<lambda>_ _. True"] i
  show ?thesis
    by (simp add: stats_child_def rdkafka_stats_topic_cb_def I_WILL_FREE_LIBRDKAFKA_def PLEASE_FREE_LIBRDKAFKA_def numeral_3_eq_3)
qed

end
