(* ===== verification/Global_Config.thy ===== *)
theory Global_Config
  imports Rdkafka_Config In_Addr_List Listener_Api Zz_Decoder
begin

text \<open>
  The configuration of the program (\<^verbatim>\<open>src/engine/global_config.c\<close>) and its main loop
  (\<^verbatim>\<open>src/engine/n2kafka.c\<close>): reading the file, creating the listeners it names, reloading it and shutting
  down. Listeners are objects of a type \<open>'l\<close> with the functions their structure points to, over a world \<open>'w\<close>;
  the contracts these functions keep are the locales \<open>listener_objects\<close>, \<open>listener_resources\<close> and \<open>typed_listeners\<close>. The file system, librdkafka and the
  JSON library are parameters, and a fatal error ends the program.
\<close>

section \<open>Registered decoders and listeners\<close>

datatype decoder_id = Dumb_decoder_id | Meraki_decoder_id | Zz_decoder_id

fun decoder_id_name :: "decoder_id \<Rightarrow> string" where
  "decoder_id_name Dumb_decoder_id = []"
| "decoder_id_name Meraki_decoder_id = ''meraki''"
| "decoder_id_name Zz_decoder_id = zz_name"

definition registered_decoders :: "decoder_id list" where
  "registered_decoders = [Dumb_decoder_id, Meraki_decoder_id, Zz_decoder_id]"

datatype factory_id = Http_factory | Tcp_factory | Udp_factory

text \<open>The name of the UDP listeners is not the one of their protocol.\<close>

fun factory_name :: "factory_id \<Rightarrow> string" where
  "factory_name Http_factory = ''http''"
| "factory_name Tcp_factory = ''tcp''"
| "factory_name Udp_factory = ''ucp''"

definition registered_listeners :: "factory_id list" where
  "registered_listeners = [Http_factory, Tcp_factory, Udp_factory]"

definition listener_for :: "string \<Rightarrow> factory_id option" where
  "listener_for proto = List.find (\<lambda>f. strcmp0 (factory_name f) proto) registered_listeners"

definition locate_registered_decoder :: "string \<Rightarrow> decoder_id option" where
  "locate_registered_decoder decode_as = List.find (\<lambda>d. strcmp0 (decoder_id_name d) decode_as) registered_decoders"

text \<open>The functions of listeners and decoders; those a structure may leave out are options.\<close>

record ('l, 'w, 'j) listener_ops =
  lo_port :: "'l \<Rightarrow> 16 word"
  lo_join :: "'l \<Rightarrow> ('w \<Rightarrow> 'w c_run) option"
  lo_reload :: "'l \<Rightarrow> ('j \<Rightarrow> 'w \<Rightarrow> (int \<times> 'l \<times> 'w) c_run) option"
  lo_create :: "factory_id \<Rightarrow> decoder_id \<Rightarrow> 'j \<Rightarrow> 'w \<Rightarrow> ('l option \<times> 'w) c_run"
  lo_decoder_init :: "decoder_id \<Rightarrow> ('w \<Rightarrow> (int \<times> 'w) c_run) option"
  lo_decoder_done :: "decoder_id \<Rightarrow> ('w \<Rightarrow> 'w c_run) option"

section \<open>The configuration\<close>

record ('l, 'w) n2kafka_config =
  gc_config_path :: "string option"
  gc_topic :: "string option"
  gc_blacklist :: in_addr_list
  gc_response :: "bytes option"
  gc_listeners :: "'l list"
  gc_log_severity :: int
  gc_stats :: kafka_stats
  gc_world :: 'w

text \<open>inet_pton: an address, a text that is not an address (the result is left as it was), or an error.\<close>

datatype pton_result = Pton_addr in_addr | Pton_not_an_address | Pton_error

record 'j config_env =
  ce_json :: "'j jansson"
  ce_load_file :: "string \<Rightarrow> 'j option"
  ce_file_read :: "string \<Rightarrow> bytes option"
  ce_pton :: "string \<Rightarrow> pton_result"
  ce_uninit_addr :: in_addr
  ce_calloc_ok :: bool
  ce_environ :: "string list"
  ce_conf_new_ok :: bool
  ce_conf_ok :: "string \<Rightarrow> string \<Rightarrow> bool"
  ce_uninit :: "nat \<Rightarrow> char"
  ce_malloc_ok :: "nat \<Rightarrow> bool"
  ce_rk_ok :: bool
  ce_topic_new :: "string option \<Rightarrow> rkt option"

fun init_decoders ::
  "('l, 'w, 'j) listener_ops \<Rightarrow> decoder_id list \<Rightarrow> 'w \<Rightarrow> 'w c_run" where
  "init_decoders L [] w = r_return w"
| "init_decoders L (d # ds) w =
     (case lo_decoder_init L d of
        None \<Rightarrow> init_decoders L ds w
      | Some init \<Rightarrow> r_bind (init w) (\<lambda>(rc, w1). init_decoders L ds w1))"

definition zeroed_stats :: kafka_stats where
  "zeroed_stats = \<lparr>stats_topic = None, n2k_stats_cb = Stats_topic_cb, append_buf = None, append_size = 0\<rparr>"

definition init_global_config :: "('l, 'w, 'j) listener_ops \<Rightarrow> bool \<Rightarrow> 'w \<Rightarrow> ('l, 'w) n2kafka_config c_run" where
  "init_global_config L calloc_ok w =
     r_bind (run_r (in_addr_list_new calloc_ok)) (\<lambda>blacklist.
       r_bind (init_decoders L registered_decoders w) (\<lambda>w1.
         r_return \<lparr>gc_config_path = None, gc_topic = None, gc_blacklist = blacklist, gc_response = None, gc_listeners = [],
                   gc_log_severity = 6, gc_stats = zeroed_stats, gc_world = w1\<rparr>))"

definition assert_pton :: "(string \<Rightarrow> pton_result) \<Rightarrow> in_addr \<Rightarrow> string \<Rightarrow> in_addr c_result" where
  "assert_pton pton dst src =
     (case pton src of Pton_error \<Rightarrow> Inl Exited | Pton_not_an_address \<Rightarrow> Inr dst | Pton_addr a \<Rightarrow> Inr a)"

definition parse_response :: "(string \<Rightarrow> bytes option) \<Rightarrow> string \<Rightarrow> bytes c_result" where
  "parse_response file_read filename = (case file_read filename of None \<Rightarrow> Inl Exited | Some response \<Rightarrow> Inr response)"

fun parse_blacklist :: "'j config_env \<Rightarrow> 'j list \<Rightarrow> in_addr_list \<Rightarrow> in_addr_list c_result" where
  "parse_blacklist E [] blacklist = Inr blacklist"
| "parse_blacklist E (val # vals) blacklist =
     c_bind (assert_json_string (ce_json E) val) (\<lambda>addr_string.
       c_bind (assert_pton (ce_pton E) (ce_uninit_addr E) addr_string) (\<lambda>addr.
         c_bind (in_addr_list_add (ce_calloc_ok E) blacklist addr) (parse_blacklist E vals)))"

section \<open>Listeners\<close>

definition parse_listener ::
  "('l, 'w, 'j) listener_ops \<Rightarrow> 'j jansson \<Rightarrow> 'j \<Rightarrow> 'l list \<times> 'w \<Rightarrow> ('l list \<times> 'w) c_run" where
  "parse_listener L J config st =
     (case json_unpack_ex J config [Unpack_s ''proto'' False, Unpack_s ''decode_as'' True] of
        (ok, us) \<Rightarrow>
          if \<not> ok then r_return st
          else case set_string (unpacked_at us 0) None of
                 None \<Rightarrow> r_return st
               | Some proto \<Rightarrow>
                   (case listener_for proto of
                      None \<Rightarrow> r_return st
                    | Some factory \<Rightarrow>
                        (case set_string (unpacked_at us 1) (Some []) of
                           None \<Rightarrow> Some (Inl NullDeref)
                         | Some decode_as \<Rightarrow>
                             (case locate_registered_decoder decode_as of
                                None \<Rightarrow> Some (Inl Exited)
                              | Some decoder \<Rightarrow>
                                  r_bind (lo_create L factory decoder config (snd st)) (\<lambda>(proto_listener, w1).
                                    case proto_listener of
                                      None \<Rightarrow> Some (Inl Exited)
                                    | Some l \<Rightarrow> r_return (l # fst st, w1))))))"

fun parse_listeners ::
  "('l, 'w, 'j) listener_ops \<Rightarrow> 'j jansson \<Rightarrow> 'j list \<Rightarrow> 'l list \<times> 'w \<Rightarrow> ('l list \<times> 'w) c_run" where
  "parse_listeners L J [] st = r_return st"
| "parse_listeners L J (j # js) st = r_bind (parse_listener L J j st) (parse_listeners L J js)"

text \<open>A failed unpacking is logged; what it set before it failed is used.\<close>

definition parse_config ::
  "('l, 'w, 'j) listener_ops \<Rightarrow> 'j config_env \<Rightarrow> string \<Rightarrow> ('l, 'w) n2kafka_config
   \<Rightarrow> (registered_stats_cb \<times> ('l, 'w) n2kafka_config) c_run" where
  "parse_config L E config_file_path gc =
     (let J = ce_json E
      in case ce_load_file E config_file_path of
           None \<Rightarrow> Some (Inl Exited)
         | Some root \<Rightarrow>
             r_bind (run_r (get_rdkafka_config J (ce_conf_new_ok E) (ce_conf_ok E) (ce_uninit E) (ce_malloc_ok E) (ce_environ E)
                              \<lparr>rk_conf = None, statistics_topic = None, extra_buf = None, extra_size = 0\<rparr> (gc_topic gc) root)) (\<lambda>(conf, topic).
               case json_unpack_ex J root [Unpack_i ''debug'' True, Unpack_s ''response'' True, Unpack_o ''blacklist'' True,
                                           Unpack_o ''listeners'' False] of
                 (_, us) \<Rightarrow>
                   r_bind (run_r (case set_string (unpacked_at us 1) None of
                                    None \<Rightarrow> Inr (gc_response gc)
                                  | Some response_file \<Rightarrow> c_bind (parse_response (ce_file_read E) response_file) (\<lambda>r. Inr (Some r)))) (\<lambda>response.
                     r_bind (run_r (case set_json (unpacked_at us 2) None of
                                      None \<Rightarrow> Inr (gc_blacklist gc)
                                    | Some blacklist \<Rightarrow> parse_blacklist E (json_elements J blacklist) (gc_blacklist gc))) (\<lambda>blacklist.
                       r_bind (run_r (init_rdkafka (ce_rk_ok E) (ce_topic_new E) conf (gc_stats gc))) (\<lambda>(registered, conf1, stats).
                         r_bind (parse_listeners L J (case set_json (unpacked_at us 3) None of None \<Rightarrow> [] | Some ls \<Rightarrow> json_elements J ls)
                                   (gc_listeners gc, gc_world gc)) (\<lambda>(listeners, w).
                           r_return (registered, \<lparr>gc_config_path = Some config_file_path, gc_topic = topic, gc_blacklist = blacklist,
                              gc_response = response, gc_listeners = listeners,
                              gc_log_severity = set_int (unpacked_at us 0) (gc_log_severity gc), gc_stats = stats, gc_world = w\<rparr>)))))))"

section \<open>Reloading and shutting down\<close>

definition shutdown_listener :: "('l, 'w, 'j) listener_ops \<Rightarrow> 'l \<Rightarrow> 'w \<Rightarrow> 'w c_run" where
  "shutdown_listener L i w = (case lo_join L i of None \<Rightarrow> r_return w | Some join \<Rightarrow> join w)"

fun shutdown_listeners :: "('l, 'w, 'j) listener_ops \<Rightarrow> 'l list \<Rightarrow> 'w \<Rightarrow> 'w c_run" where
  "shutdown_listeners L [] w = r_return w"
| "shutdown_listeners L (i # is) w = r_bind (shutdown_listener L i w) (shutdown_listeners L is)"

definition unpacked_port :: "'j jansson \<Rightarrow> 'j \<Rightarrow> int" where
  "unpacked_port J j = set_int (unpacked_at (snd (json_unpack_ex J j [Unpack_i ''port'' False])) 0) 0"

fun find_configured :: "'j jansson \<Rightarrow> 16 word \<Rightarrow> 'j list \<Rightarrow> 'j option" where
  "find_configured J i_port [] = None"
| "find_configured J i_port (val # vals) =
     (let port = unpacked_port J val
      in if port > 0 \<and> port = uint i_port then Some val else find_configured J i_port vals)"

fun reload_listeners_check_already_present ::
  "('l, 'w, 'j) listener_ops \<Rightarrow> 'j jansson \<Rightarrow> 'j list \<Rightarrow> 'l list \<Rightarrow> 'w \<Rightarrow> ('l list \<times> 'w) c_run" where
  "reload_listeners_check_already_present L J new_listeners [] w = r_return ([], w)"
| "reload_listeners_check_already_present L J new_listeners (i # is) w =
     (case (find_configured J (lo_port L i) new_listeners, lo_reload L i) of
        (Some found_value, Some reload) \<Rightarrow>
          r_bind (reload found_value w) (\<lambda>(rc, i', w1).
            r_bind (reload_listeners_check_already_present L J new_listeners is w1) (\<lambda>(is', w2). r_return (i' # is', w2)))
      | _ \<Rightarrow>
          r_bind (shutdown_listener L i w) (reload_listeners_check_already_present L J new_listeners is))"

text \<open>The port is unpacked into 16 bits here.\<close>

fun reload_listeners_create_new_ones ::
  "('l, 'w, 'j) listener_ops \<Rightarrow> 'j jansson \<Rightarrow> 'j list \<Rightarrow> 'l list \<times> 'w \<Rightarrow> ('l list \<times> 'w) c_run" where
  "reload_listeners_create_new_ones L J [] st = r_return st"
| "reload_listeners_create_new_ones L J (j # js) st =
     (let searched_port = (word_of_int (unpacked_port J j) :: 16 word)
      in if \<exists>i \<in> set (fst st). lo_port L i \<noteq> 0 \<and> lo_port L i = searched_port
         then reload_listeners_create_new_ones L J js st
         else r_bind (parse_listener L J j st) (reload_listeners_create_new_ones L J js))"

definition reload_listeners ::
  "('l, 'w, 'j) listener_ops \<Rightarrow> 'j jansson \<Rightarrow> 'j \<Rightarrow> ('l, 'w) n2kafka_config \<Rightarrow> ('l, 'w) n2kafka_config c_run" where
  "reload_listeners L J new_config gc =
     (case json_unpack_ex J new_config [Unpack_o ''listeners'' False] of
        (ok, us) \<Rightarrow>
          if \<not> ok then r_return gc
          else let new_listeners = (case set_json (unpacked_at us 0) None of None \<Rightarrow> [] | Some ls \<Rightarrow> json_elements J ls)
               in r_bind (reload_listeners_check_already_present L J new_listeners (gc_listeners gc) (gc_world gc)) (\<lambda>st.
                    r_bind (reload_listeners_create_new_ones L J new_listeners st) (\<lambda>(listeners, w).
                      r_return (gc\<lparr>gc_listeners := listeners, gc_world := w\<rparr>))))"

text \<open>A file that cannot be parsed is passed on as a null pointer, which nothing can be unpacked from.\<close>

definition reload_config ::
  "('l, 'w, 'j) listener_ops \<Rightarrow> 'j config_env \<Rightarrow> ('l, 'w) n2kafka_config \<Rightarrow> ('l, 'w) n2kafka_config c_run" where
  "reload_config L E gc =
     (case gc_config_path gc of
        None \<Rightarrow> r_return gc
      | Some config_path \<Rightarrow>
          (case ce_load_file E config_path of
             None \<Rightarrow> r_return gc
           | Some new_config_file \<Rightarrow> reload_listeners L (ce_json E) new_config_file gc))"

fun done_decoders :: "('l, 'w, 'j) listener_ops \<Rightarrow> decoder_id list \<Rightarrow> 'w \<Rightarrow> 'w c_run" where
  "done_decoders L [] w = r_return w"
| "done_decoders L (d # ds) w =
     (case lo_decoder_done L d of None \<Rightarrow> done_decoders L ds w | Some don \<Rightarrow> r_bind (don w) (done_decoders L ds))"

text \<open>Stopping librdkafka may not return (\<open>stop_rdkafka\<close>); the result has the world and the addresses that were freed.\<close>

definition free_global_config ::
  "('l, 'w, 'j) listener_ops \<Rightarrow> (nat \<Rightarrow> nat) \<Rightarrow> (nat \<Rightarrow> nat) \<Rightarrow> ('l, 'w) n2kafka_config \<Rightarrow> ('w \<times> in_addr_list_node list) c_run" where
  "free_global_config L outq undestroyed gc =
     r_bind (shutdown_listeners L (gc_listeners gc) (gc_world gc)) (\<lambda>w1.
       r_bind (done_decoders L registered_decoders w1) (\<lambda>w2.
         case stop_rdkafka outq undestroyed (gc_stats gc) of
           None \<Rightarrow> None
         | Some _ \<Rightarrow> r_return (w2, in_addr_list_done (gc_blacklist gc))))"

section \<open>The program\<close>

text \<open>
  The handlers of signals set the flags that the main loop looks at. A round of the loop has the signals that
  arrive before it tests whether to stop, those that arrive until it tests whether to reload, and those that arrive
  during a reload; signals are blocked until the handlers are there, and come in the first round.
\<close>

datatype signal = SIGINT | SIGHUP

record main_flags =
  mf_do_shutdown :: bool
  mf_do_reload :: bool

definition shutdown_process :: "main_flags \<Rightarrow> main_flags" where
  "shutdown_process fl = fl\<lparr>mf_do_shutdown := True\<rparr>"

definition sighup_proc :: "main_flags \<Rightarrow> main_flags" where
  "sighup_proc fl = fl\<lparr>mf_do_reload := True\<rparr>"

fun handle_signals :: "signal list \<Rightarrow> main_flags \<Rightarrow> main_flags" where
  "handle_signals [] fl = fl"
| "handle_signals (SIGINT # sigs) fl = handle_signals sigs (shutdown_process fl)"
| "handle_signals (SIGHUP # sigs) fl = handle_signals sigs (sighup_proc fl)"

record loop_signals =
  ls_test :: "signal list"
  ls_poll :: "signal list"
  ls_reload :: "signal list"

partial_function (option) main_loop ::
  "('l, 'w, 'j) listener_ops \<Rightarrow> (nat \<Rightarrow> 'j config_env) \<Rightarrow> (nat \<Rightarrow> loop_signals) \<Rightarrow> nat \<Rightarrow> main_flags \<Rightarrow> ('l, 'w) n2kafka_config \<Rightarrow> ('l, 'w) n2kafka_config c_run" where
  "main_loop L E signals n fl gc =
     (let fl0 = handle_signals (ls_test (signals n)) fl
      in if mf_do_shutdown fl0 then r_return gc
         else let fl1 = handle_signals (ls_poll (signals n)) fl0
              in if mf_do_reload fl1
                 then r_bind (reload_config L (E n) gc) (\<lambda>gc1.
                        main_loop L E signals (Suc n) ((handle_signals (ls_reload (signals n)) fl1)\<lparr>mf_do_reload := False\<rparr>) gc1)
                 else main_loop L E signals (Suc n) fl1 gc)"

definition is_asking_help :: "string \<Rightarrow> bool" where
  "is_asking_help param \<longleftrightarrow> strcmp0 param ''-h'' \<or> strcmp0 param ''--help''"

definition n2kafka_main ::
  "('l, 'w, 'j) listener_ops \<Rightarrow> 'j config_env \<Rightarrow> (nat \<Rightarrow> 'j config_env) \<Rightarrow> (nat \<Rightarrow> loop_signals) \<Rightarrow> (nat \<Rightarrow> nat) \<Rightarrow> (nat \<Rightarrow> nat)
   \<Rightarrow> string list \<Rightarrow> 'w \<Rightarrow> ('w \<times> in_addr_list_node list) c_run" where
  "n2kafka_main L E reloads signals outq undestroyed argv w =
     (if length argv \<noteq> 2 \<or> is_asking_help (argv ! 1) then Some (Inl Exited)
      else r_bind (init_global_config L (ce_calloc_ok E) w) (\<lambda>gc.
        r_bind (parse_config L E (argv ! 1) gc) (\<lambda>(registered, gc1).
          r_bind (main_loop L reloads signals 0 \<lparr>mf_do_shutdown = False, mf_do_reload = False\<rparr> gc1) (free_global_config L outq undestroyed))))"

section \<open>What the main loop does\<close>

text \<open>
  The loop without flags: \<open>polls n\<close> tells whether the \<open>n\<close>th round reloads and whether the end was asked for before
  it. A round reloads if a SIGHUP came before it looks, and it is the last if a SIGINT came before it looks;
  a SIGHUP that comes while the configuration is reloaded is lost.
\<close>

partial_function (option) poll_loop ::
  "('l, 'w, 'j) listener_ops \<Rightarrow> (nat \<Rightarrow> 'j config_env) \<Rightarrow> (nat \<Rightarrow> bool \<times> bool) \<Rightarrow> nat \<Rightarrow> ('l, 'w) n2kafka_config \<Rightarrow> ('l, 'w) n2kafka_config c_run" where
  "poll_loop L E polls n gc =
     (if snd (polls n) then r_return gc
      else r_bind (if fst (polls n) then reload_config L (E n) gc else r_return gc) (poll_loop L E polls (Suc n)))"

definition reload_seen :: "(nat \<Rightarrow> loop_signals) \<Rightarrow> nat \<Rightarrow> bool" where
  "reload_seen signals n \<longleftrightarrow> SIGHUP \<in> set (ls_test (signals n) @ ls_poll (signals n))"

definition round_signals :: "(nat \<Rightarrow> loop_signals) \<Rightarrow> nat \<Rightarrow> signal list" where
  "round_signals signals n = ls_test (signals n) @ ls_poll (signals n) @ (if reload_seen signals n then ls_reload (signals n) else [])"

definition stop_seen :: "(nat \<Rightarrow> loop_signals) \<Rightarrow> nat \<Rightarrow> bool" where
  "stop_seen signals n \<longleftrightarrow> SIGINT \<in> set (ls_test (signals n)) \<or> (\<exists>k < n. SIGINT \<in> set (round_signals signals k))"

definition loop_answers :: "(nat \<Rightarrow> loop_signals) \<Rightarrow> nat \<Rightarrow> bool \<times> bool" where
  "loop_answers signals n = (reload_seen signals n, stop_seen signals n)"

lemma handle_signals_flags [simp]:
  "mf_do_shutdown (handle_signals sigs fl) \<longleftrightarrow> mf_do_shutdown fl \<or> SIGINT \<in> set sigs"
  "mf_do_reload (handle_signals sigs fl) \<longleftrightarrow> mf_do_reload fl \<or> SIGHUP \<in> set sigs"
  by (induction sigs fl rule: handle_signals.induct) (auto simp: shutdown_process_def sighup_proc_def)

text \<open>The flags when a round begins: no reload is left over, and the end is asked for if a signal of an earlier round did.\<close>

definition flags_at :: "(nat \<Rightarrow> loop_signals) \<Rightarrow> nat \<Rightarrow> main_flags \<Rightarrow> bool" where
  "flags_at signals n fl \<longleftrightarrow> \<not> mf_do_reload fl \<and> (mf_do_shutdown fl \<longleftrightarrow> (\<exists>k < n. SIGINT \<in> set (round_signals signals k)))"

text \<open>A round before the rest \<open>k\<close> of the loop, with the flags and without them.\<close>

definition flags_round ::
  "('c \<Rightarrow> 'c c_run) \<Rightarrow> loop_signals \<Rightarrow> (main_flags \<Rightarrow> 'c \<Rightarrow> 'c c_run) \<Rightarrow> main_flags \<Rightarrow> 'c \<Rightarrow> 'c c_run" where
  "flags_round reload sigs k fl gc =
     (let fl0 = handle_signals (ls_test sigs) fl
      in if mf_do_shutdown fl0 then r_return gc
         else let fl1 = handle_signals (ls_poll sigs) fl0
              in if mf_do_reload fl1
                 then r_bind (reload gc) (k ((handle_signals (ls_reload sigs) fl1)\<lparr>mf_do_reload := False\<rparr>))
                 else k fl1 gc)"

definition poll_round :: "('c \<Rightarrow> 'c c_run) \<Rightarrow> bool \<times> bool \<Rightarrow> ('c \<Rightarrow> 'c c_run) \<Rightarrow> 'c \<Rightarrow> 'c c_run" where
  "poll_round reload answers k gc = (if snd answers then r_return gc else r_bind (if fst answers then reload gc else r_return gc) k)"

lemma flags_round_poll:
  assumes "flags_at signals n fl"
  shows "\<exists>fl'. (snd (loop_answers signals n) \<or> flags_at signals (Suc n) fl') \<and>
    (\<forall>k gc. flags_round reload (signals n) k fl gc = poll_round reload (loop_answers signals n) (k fl') gc)"
proof -
  let ?fl1 = "handle_signals (ls_poll (signals n)) (handle_signals (ls_test (signals n)) fl)"
  let ?fl' = "if reload_seen signals n then (handle_signals (ls_reload (signals n)) ?fl1)\<lparr>mf_do_reload := False\<rparr> else ?fl1"
  have "snd (loop_answers signals n) \<or> flags_at signals (Suc n) ?fl'"
    using assms by (auto simp: loop_answers_def flags_at_def stop_seen_def round_signals_def reload_seen_def less_Suc_eq)
  moreover have "flags_round reload (signals n) k fl gc = poll_round reload (loop_answers signals n) (k ?fl') gc" for k gc
    using assms by (auto simp: flags_round_def poll_round_def Let_def loop_answers_def flags_at_def stop_seen_def reload_seen_def)
  ultimately show ?thesis by blast
qed

lemma poll_round_Some:
  assumes "poll_round reload answers k gc = Some y" and "\<And>gc y. \<not> snd answers \<Longrightarrow> k gc = Some y \<Longrightarrow> k' gc = Some y"
  shows "poll_round reload answers k' gc = Some y"
  using assms by (auto simp: poll_round_def r_bind_def split: option.splits sum.splits if_splits)

lemma main_loop_unfold:
  "main_loop L E signals n fl gc = flags_round (reload_config L (E n)) (signals n) (main_loop L E signals (Suc n)) fl gc"
  by (simp add: flags_round_def main_loop.simps [of L E signals n])

lemma poll_loop_unfold: "poll_loop L E polls n gc = poll_round (reload_config L (E n)) (polls n) (poll_loop L E polls (Suc n)) gc"
  by (simp add: poll_round_def poll_loop.simps [of L E polls n])

lemma poll_loop_main_loop:
  assumes "poll_loop L E polls n gc = Some y"
  shows "polls = loop_answers signals \<Longrightarrow> flags_at signals n fl \<Longrightarrow> main_loop L E signals n fl gc = Some y"
proof (induction arbitrary: fl rule: poll_loop.raw_induct [OF _ assms])
  case (1 pl L E polls n gc y)
  from "1.hyps" have hyp: "poll_round (reload_config L (E n)) (polls n) (pl L E polls (Suc n)) gc = Some y" by (simp add: poll_round_def)
  obtain fl' where fl': "snd (loop_answers signals n) \<or> flags_at signals (Suc n) fl'"
    "\<And>k gc. flags_round (reload_config L (E n)) (signals n) k fl gc = poll_round (reload_config L (E n)) (loop_answers signals n) (k fl') gc"
    using flags_round_poll [OF "1.prems"(2)] by blast
  show ?case unfolding main_loop_unfold [of L E signals n fl gc] fl'(2)
    by (rule poll_round_Some [OF hyp [unfolded "1.prems"(1)]]) (use fl'(1) "1.IH" "1.prems"(1) in auto)
qed

lemma main_loop_poll_loop:
  assumes "main_loop L E sigs n fl gc = Some y"
  shows "sigs = signals \<Longrightarrow> flags_at signals n fl \<Longrightarrow> poll_loop L E (loop_answers signals) n gc = Some y"
proof (induction rule: main_loop.raw_induct [OF _ assms])
  case (1 ml L E sigs n fl gc y)
  have hyp: "flags_round (reload_config L (E n)) (signals n) (ml L E signals (Suc n)) fl gc = Some y"
    unfolding flags_round_def using "1.hyps" unfolding "1.prems"(1) .
  obtain fl' where fl': "snd (loop_answers signals n) \<or> flags_at signals (Suc n) fl'"
    "\<And>k gc. flags_round (reload_config L (E n)) (signals n) k fl gc = poll_round (reload_config L (E n)) (loop_answers signals n) (k fl') gc"
    using flags_round_poll [OF "1.prems"(2)] by blast
  show ?case unfolding poll_loop_unfold [of L E _ n gc]
    by (rule poll_round_Some [OF hyp [unfolded fl'(2)]]) (use fl'(1) "1.IH" "1.prems"(1) in auto)
qed

text \<open>With its flags the loop does exactly what the loop without them does.\<close>

lemma main_loop_refines:
  assumes "flags_at signals n fl"
  shows "main_loop L E signals n fl gc = poll_loop L E (loop_answers signals) n gc"
proof (cases "poll_loop L E (loop_answers signals) n gc")
  case None
  with main_loop_poll_loop [OF _ refl assms, of L E gc] show ?thesis by (cases "main_loop L E signals n fl gc") auto
next
  case (Some y)
  with poll_loop_main_loop [OF Some refl assms] show ?thesis by simp
qed

lemma flags_at_start: "flags_at signals 0 \<lparr>mf_do_shutdown = False, mf_do_reload = False\<rparr>"
  by (simp add: flags_at_def)

lemmas main_loop_start = main_loop_refines [OF flags_at_start]

section \<open>The contract of listeners\<close>

text \<open>
  What the configuration relies on: a listener that can be joined can be reloaded and has the port of the
  configuration it was created from (if the JSON library unpacks the same port for all), and reloading keeps it.
\<close>

locale listener_objects =
  fixes L :: "('l, 'w, 'j) listener_ops" and J :: "'j jansson"
  assumes created: "unpack_ok J \<Longrightarrow> lo_create L f d j w = r_return (Some l, w') \<Longrightarrow> lo_join L l \<noteq> None \<Longrightarrow>
      lo_reload L l \<noteq> None \<and> lo_port L l = word_of_int (unpacked_port J j)"
    and reloaded: "lo_reload L l = Some r \<Longrightarrow> r j w = r_return (rc, l', w') \<Longrightarrow>
      lo_port L l' = lo_port L l \<and> lo_reload L l' \<noteq> None \<and> (lo_join L l' \<noteq> None \<longleftrightarrow> lo_join L l \<noteq> None)"

text \<open>A member of the array of listeners that names a known protocol.\<close>

definition names_listener :: "'j jansson \<Rightarrow> 'j \<Rightarrow> bool" where
  "names_listener J j \<longleftrightarrow>
     (case json_unpack_ex J j [Unpack_s ''proto'' False, Unpack_s ''decode_as'' True] of
        (ok, us) \<Rightarrow> ok \<and> (\<exists>proto. set_string (unpacked_at us 0) None = Some proto \<and> listener_for proto \<noteq> None))"

lemma parse_listener_creates:
  assumes "parse_listener L J j st = r_return st'" and "names_listener J j"
  shows "\<exists>l f d. fst st' = l # fst st \<and> lo_create L f d j (snd st) = r_return (Some l, snd st')"
proof -
  obtain us proto factory where u: "json_unpack_ex J j [Unpack_s ''proto'' False, Unpack_s ''decode_as'' True] = (True, us)"
    "set_string (unpacked_at us 0) None = Some proto" "listener_for proto = Some factory"
    using assms(2) by (auto simp: names_listener_def split: prod.splits)
  note run = assms(1) [unfolded parse_listener_def u prod.case option.case]
  obtain decode_as where da: "set_string (unpacked_at us 1) (Some []) = Some decode_as"
    using run by (cases "set_string (unpacked_at us 1) (Some [])") auto
  obtain d where d: "locate_registered_decoder decode_as = Some d"
    using run [unfolded da option.case] by (cases "locate_registered_decoder decode_as") auto
  from run [unfolded da d option.case] obtain l w1 where "lo_create L factory d j (snd st) = r_return (l, w1)"
    "(case l of None \<Rightarrow> Some (Inl Exited) | Some l \<Rightarrow> r_return (l # fst st, w1)) = r_return st'"
    by (auto simp: r_bind_return_iff)
  then show ?thesis by (cases l) (auto, blast)
qed

lemma find_configured_iff:
  "find_configured J p js \<noteq> None \<longleftrightarrow> (\<exists>j \<in> set js. unpacked_port J j > 0 \<and> unpacked_port J j = uint p)"
  by (induction js) (auto simp: Let_def)

text \<open>A port of the configuration as a number of sixteen bits.\<close>

definition port_of :: "'j jansson \<Rightarrow> 'j \<Rightarrow> 16 word" where
  "port_of J j = word_of_int (unpacked_port J j)"

definition ports_valid :: "'j jansson \<Rightarrow> 'j list \<Rightarrow> bool" where
  "ports_valid J js \<longleftrightarrow> (\<forall>j \<in> set js. 0 < unpacked_port J j \<and> unpacked_port J j < 2 ^ 16 \<and> names_listener J j)"

lemma port_of_valid:
  assumes "ports_valid J js" and "j \<in> set js"
  shows "uint (port_of J j) = unpacked_port J j" and "port_of J j \<noteq> 0"
proof -
  have b: "0 < unpacked_port J j" "unpacked_port J j < 2 ^ 16" using assms by (auto simp: ports_valid_def)
  then show u: "uint (port_of J j) = unpacked_port J j" by (simp add: port_of_def uint_word_of_int)
  with b(1) show "port_of J j \<noteq> 0" by auto
qed

lemma find_configured_valid:
  assumes "ports_valid J js"
  shows "find_configured J p js \<noteq> None \<longleftrightarrow> p \<in> port_of J ` set js"
  unfolding find_configured_iff using assms port_of_valid [OF assms]
  by (metis (no_types, lifting) image_iff ports_valid_def word_uint_eq_iff)

context listener_objects
begin

text \<open>The listeners that stay are those whose port is configured, in their order.\<close>

lemma present_ports:
  "reload_listeners_check_already_present L J js is w = r_return (is', w') \<Longrightarrow>
   map (lo_port L) is' = map (lo_port L) (filter (\<lambda>i. find_configured J (lo_port L i) js \<noteq> None \<and> lo_reload L i \<noteq> None) is)"
proof (induction "is" arbitrary: w is' w')
  case (Cons i "is")
  show ?case
  proof (cases "find_configured J (lo_port L i) js \<noteq> None \<and> lo_reload L i \<noteq> None")
    case True
    then obtain v r where vr: "find_configured J (lo_port L i) js = Some v" "lo_reload L i = Some r" by blast
    with Cons.prems obtain rc i' w1 is'' w2 where r: "r v w = r_return (rc, i', w1)"
      "reload_listeners_check_already_present L J js is w1 = r_return (is'', w2)" "is' = i' # is''"
      by (auto simp: r_bind_return_iff)
    with Cons.IH [OF r(2)] reloaded [OF vr(2) r(1)] True show ?thesis by simp
  next
    case False
    with Cons.prems obtain w1 where "reload_listeners_check_already_present L J js is w1 = r_return (is', w')"
      by (auto simp: r_bind_return_iff split: option.splits)
    from Cons.IH [OF this] False show ?thesis by auto
  qed
qed simp

text \<open>Creating adds the ports that are missing, each once.\<close>

lemma created_ports:
  "unpack_ok J \<Longrightarrow> reload_listeners_create_new_ones L J js st = r_return st' \<Longrightarrow> ports_valid J js \<Longrightarrow> \<forall>l \<in> set (fst st'). lo_join L l \<noteq> None \<Longrightarrow>
   set (map (lo_port L) (fst st')) = set (map (lo_port L) (fst st)) \<union> port_of J ` set js \<and>
   (distinct (map (lo_port L) (fst st)) \<longrightarrow> distinct (map (lo_port L) (fst st'))) \<and> set (fst st) \<subseteq> set (fst st')"
proof (induction js arbitrary: st)
  case (Cons j js)
  have v: "ports_valid J js" using Cons.prems(3) by (simp add: ports_valid_def)
  have ne: "port_of J j \<noteq> 0" using port_of_valid(2) [OF Cons.prems(3)] by simp
  show ?case
  proof (cases "\<exists>i \<in> set (fst st). lo_port L i \<noteq> 0 \<and> lo_port L i = port_of J j")
    case True
    with Cons.prems(2) have "reload_listeners_create_new_ones L J js st = r_return st'" by (auto simp: port_of_def Let_def)
    moreover have "port_of J j \<in> set (map (lo_port L) (fst st))" using True by (metis image_eqI list.set_map)
    ultimately show ?thesis using Cons.IH [OF Cons.prems(1) _ v Cons.prems(4), of st] by auto
  next
    case False
    with Cons.prems(2) obtain st1 where st1: "parse_listener L J j st = r_return st1"
      "reload_listeners_create_new_ones L J js st1 = r_return st'" by (auto simp: port_of_def Let_def r_bind_return_iff split: if_splits)
    from parse_listener_creates [OF st1(1)] Cons.prems(3) obtain l f d where l: "fst st1 = l # fst st"
      "lo_create L f d j (snd st) = r_return (Some l, snd st1)" by (auto simp: ports_valid_def)
    note ih = Cons.IH [OF Cons.prems(1) st1(2) v Cons.prems(4)]
    have "lo_join L l \<noteq> None" using ih l(1) Cons.prems(4) by auto
    with created [OF Cons.prems(1) l(2)] have "lo_port L l = port_of J j" by (simp add: port_of_def)
    with ih l(1) False ne show ?thesis by auto
  qed
qed simp

lemma reload_ports:
  assumes "reload_listeners L J new_config gc = r_return gc'"
    and "json_unpack_ex J new_config [Unpack_o ''listeners'' False] = (True, [Some (U_json ls)])" and "ports_valid J (json_elements J ls)"
    and "\<forall>l \<in> set (gc_listeners gc'). lo_join L l \<noteq> None" and "distinct (map (lo_port L) (gc_listeners gc))" and "unpack_ok J"
  shows "set (map (lo_port L) (gc_listeners gc')) = port_of J ` set (json_elements J ls)"
    and "distinct (map (lo_port L) (gc_listeners gc'))"
proof -
  let ?js = "json_elements J ls"
  obtain st listeners w where st: "reload_listeners_check_already_present L J ?js (gc_listeners gc) (gc_world gc) = r_return st"
    "reload_listeners_create_new_ones L J ?js st = r_return (listeners, w)" "gc' = gc\<lparr>gc_listeners := listeners, gc_world := w\<rparr>"
    using assms(1,2) by (auto simp: reload_listeners_def unpacked_at_def r_bind_return_iff Let_def)
  have keep: "map (lo_port L) (fst st) = map (lo_port L) (filter (\<lambda>i. lo_port L i \<in> port_of J ` set ?js \<and> lo_reload L i \<noteq> None) (gc_listeners gc))"
    using present_ports [of ?js "gc_listeners gc" "gc_world gc" "fst st" "snd st"] st(1)
    unfolding find_configured_valid [OF assms(3)] by simp
  then have sub: "set (map (lo_port L) (fst st)) \<subseteq> port_of J ` set ?js" by auto
  have "distinct (map (lo_port L) (fst st))" unfolding keep using assms(5) by (simp add: distinct_map_filter)
  with created_ports [OF assms(6) st(2) assms(3)] assms(4) sub st(3)
  show "set (map (lo_port L) (gc_listeners gc')) = port_of J ` set ?js" "distinct (map (lo_port L) (gc_listeners gc'))" by auto
qed

end

text \<open>What reloading keeps, the main loop keeps.\<close>

lemma poll_loop_invariant:
  assumes "poll_loop L E polls n gc = r_return gc'"
    and "\<And>k gc gc'. Q gc \<Longrightarrow> reload_config L (E k) gc = r_return gc' \<Longrightarrow> Q gc'" and "Q gc"
  shows "Q gc'"
proof -
  have "(\<And>k gc gc'. Q gc \<Longrightarrow> reload_config L (E k) gc = r_return gc' \<Longrightarrow> Q gc') \<Longrightarrow> Q gc \<Longrightarrow> y = Inr gc' \<Longrightarrow> Q gc'"
    if "poll_loop L E polls n gc = Some y" for y gc' n gc
  proof (induction arbitrary: gc' rule: poll_loop.raw_induct [OF _ that])
  case (1 ml L E polls n gc y)
  show ?case
  proof (cases "snd (polls n)")
    case False
    with "1.prems" "1.hyps" obtain gc1 where gc1: "(if fst (polls n) then reload_config L (E n) gc else r_return gc) = r_return gc1"
      "ml L E polls (Suc n) gc1 = Some (Inr gc')" by (auto simp: r_bind_return_iff)
    then have "Q gc1" using "1.prems"(1,2) by (auto split: if_splits)
    with "1.IH" [OF gc1(2)] "1.prems"(1) show ?thesis by blast
  next
    case True
    with "1.hyps" "1.prems"(2,3) show ?thesis by simp
  qed
qed
  with assms show ?thesis by blast
qed

lemma parse_config_listeners:
  assumes "parse_config L E path gc = r_return (registered, gc')"
  obtains js listeners w where "parse_listeners L (ce_json E) js (gc_listeners gc, gc_world gc) = r_return (listeners, w)"
    "gc_listeners gc' = listeners" "gc_world gc' = w"
proof -
  obtain root where root: "ce_load_file E path = Some root" using assms by (cases "ce_load_file E path") (auto simp: parse_config_def Let_def)
  obtain ok us where u: "json_unpack_ex (ce_json E) root [Unpack_i ''debug'' True, Unpack_s ''response'' True, Unpack_o ''blacklist'' True,
      Unpack_o ''listeners'' False] = (ok, us)" by fastforce
  show thesis
    using assms unfolding parse_config_def Let_def root u option.case prod.case
    by (auto simp: r_bind_return_iff intro: that)
qed

lemma parse_config_topic:
  assumes "parse_config L E path gc = r_return (registered, gc')" and "ce_load_file E path = Some root"
    and "topic_members (ce_json E) (json_members (ce_json E) root) = ts @ [t]"
  shows "gc_topic gc' = Some t"
proof -
  obtain ok us where u: "json_unpack_ex (ce_json E) root [Unpack_i ''debug'' True, Unpack_s ''response'' True, Unpack_o ''blacklist'' True,
      Unpack_o ''listeners'' False] = (ok, us)" by fastforce
  show ?thesis
    using assms(1) unfolding parse_config_def Let_def assms(2) u option.case prod.case
    by (auto simp: r_bind_return_iff run_r_def dest: get_rdkafka_config_topic [OF _ assms(3)])
qed

section \<open>What listeners hold\<close>

text \<open>
  Something that listeners share and each holds a number of: creating, reloading and joining keep the world
  consistent with the number that all the listeners hold together.
\<close>

locale listener_resources =
  fixes L :: "('l, 'w, 'j) listener_ops" and held :: "'l \<Rightarrow> nat" and inv :: "nat \<Rightarrow> 'w \<Rightarrow> bool"
  assumes creates: "inv n w \<Longrightarrow> lo_create L f d j w = r_return (lo, w') \<Longrightarrow> inv (n + (case lo of None \<Rightarrow> 0 | Some l \<Rightarrow> held l)) w'"
    and reloads: "inv n w \<Longrightarrow> lo_reload L l = Some r \<Longrightarrow> r j w = r_return (rc, l', w') \<Longrightarrow> inv n w' \<and> held l' = held l"
    and joins: "inv (held l + n) w \<Longrightarrow> lo_join L l = Some join \<Longrightarrow> join w = r_return w' \<Longrightarrow> inv n w'"
    and unjoined: "lo_join L l = None \<Longrightarrow> held l = 0"
    and decoders: "inv n w \<Longrightarrow> lo_decoder_init L d = Some init \<Longrightarrow> init w = r_return (rc, w') \<Longrightarrow> inv n w'"
      "inv n w \<Longrightarrow> lo_decoder_done L d = Some don \<Longrightarrow> don w = r_return w' \<Longrightarrow> inv n w'"
begin

definition all_held :: "'l list \<Rightarrow> nat" where
  "all_held ls = sum_list (map held ls)"

lemma all_held_simps [simp]: "all_held [] = 0" "all_held (l # ls) = held l + all_held ls"
  by (simp_all add: all_held_def)

lemma parse_listener_holds:
  assumes "inv (all_held (fst st)) (snd st)" and "parse_listener L J j st = r_return st'"
  shows "inv (all_held (fst st')) (snd st')"
proof (cases "st' = st")
  case False
  obtain ok us where u: "json_unpack_ex J j [Unpack_s ''proto'' False, Unpack_s ''decode_as'' True] = (ok, us)" by fastforce
  note run = assms(2) [unfolded parse_listener_def u prod.case]
  obtain f d lo w1 where c: "lo_create L f d j (snd st) = r_return (lo, w1)" "lo \<noteq> None" "st' = (the lo # fst st, w1)"
    using run False by (auto simp: r_bind_return_iff split: if_splits option.splits)
  with creates [OF assms(1) c(1)] show ?thesis by (auto simp: add.commute)
qed (use assms(1) in simp)

lemma parse_listeners_holds:
  "inv (all_held (fst st)) (snd st) \<Longrightarrow> parse_listeners L J js st = r_return st' \<Longrightarrow> inv (all_held (fst st')) (snd st')"
  by (induction js arbitrary: st) (auto simp: r_bind_return_iff dest: parse_listener_holds)

lemma create_new_ones_holds:
  "inv (all_held (fst st)) (snd st) \<Longrightarrow> reload_listeners_create_new_ones L J js st = r_return st' \<Longrightarrow> inv (all_held (fst st')) (snd st')"
  by (induction js arbitrary: st) (auto simp: r_bind_return_iff Let_def dest: parse_listener_holds split: if_splits)

lemma shutdown_holds:
  assumes "inv (held i + n) w" and "shutdown_listener L i w = r_return w'"
  shows "inv n w'"
  using assms joins [OF assms(1)] unjoined [of i] by (auto simp: shutdown_listener_def split: option.splits)

lemma shutdown_listeners_holds: "inv (all_held is + n) w \<Longrightarrow> shutdown_listeners L is w = r_return w' \<Longrightarrow> inv n w'"
  by (induction "is" arbitrary: w) (auto simp: r_bind_return_iff add.assoc dest!: shutdown_holds)

lemma present_holds:
  "inv (all_held is + n) w \<Longrightarrow> reload_listeners_check_already_present L J js is w = r_return (is', w') \<Longrightarrow> inv (all_held is' + n) w'"
proof (induction "is" arbitrary: w is' n)
  case (Cons i "is")
  show ?case
  proof (cases "find_configured J (lo_port L i) js \<noteq> None \<and> lo_reload L i \<noteq> None")
    case True
    then obtain v r where vr: "find_configured J (lo_port L i) js = Some v" "lo_reload L i = Some r" by blast
    with Cons.prems(2) obtain rc i' w1 is'' where r: "r v w = r_return (rc, i', w1)"
      "reload_listeners_check_already_present L J js is w1 = r_return (is'', w')" "is' = i' # is''"
      by (auto simp: r_bind_return_iff)
    from reloads [OF Cons.prems(1) vr(2) r(1)] have "inv (all_held is + (held i + n)) w1" "held i' = held i" by (simp_all add: ac_simps)
    from Cons.IH [OF this(1) r(2)] this(2) r(3) show ?thesis by (simp add: ac_simps)
  next
    case False
    with Cons.prems(2) obtain w1 where w1: "shutdown_listener L i w = r_return w1"
      "reload_listeners_check_already_present L J js is w1 = r_return (is', w')" by (auto simp: r_bind_return_iff split: option.splits)
    from Cons.prems(1) have "inv (held i + (all_held is + n)) w" by (simp add: add.assoc)
    from Cons.IH [OF shutdown_holds [OF this w1(1)] w1(2)] show ?thesis .
  qed
qed simp

definition config_holds :: "('l, 'w) n2kafka_config \<Rightarrow> bool" where
  "config_holds gc \<longleftrightarrow> inv (all_held (gc_listeners gc)) (gc_world gc)"

lemma reload_config_holds:
  assumes "config_holds gc" and "reload_config L E gc = r_return gc'"
  shows "config_holds gc'"
proof (cases "gc' = gc")
  case False
  from assms(2) False obtain new_config where rl: "reload_listeners L (ce_json E) new_config gc = r_return gc'"
    by (auto simp: reload_config_def split: option.splits)
  obtain ok us where u: "json_unpack_ex (ce_json E) new_config [Unpack_o ''listeners'' False] = (ok, us)" by fastforce
  from rl False obtain js is' w1 listeners w2 where r:
    "reload_listeners_check_already_present L (ce_json E) js (gc_listeners gc) (gc_world gc) = r_return (is', w1)"
    "reload_listeners_create_new_ones L (ce_json E) js (is', w1) = r_return (listeners, w2)"
    "gc' = gc\<lparr>gc_listeners := listeners, gc_world := w2\<rparr>"
    unfolding reload_listeners_def u Let_def by (auto simp: r_bind_return_iff split: if_splits)
  from present_holds [of "gc_listeners gc" 0, OF _ r(1)] assms(1) have "inv (all_held is') w1" by (simp add: config_holds_def)
  from create_new_ones_holds [OF _ r(2)] this r(3) show ?thesis by (simp add: config_holds_def)
qed (use assms(1) in simp)

lemma poll_loop_holds:
  assumes "poll_loop L E polls n gc = r_return gc'" and "config_holds gc"
  shows "config_holds gc'"
  by (rule poll_loop_invariant [OF assms(1), of config_holds]) (use assms(2) in \<open>auto dest: reload_config_holds\<close>)

lemma init_decoders_holds: "inv n w \<Longrightarrow> init_decoders L ds w = r_return w' \<Longrightarrow> inv n w'"
  by (induction ds arbitrary: w) (auto simp: r_bind_return_iff dest: decoders(1) split: option.splits)

lemma done_decoders_holds: "inv n w \<Longrightarrow> done_decoders L ds w = r_return w' \<Longrightarrow> inv n w'"
  by (induction ds arbitrary: w) (auto simp: r_bind_return_iff dest: decoders(2) split: option.splits)

lemma parse_config_holds:
  assumes "parse_config L E path gc = r_return (registered, gc')" and "config_holds gc"
  shows "config_holds gc'"
proof -
  obtain J js listeners w where "parse_listeners L J js (gc_listeners gc, gc_world gc) = r_return (listeners, w)"
    "gc_listeners gc' = listeners" "gc_world gc' = w"
    by (rule parse_config_listeners [OF assms(1)])
  with parse_listeners_holds [of "(gc_listeners gc, gc_world gc)" J js "(listeners, w)"] assms(2) show ?thesis by (simp add: config_holds_def)
qed

text \<open>A run of the whole program gives everything back.\<close>

lemma n2kafka_main_holds:
  assumes "n2kafka_main L E reloads signals outq undestroyed argv w = r_return (w', freed)" and "inv 0 w"
  shows "inv 0 w'"
proof -
  obtain gc registered gc1 gc2 where r: "init_global_config L (ce_calloc_ok E) w = r_return gc"
    "parse_config L E (argv ! 1) gc = r_return (registered, gc1)" "poll_loop L reloads (loop_answers signals) 0 gc1 = r_return gc2"
    "free_global_config L outq undestroyed gc2 = r_return (w', freed)"
    using assms(1) by (auto simp: n2kafka_main_def main_loop_start r_bind_return_iff split: if_splits)
  have "config_holds gc"
    using r(1) assms(2) by (auto simp: init_global_config_def r_bind_return_iff config_holds_def dest: init_decoders_holds)
  then have h: "config_holds gc2" using parse_config_holds [OF r(2)] poll_loop_holds [OF r(3)] by blast
  from r(4) obtain w1 where "shutdown_listeners L (gc_listeners gc2) (gc_world gc2) = r_return w1" "done_decoders L registered_decoders w1 = r_return w'"
    by (auto simp: free_global_config_def r_bind_return_iff split: option.splits)
  with h shutdown_listeners_holds [of "gc_listeners gc2" 0 "gc_world gc2" w1] done_decoders_holds [of 0 w1] show ?thesis
    by (simp add: config_holds_def)
qed

end

section \<open>Well-formed listeners\<close>

lemma init_rdkafka_runs: "runs_to (run_r (init_rdkafka rk_ok topic_new conf stats)) (\<lambda>_. True)"
  by (auto simp: init_rdkafka_def Let_def split: option.split)

lemma parse_blacklist_runs: "ce_calloc_ok E \<Longrightarrow> runs_to (run_r (parse_blacklist E vals bl)) (\<lambda>_. True)"
proof (induction vals arbitrary: bl)
  case (Cons val vals)
  have p: "runs_to (run_r (assert_pton pton dst src)) (\<lambda>_. True)" for pton dst src by (simp add: assert_pton_def split: pton_result.split)
  show ?case using Cons by (auto simp: in_addr_list_add_def intro!: runs_to_c_bind [OF assert_json_string_runs] runs_to_c_bind [OF p])
qed simp

text \<open>A loop that is told to stop ends, if its reloads do; \<open>fatal\<close> tells whether they may end the program.\<close>

lemma poll_loop_ends:
  assumes "\<exists>m. snd (polls m)" and "P gc"
    and "\<And>k gc. P gc \<Longrightarrow> fst (polls k) \<Longrightarrow> (\<exists>gc'. reload_config L (E k) gc = r_return gc' \<and> P gc') \<or> fatal \<and> reload_config L (E k) gc = Some (Inl Exited)"
  shows "(\<exists>gc'. poll_loop L E polls 0 gc = r_return gc' \<and> P gc') \<or> fatal \<and> poll_loop L E polls 0 gc = Some (Inl Exited)"
proof -
  obtain m where m: "snd (polls m)" using assms(1) by blast
  have "(\<exists>gc'. poll_loop L E polls n gc = r_return gc' \<and> P gc') \<or> fatal \<and> poll_loop L E polls n gc = Some (Inl Exited)" if "n \<le> m" "P gc" for n gc
    using that
  proof (induction arbitrary: gc rule: inc_induct)
    case base
    then show ?case using m by (subst (1 2) poll_loop.simps) simp
  next
    case (step k)
    from assms(3) [of gc k] step.prems
    consider gc1 where "(if fst (polls k) then reload_config L (E k) gc else r_return gc) = r_return gc1" "P gc1"
      | "fatal" "(if fst (polls k) then reload_config L (E k) gc else r_return gc) = Some (Inl Exited)" by (cases "fst (polls k)") auto
    then show ?case
    proof cases
      case 1
      with step.IH [of gc1] step.prems show ?thesis by (subst (1 2) poll_loop.simps) simp
    next
      case 2
      then show ?thesis using step.prems by (subst (1 2) poll_loop.simps) simp
    qed
  qed
  with assms(2) show ?thesis by blast
qed

text \<open>The factory that an element of the array of listeners names.\<close>

definition names_factory :: "'j jansson \<Rightarrow> 'j \<Rightarrow> factory_id \<Rightarrow> bool" where
  "names_factory J j f \<longleftrightarrow> (\<exists>us proto. json_unpack_ex J j [Unpack_s ''proto'' False, Unpack_s ''decode_as'' True] = (True, us) \<and>
     set_string (unpacked_at us 0) None = Some proto \<and> listener_for proto = Some f)"

text \<open>
  The well-formed listeners and worlds: creating, reloading and joining well-formed listeners does not fault and
  keeps everything well formed; \<open>fresh\<close> are the worlds in which the decoders were not set up yet.
\<close>

locale typed_listeners =
  fixes L :: "('l, 'w, 'j) listener_ops" and J :: "'j jansson" and typed :: "'l \<Rightarrow> bool" and fresh :: "'w \<Rightarrow> bool" and world :: "'w \<Rightarrow> bool"
  assumes creates: "world w \<Longrightarrow> names_factory J j f \<Longrightarrow> runs_to (lo_create L f d j w) (\<lambda>(lo, w'). world w' \<and> (\<forall>l. lo = Some l \<longrightarrow> typed l))"
    and reloads: "world w \<Longrightarrow> typed l \<Longrightarrow> lo_reload L l = Some r \<Longrightarrow>
      \<exists>rc l' w'. r j w = r_return (rc, l', w') \<and> world w' \<and> typed l'"
    and joins: "world w \<Longrightarrow> typed l \<Longrightarrow> lo_join L l = Some join \<Longrightarrow> \<exists>w'. join w = r_return w' \<and> world w'"
    and inits: "fresh w \<Longrightarrow> runs_to (init_decoders L registered_decoders w) world"
    and dones: "world w \<Longrightarrow> \<exists>w'. done_decoders L registered_decoders w = r_return w'"
begin

definition all_typed :: "'l list \<times> 'w \<Rightarrow> bool" where
  "all_typed st \<longleftrightarrow> (\<forall>l \<in> set (fst st). typed l) \<and> world (snd st)"

definition config_typed :: "('l, 'w) n2kafka_config \<Rightarrow> bool" where
  "config_typed gc \<longleftrightarrow> all_typed (gc_listeners gc, gc_world gc)"

lemma parse_listener_typed: "all_typed st \<Longrightarrow> runs_to (parse_listener L J j st) all_typed"
  unfolding parse_listener_def all_typed_def
  by (auto simp del: not_None_eq simp: names_factory_def split: prod.split option.split intro!: runs_to_bind [OF creates])

lemma parse_listeners_typed: "all_typed st \<Longrightarrow> runs_to (parse_listeners L J js st) all_typed"
  by (induction js arbitrary: st) (auto intro: runs_to_bind [OF parse_listener_typed])

lemma create_new_ones_typed: "all_typed st \<Longrightarrow> runs_to (reload_listeners_create_new_ones L J js st) all_typed"
  by (induction js arbitrary: st) (auto simp: Let_def intro: runs_to_bind [OF parse_listener_typed])

lemma shutdown_listener_typed: "typed i \<Longrightarrow> world w \<Longrightarrow> \<exists>w'. shutdown_listener L i w = r_return w' \<and> world w'"
  by (auto simp: shutdown_listener_def dest: joins split: option.split)

lemma shutdown_listeners_typed: "all_typed (is, w) \<Longrightarrow> \<exists>w'. shutdown_listeners L is w = r_return w' \<and> world w'"
proof (induction "is" arbitrary: w)
  case (Cons i "is")
  then obtain w1 where "shutdown_listener L i w = r_return w1" "world w1" using shutdown_listener_typed [of i w] by (auto simp: all_typed_def)
  with Cons show ?case by (auto simp: all_typed_def)
qed (simp add: all_typed_def)

lemma present_typed:
  "all_typed (is, w) \<Longrightarrow> \<exists>st. reload_listeners_check_already_present L J js is w = r_return st \<and> all_typed st"
proof (induction "is" arbitrary: w)
  case (Cons i "is")
  have i: "typed i" "world w" "\<forall>l \<in> set is. typed l" using Cons.prems by (simp_all add: all_typed_def)
  have rest: "\<exists>is' w2. reload_listeners_check_already_present L J js is w1 = r_return (is', w2) \<and> all_typed (is', w2)" if "world w1" for w1
    using Cons.IH [of w1] that i(3) by (auto simp: all_typed_def)
  obtain w1 where w1: "shutdown_listener L i w = r_return w1" "world w1" using shutdown_listener_typed [OF i(1,2)] by blast
  have "\<exists>st. r_bind (r v w) (\<lambda>(rc, i', w1). r_bind (reload_listeners_check_already_present L J js is w1) (\<lambda>(is', w2). r_return (i' # is', w2))) = r_return st \<and>
      all_typed st" if r: "lo_reload L i = Some r" for v r
  proof -
    obtain rc i' w1 where "r v w = r_return (rc, i', w1)" "world w1" "typed i'" using reloads [OF i(2,1) r] by blast
    with rest [of w1] show ?thesis by (auto simp: all_typed_def)
  qed
  with w1 rest [OF w1(2)] show ?case by (auto split: option.split)
qed (simp add: all_typed_def)

lemma reload_config_typed:
  assumes "config_typed gc" and "ce_json E = J"
  shows "runs_to (reload_config L E gc) config_typed"
proof -
  have "runs_to (reload_listeners L J root gc) config_typed" for root
  proof -
    obtain ok us where u: "json_unpack_ex J root [Unpack_o ''listeners'' False] = (ok, us)" by fastforce
    define js where "js = (case set_json (unpacked_at us 0) None of None \<Rightarrow> [] | Some ls \<Rightarrow> json_elements J ls)"
    obtain st where "reload_listeners_check_already_present L J js (gc_listeners gc) (gc_world gc) = r_return st" "all_typed st"
      using present_typed assms(1) [unfolded config_typed_def] by blast
    with assms(1) show ?thesis unfolding reload_listeners_def u prod.case js_def [symmetric] Let_def
      by (auto simp: config_typed_def intro!: runs_to_bind [OF create_new_ones_typed])
  qed
  with assms show ?thesis by (simp add: reload_config_def split: option.split)
qed

lemma init_global_config_typed: "fresh w \<Longrightarrow> runs_to (init_global_config L True w) config_typed"
  by (auto simp: init_global_config_def in_addr_list_new_def run_r_def config_typed_def all_typed_def intro!: runs_to_bind [OF inits])

lemma parse_config_typed:
  assumes "config_typed gc" and "ce_json E = J" and "jansson_ok J" and "ce_calloc_ok E"
  shows "runs_to (parse_config L E path gc) (\<lambda>(registered, gc'). config_typed gc')"
proof (cases "ce_load_file E path")
  case (Some root)
  have response: "runs_to (run_r (case x of None \<Rightarrow> Inr (gc_response gc) | Some f \<Rightarrow> c_bind (parse_response (ce_file_read E) f) (\<lambda>r. Inr (Some r)))) (\<lambda>_. True)" for x
    by (auto simp: parse_response_def split: option.split)
  have blacklist: "runs_to (run_r (case x of None \<Rightarrow> Inr (gc_blacklist gc)
      | Some b \<Rightarrow> parse_blacklist E (json_elements J b) (gc_blacklist gc))) (\<lambda>_. True)" for x
    using parse_blacklist_runs [OF assms(4)] by (simp split: option.split)
  show ?thesis
    unfolding parse_config_def Let_def Some option.case assms(2)
    by (auto split: prod.split intro!: runs_to_bind [OF get_rdkafka_config_ends [OF assms(3)]] runs_to_bind [OF response] runs_to_bind [OF blacklist]
        runs_to_bind [OF init_rdkafka_runs] runs_to_bind [OF parse_listeners_typed]) (use assms(1) in \<open>auto simp: config_typed_def\<close>)
qed (simp add: parse_config_def)

lemma free_global_config_typed:
  assumes "config_typed gc" and "\<exists>a. outq a = 0" and "\<exists>b. undestroyed b = 0"
  shows "\<exists>w'. free_global_config L outq undestroyed gc = r_return (w', in_addr_list_done (gc_blacklist gc))"
proof -
  obtain r where "stop_rdkafka outq undestroyed (gc_stats gc) = Some r"
    using stop_rdkafka_returns [of outq undestroyed "gc_stats gc"] assms(2,3)
    by (cases "stop_rdkafka outq undestroyed (gc_stats gc)") (auto, (metis less_numeral_extra(3))+)
  moreover obtain w1 where "shutdown_listeners L (gc_listeners gc) (gc_world gc) = r_return w1" "world w1"
    using shutdown_listeners_typed assms(1) by (auto simp: config_typed_def)
  ultimately show ?thesis using dones [of w1] by (auto simp: free_global_config_def)
qed

lemma poll_loop_typed:
  assumes "\<exists>m. snd (polls m)" and "config_typed gc" and "\<forall>k. ce_json (E k) = J"
  shows "runs_to (poll_loop L E polls 0 gc) config_typed"
  using poll_loop_ends [where fatal = True and P = config_typed, OF assms(1,2), of L E] reload_config_typed [unfolded runs_to_iff] assms(3)
  unfolding runs_to_iff by blast

lemma n2kafka_main_typed:
  assumes "fresh w" and "ce_json E = J" and "\<forall>k. ce_json (reloads k) = J" and "jansson_ok J" and "ce_calloc_ok E"
    and "\<exists>m. stop_seen signals m" and "\<exists>a. outq a = 0" and "\<exists>b. undestroyed b = 0"
  shows "runs_to (n2kafka_main L E reloads signals outq undestroyed argv w) (\<lambda>_. True)"
proof -
  have "runs_to (r_bind (poll_loop L reloads (loop_answers signals) 0 gc1) (free_global_config L outq undestroyed)) (\<lambda>_. True)" if "config_typed gc1" for gc1
    by (rule runs_to_bind [OF poll_loop_typed [OF _ that assms(3)]]) (use assms(6) in \<open>auto simp: runs_to_iff loop_answers_def dest!: free_global_config_typed [OF _ assms(7,8)]\<close>)
  then have "runs_to (r_bind (parse_config L E (argv ! 1) gc) (\<lambda>(registered, gc1).
      r_bind (poll_loop L reloads (loop_answers signals) 0 gc1) (free_global_config L outq undestroyed))) (\<lambda>_. True)" if "config_typed gc" for gc
    by (intro runs_to_bind [OF parse_config_typed [OF that assms(2,4,5)]]) auto
  from runs_to_bind [OF init_global_config_typed [OF assms(1)] this] assms(5) show ?thesis by (simp add: n2kafka_main_def main_loop_start)
qed

text \<open>If the program starts and no reload is fatal, it comes to its regular end.\<close>

lemma n2kafka_main_returns:
  assumes "length argv = 2" and "\<not> is_asking_help (argv ! 1)" and "fresh w" and "ce_json E = J" and "\<forall>k. ce_json (reloads k) = J"
    and "jansson_ok J" and "ce_calloc_ok E" and "init_global_config L (ce_calloc_ok E) w = r_return gc" and "parse_config L E (argv ! 1) gc = r_return (registered, gc1)"
    and "\<forall>k gc. reload_seen signals k \<longrightarrow> config_typed gc \<longrightarrow> reload_config L (reloads k) gc \<noteq> Some (Inl Exited)"
    and "\<exists>m. stop_seen signals m" and "\<exists>a. outq a = 0" and "\<exists>b. undestroyed b = 0"
  shows "\<exists>w'. n2kafka_main L E reloads signals outq undestroyed argv w = r_return (w', in_addr_list_done (gc_blacklist gc1))"
proof -
  have gc: "config_typed gc" using init_global_config_typed [OF assms(3)] assms(7,8) by simp
  with parse_config_typed [OF gc assms(4,6,7), of "argv ! 1"] assms(9) have gc1: "config_typed gc1" by simp
  obtain gc2 where gc2: "poll_loop L reloads (loop_answers signals) 0 gc1 = r_return gc2" "config_typed gc2"
    using poll_loop_ends [where fatal = False and P = config_typed and polls = "loop_answers signals", OF _ gc1, of L reloads]
      reload_config_typed [unfolded runs_to_iff] assms(5,10,11) unfolding loop_answers_def fst_conv snd_conv by blast
  have "gc_blacklist gc2 = gc_blacklist gc1"
    by (rule poll_loop_invariant [OF gc2(1), of "\<lambda>gc. gc_blacklist gc = gc_blacklist gc1"])
      (auto simp: reload_config_def reload_listeners_def r_bind_return_iff Let_def split: option.splits prod.splits if_splits)
  with free_global_config_typed [OF gc2(2) assms(12,13)] gc2(1) assms(1,2,8,9) show ?thesis by (auto simp: n2kafka_main_def main_loop_start)
qed

end

end
