(* ===== verification/Engine.thy ===== *)
theory Engine
  imports Socket Meraki_Decoder Http_Config Global_Config
begin

text \<open>
  The program put together: the three kinds of listeners with the three decoders as the objects that the
  configuration (\<open>Global_Config\<close>) creates, reloads and joins. What the operating system and the libraries
  answer is an argument, and the threads of a listener have started when the next listener is created.
\<close>

section \<open>The listeners of the program\<close>

text \<open>What all the listeners share: the replies of the HTTP listeners and the flag of the socket listeners.\<close>

record shared_state =
  sh_responses :: http_responses
  sh_do_shutdown :: bool

record ('h, 'l, 'y, 'x, 'g, 'j) engine_env =
  ee_http_os :: http_os
  ee_mhd_start_ok :: "mhd_daemon \<Rightarrow> bool"
  ee_sizeof_http_listener :: nat
  ee_socket_os :: socket_os
  ee_socket_fd :: int
  ee_bind_ok :: bool
  ee_listen_ok :: bool
  ee_main_loop_ok :: bool
  ee_loop_ok :: "nat \<Rightarrow> bool"
  ee_json :: "'j jansson"
  ee_default_topic :: "string option"
  ee_dumb :: dumb_rdkafka
  ee_opaque_calloc_ok :: bool
  ee_zz :: "('h, 'l, 'y, 'x, 'g) zz_libs"

text \<open>A listener with some decoder; a listener whose start was given up is still zero except for its block.\<close>

datatype ('w, 'j, 'o, 's) any_listener =
    Http_running "('w, 'j, 'o, 's) http_daemon_listener"
  | Http_zeroed bytes
  | Socket_running "('w, 'j, 'o, 's) socket_listener"

definition start_socket_thread :: "('h, 'l, 'y, 'x, 'g, 'j) engine_env \<Rightarrow> ('w, 'j, 'o, 's) socket_listener \<Rightarrow> ('w, 'j, 'o, 's) socket_listener" where
  "start_socket_thread env sl =
     (case main_socket_loop (ee_socket_fd env) (ee_bind_ok env) (ee_listen_ok env) sl of
        Tcp_loop _ \<Rightarrow> main_tcp_loop_start (ee_main_loop_ok env) (ee_loop_ok env) sl
      | _ \<Rightarrow> sl)"

fun any_create ::
  "('h, 'l, 'y, 'x, 'g, 'j) engine_env \<Rightarrow> 'o \<Rightarrow> ('w, 'j, 'o, 's) n2k_decoder \<Rightarrow> factory_id \<Rightarrow> 'j \<Rightarrow> shared_state \<Rightarrow> 'w
   \<Rightarrow> (('w, 'j, 'o, 's) any_listener option \<times> shared_state \<times> 'w) c_run" where
  "any_create env o0 decoder Http_factory config sh w =
     r_bind (create_http_listener0 (ee_http_os env) (ee_mhd_start_ok env) (ee_sizeof_http_listener env) o0 (ee_json env) config decoder
               (sh_responses sh) w) (\<lambda>res.
       r_return (case sr_loop res of
                   Loop_null \<Rightarrow> None
                 | Loop_zeroed block \<Rightarrow> Some (Http_zeroed block)
                 | Loop_running hl \<Rightarrow> Some (Http_running hl),
                 sh\<lparr>sh_responses := sr_responses res\<rparr>, sr_world res))"
| "any_create env o0 decoder _ config sh w =
     r_bind (create_socket_listener (ee_socket_os env) o0 (ee_json env) config decoder w) (\<lambda>(sl, w1).
       r_return (map_option (\<lambda>sl. Socket_running (start_socket_thread env sl)) sl, sh, w1))"

fun any_port :: "('w, 'j, 'o, 's) any_listener \<Rightarrow> 16 word" where
  "any_port (Http_running hl) = li_port (hl_listener hl)"
| "any_port (Http_zeroed block) = 0"
| "any_port (Socket_running sl) = li_port (sl_listener sl)"

fun any_join :: "('w, 'j, 'o, 's) any_listener \<Rightarrow> (shared_state \<Rightarrow> 'w \<Rightarrow> (shared_state \<times> 'w) c_run) option" where
  "any_join (Http_running hl) = Some (\<lambda>sh w.
     r_bind (break_http_loop hl (sh_responses sh) w) (\<lambda>(_, responses, w1). r_return (sh\<lparr>sh_responses := responses\<rparr>, w1)))"
| "any_join (Http_zeroed block) = None"
| "any_join (Socket_running sl) = Some (\<lambda>sh w.
     r_bind (join_listener_socket sl w) (\<lambda>(do_shutdown, w1). r_return (sh\<lparr>sh_do_shutdown := do_shutdown\<rparr>, w1)))"

fun any_reload :: "('w, 'j, 'o, 's) any_listener \<Rightarrow> ('j \<Rightarrow> 'w \<Rightarrow> (int \<times> ('w, 'j, 'o, 's) any_listener \<times> 'w) c_run) option" where
  "any_reload (Http_running hl) = Some (\<lambda>config w.
     r_bind (listener_reload (hl_listener hl) config w) (\<lambda>(rc, li, w1). r_return (rc, Http_running (hl\<lparr>hl_listener := li\<rparr>), w1)))"
| "any_reload (Http_zeroed block) = None"
| "any_reload (Socket_running sl) = Some (\<lambda>config w.
     r_bind (listener_reload (sl_listener sl) config w) (\<lambda>(rc, li, w1). r_return (rc, Socket_running (sl\<lparr>sl_listener := li\<rparr>), w1)))"

section \<open>The world of the program\<close>

text \<open>The world of the HTTP decoder, which the Meraki decoder uses too, that of the decoder without sessions, and what listeners share.\<close>

record ('h, 'l) engine_world =
  ew_zz :: "('h, 'l) zz_world"
  ew_dumb :: dumb_world
  ew_shared :: shared_state

datatype ('h, 'l, 'y, 'x, 'g, 'j) engine_listener =
    With_dumb "(dumb_world, 'j, unit, unit) any_listener"
  | With_meraki "(('h, 'l) zz_world, 'j, bytes option, ('y, 'x, 'g) zz_any_session) any_listener"
  | With_zz "(('h, 'l) zz_world, 'j, unit, ('y, 'x, 'g) zz_any_session) any_listener"

fun engine_create ::
  "('h, 'l, 'y, 'x, 'g, 'j) engine_env \<Rightarrow> factory_id \<Rightarrow> decoder_id \<Rightarrow> 'j \<Rightarrow> ('h, 'l) engine_world
   \<Rightarrow> (('h, 'l, 'y, 'x, 'g, 'j) engine_listener option \<times> ('h, 'l) engine_world) c_run" where
  "engine_create env f Dumb_decoder_id config w =
     r_bind (any_create env () (dumb_decoder (ee_dumb env) (ee_default_topic env)) f config (ew_shared w) (ew_dumb w)) (\<lambda>(l, sh, w1).
       r_return (map_option With_dumb l, w\<lparr>ew_dumb := w1, ew_shared := sh\<rparr>))"
| "engine_create env f Meraki_decoder_id config w =
     r_bind (any_create env None (meraki_decoder (ee_json env) (ee_opaque_calloc_ok env) (ee_zz env) (ee_default_topic env)) f config
               (ew_shared w) (ew_zz w)) (\<lambda>(l, sh, w1).
       r_return (map_option With_meraki l, w\<lparr>ew_zz := w1, ew_shared := sh\<rparr>))"
| "engine_create env f Zz_decoder_id config w =
     r_bind (any_create env () (zz_decoder (ee_zz env)) f config (ew_shared w) (ew_zz w)) (\<lambda>(l, sh, w1).
       r_return (map_option With_zz l, w\<lparr>ew_zz := w1, ew_shared := sh\<rparr>))"

fun engine_port :: "('h, 'l, 'y, 'x, 'g, 'j) engine_listener \<Rightarrow> 16 word" where
  "engine_port (With_dumb l) = any_port l"
| "engine_port (With_meraki l) = any_port l"
| "engine_port (With_zz l) = any_port l"

fun engine_join :: "('h, 'l, 'y, 'x, 'g, 'j) engine_listener \<Rightarrow> (('h, 'l) engine_world \<Rightarrow> ('h, 'l) engine_world c_run) option" where
  "engine_join (With_dumb l) = map_option (\<lambda>join w.
     r_bind (join (ew_shared w) (ew_dumb w)) (\<lambda>(sh, w1). r_return (w\<lparr>ew_dumb := w1, ew_shared := sh\<rparr>))) (any_join l)"
| "engine_join (With_meraki l) = map_option (\<lambda>join w.
     r_bind (join (ew_shared w) (ew_zz w)) (\<lambda>(sh, w1). r_return (w\<lparr>ew_zz := w1, ew_shared := sh\<rparr>))) (any_join l)"
| "engine_join (With_zz l) = map_option (\<lambda>join w.
     r_bind (join (ew_shared w) (ew_zz w)) (\<lambda>(sh, w1). r_return (w\<lparr>ew_zz := w1, ew_shared := sh\<rparr>))) (any_join l)"

fun engine_reload ::
  "('h, 'l, 'y, 'x, 'g, 'j) engine_listener
   \<Rightarrow> ('j \<Rightarrow> ('h, 'l) engine_world \<Rightarrow> (int \<times> ('h, 'l, 'y, 'x, 'g, 'j) engine_listener \<times> ('h, 'l) engine_world) c_run) option" where
  "engine_reload (With_dumb l) = map_option (\<lambda>reload config w.
     r_bind (reload config (ew_dumb w)) (\<lambda>(rc, l1, w1). r_return (rc, With_dumb l1, w\<lparr>ew_dumb := w1\<rparr>))) (any_reload l)"
| "engine_reload (With_meraki l) = map_option (\<lambda>reload config w.
     r_bind (reload config (ew_zz w)) (\<lambda>(rc, l1, w1). r_return (rc, With_meraki l1, w\<lparr>ew_zz := w1\<rparr>))) (any_reload l)"
| "engine_reload (With_zz l) = map_option (\<lambda>reload config w.
     r_bind (reload config (ew_zz w)) (\<lambda>(rc, l1, w1). r_return (rc, With_zz l1, w\<lparr>ew_zz := w1\<rparr>))) (any_reload l)"

text \<open>Only the HTTP decoder has something to set up and to release.\<close>

definition engine_ops ::
  "('h, 'l, 'y, 'x, 'g, 'j) engine_env \<Rightarrow> (('h, 'l, 'y, 'x, 'g, 'j) engine_listener, ('h, 'l) engine_world, 'j) listener_ops" where
  "engine_ops env = \<lparr>lo_port = engine_port, lo_join = engine_join, lo_reload = engine_reload, lo_create = engine_create env,
     lo_decoder_init = (\<lambda>d. if d = Zz_decoder_id
        then map_option (\<lambda>init w. r_bind (init (ew_zz w)) (\<lambda>(rc, w1). r_return (rc, w\<lparr>ew_zz := w1\<rparr>))) (dec_init (zz_decoder (ee_zz env) :: (_, 'j, _, _) n2k_decoder))
        else None),
     lo_decoder_done = (\<lambda>d. if d = Zz_decoder_id
        then map_option (\<lambda>don w. r_bind (don (ew_zz w)) (\<lambda>w1. r_return (w\<lparr>ew_zz := w1\<rparr>))) (dec_done (zz_decoder (ee_zz env) :: (_, 'j, _, _) n2k_decoder))
        else None)\<rparr>"

section \<open>The contracts of the listeners\<close>

lemma start_socket_thread_listener [simp]: "sl_listener (start_socket_thread env sl) = sl_listener sl"
  by (simp add: start_socket_thread_def main_tcp_loop_start_def split: socket_loop.split)

lemma listener_init_port: "listener_init o0 port decoder config w = r_return (rc, li, w') \<Longrightarrow> li_port li = word_of_int port"
  by (auto simp: listener_init_def r_bind_return_iff Let_def split: option.splits)

lemma listener_reload_port: "listener_reload li config w = r_return (rc, li', w') \<Longrightarrow> li_port li' = li_port li"
  by (auto simp: listener_reload_def r_bind_return_iff split: option.splits)

lemma http_args_port:
  assumes "unpack_ok J" and "http_args os J config = Some a"
  shows "ha_port a = unpacked_port J config"
proof -
  obtain us where us: "json_unpack_ex J config http_unpack_format = (True, us)"
    using assms(2) by (auto simp: http_args_def Let_def split: prod.splits if_splits)
  have "0 < length http_unpack_format" "http_unpack_format ! 0 = Unpack_i ''port'' False" by (simp_all add: http_unpack_format_def)
  from unpack_okD [OF assms(1) us this] obtain i where i: "unpacked_at us 0 = Some (U_int i)"
    "json_unpack_ex J config [Unpack_i ''port'' False] = (True, [Some (U_int i)])" by blast
  have "ha_port a = i"
    using assms(2) i(1) unfolding http_args_def us by (auto simp: Let_def http_unpack_args_def split: option.splits if_splits)
  with i(2) show ?thesis by (simp add: unpacked_port_def unpacked_at_def)
qed

lemma start_listener_port:
  assumes "start_listener os start_ok o0 a flags ss block decoder config responses w = r_return res" and "sr_loop res = Loop_running hl"
  shows "li_port (hl_listener hl) = word_of_int (ha_port a)"
  using assms by (auto simp: start_listener_def r_bind_return_iff Let_def listener_init_port split: if_splits)

lemma http_listener_port:
  assumes "unpack_ok J" and "create_http_listener0 os start_ok sz o0 J config decoder responses w = r_return res" and "sr_loop res = Loop_running hl"
  shows "li_port (hl_listener hl) = word_of_int (unpacked_port J config)"
proof -
  obtain a where a: "http_args os J config = Some a" "start_http_loop os start_ok sz o0 a decoder config responses w = r_return res"
    using assms(2,3) by (auto simp: create_http_listener0_def Let_def split: if_splits option.splits)
  from start_http_loop_cases [OF a(2)] assms(3) obtain flags ss blk
    where "start_listener os start_ok o0 a flags ss blk decoder config responses w = r_return res" by auto
  from start_listener_port [OF this assms(3)] http_args_port [OF assms(1) a(1)] show ?thesis by simp
qed

lemma socket_listener_port:
  assumes "unpack_ok J" and "create_socket_listener os o0 J config decoder w = r_return (Some sl, w')"
  shows "li_port (sl_listener sl) = word_of_int (unpacked_port J config)"
proof -
  obtain us where us: "json_unpack_ex J config socket_unpack_format = (True, us)"
    using assms(2) by (auto simp: create_socket_listener_def split: prod.splits if_splits)
  have "1 < length socket_unpack_format" "socket_unpack_format ! 1 = Unpack_i ''port'' False" by (simp_all add: socket_unpack_format_def)
  from unpack_okD [OF assms(1) us this] obtain i where i: "unpacked_at us 1 = Some (U_int i)"
    "json_unpack_ex J config [Unpack_i ''port'' False] = (True, [Some (U_int i)])" by blast
  have "li_port (sl_listener sl) = word_of_int i"
    using assms(2) i(1) unfolding create_socket_listener_def us
    by (auto simp: r_bind_return_iff listener_init_port split: option.splits if_splits)
  with i(2) show ?thesis by (simp add: unpacked_port_def unpacked_at_def)
qed

lemma any_create_port:
  assumes "unpack_ok (ee_json env)" and "any_create env o0 decoder f config sh w = r_return (Some l, sh', w')" and "any_join l = Some join"
  shows "(\<exists>r. any_reload l = Some r) \<and> any_port l = word_of_int (unpacked_port (ee_json env) config)"
proof (cases f)
  case Http_factory
  with assms(2) obtain res where res: "create_http_listener0 (ee_http_os env) (ee_mhd_start_ok env) (ee_sizeof_http_listener env) o0 (ee_json env)
      config decoder (sh_responses sh) w = r_return res"
    "Some l = (case sr_loop res of Loop_null \<Rightarrow> None | Loop_zeroed block \<Rightarrow> Some (Http_zeroed block) | Loop_running hl \<Rightarrow> Some (Http_running hl))"
    by (auto simp: r_bind_return_iff)
  with assms(3) obtain hl where "sr_loop res = Loop_running hl" "l = Http_running hl" by (cases "sr_loop res") auto
  with http_listener_port [OF assms(1) res(1)] show ?thesis by simp
qed (use assms in \<open>auto simp: r_bind_return_iff dest: socket_listener_port\<close>)

text \<open>The running HTTP listeners hold a share of the replies.\<close>

fun any_held :: "('w, 'j, 'o, 's) any_listener \<Rightarrow> nat" where
  "any_held (Http_running hl) = 1"
| "any_held _ = 0"

fun engine_held :: "('h, 'l, 'y, 'x, 'g, 'j) engine_listener \<Rightarrow> nat" where
  "engine_held (With_dumb l) = any_held l"
| "engine_held (With_meraki l) = any_held l"
| "engine_held (With_zz l) = any_held l"

lemma any_reload_keeps:
  assumes "any_reload l = Some r" and "r config w = r_return (rc, l', w')"
  shows "any_port l' = any_port l" "any_reload l' \<noteq> None" "any_join l' = None \<longleftrightarrow> any_join l = None" "any_held l' = any_held l"
  using assms by (cases l; auto simp: r_bind_return_iff listener_reload_port)+

lemma engine_reload_keeps:
  assumes "engine_reload l = Some r" and "r config w = r_return (rc, l', w')"
  shows "engine_port l' = engine_port l \<and> engine_reload l' \<noteq> None \<and> (engine_join l' = None \<longleftrightarrow> engine_join l = None) \<and>
    engine_held l' = engine_held l \<and> ew_shared w' = ew_shared w"
proof (cases l)
  case (With_dumb x)
  with assms obtain r0 a b where r: "any_reload x = Some r0" "r0 config (ew_dumb w) = r_return (rc, a, b)" "l' = With_dumb a" "w' = w\<lparr>ew_dumb := b\<rparr>"
    by (auto simp: r_bind_return_iff)
  with any_reload_keeps [OF r(1,2)] With_dumb show ?thesis by simp
next
  case (With_meraki x)
  with assms obtain r0 a b where r: "any_reload x = Some r0" "r0 config (ew_zz w) = r_return (rc, a, b)" "l' = With_meraki a" "w' = w\<lparr>ew_zz := b\<rparr>"
    by (auto simp: r_bind_return_iff)
  with any_reload_keeps [OF r(1,2)] With_meraki show ?thesis by simp
next
  case (With_zz x)
  with assms obtain r0 a b where r: "any_reload x = Some r0" "r0 config (ew_zz w) = r_return (rc, a, b)" "l' = With_zz a" "w' = w\<lparr>ew_zz := b\<rparr>"
    by (auto simp: r_bind_return_iff)
  with any_reload_keeps [OF r(1,2)] With_zz show ?thesis by simp
qed

interpretation eng: listener_objects "engine_ops env" "ee_json env"
  for env :: "('h, 'l, 'y, 'x, 'g, 'j) engine_env"
proof
  fix f d j w l w'
  assume "unpack_ok (ee_json env)" "lo_create (engine_ops env) f d j w = r_return (Some l, w')" "lo_join (engine_ops env) l \<noteq> None"
  then show "lo_reload (engine_ops env) l \<noteq> None \<and> lo_port (engine_ops env) l = word_of_int (unpacked_port (ee_json env) j)"
    by (cases d) (auto simp: engine_ops_def r_bind_return_iff dest: any_create_port)
next
  fix l r j w rc l' w'
  assume "lo_reload (engine_ops env) l = Some r" and run: "r j w = r_return (rc, l', w')"
  then have "engine_reload l = Some r" by (simp add: engine_ops_def)
  from engine_reload_keeps [OF this run]
  show "lo_port (engine_ops env) l' = lo_port (engine_ops env) l \<and> lo_reload (engine_ops env) l' \<noteq> None \<and>
      (lo_join (engine_ops env) l' \<noteq> None \<longleftrightarrow> lo_join (engine_ops env) l \<noteq> None)"
    by (simp add: engine_ops_def)
qed

lemma any_create_holds:
  assumes "any_create env o0 decoder f config sh w = r_return (lo, sh', w')" and "responses_ok n (sh_responses sh)"
    and "os_create_response_ok (ee_http_os env)"
  shows "responses_ok (n + (case lo of None \<Rightarrow> 0 | Some l \<Rightarrow> any_held l)) (sh_responses sh')"
proof (cases f)
  case Http_factory
  with assms(1) obtain res where res: "create_http_listener0 (ee_http_os env) (ee_mhd_start_ok env) (ee_sizeof_http_listener env) o0 (ee_json env)
      config decoder (sh_responses sh) w = r_return res"
    "lo = (case sr_loop res of Loop_null \<Rightarrow> None | Loop_zeroed block \<Rightarrow> Some (Http_zeroed block) | Loop_running hl \<Rightarrow> Some (Http_running hl))"
    "sh' = sh\<lparr>sh_responses := sr_responses res\<rparr>"
    by (auto simp: r_bind_return_iff)
  from create_http_listener0_holds [OF res(1) assms(2,3)] res(2,3) show ?thesis by (cases "sr_loop res") simp_all
qed (use assms in \<open>auto simp: r_bind_return_iff split: option.splits\<close>)

lemma any_join_holds:
  assumes "any_join l = Some join" and "join sh w = r_return (sh', w')" and "responses_ok (any_held l + n) (sh_responses sh)"
  shows "responses_ok n (sh_responses sh')"
proof (cases l)
  case (Http_running hl)
  with assms obtain mem responses where "break_http_loop hl (sh_responses sh) w = r_return (mem, responses, w')" "sh' = sh\<lparr>sh_responses := responses\<rparr>"
    by (auto simp: r_bind_return_iff)
  with break_http_loop_frees assms(3) Http_running show ?thesis by fastforce
qed (use assms in \<open>auto simp: r_bind_return_iff\<close>)

lemma engine_create_holds:
  assumes "engine_create env f d config w = r_return (lo, w')" and "responses_ok n (sh_responses (ew_shared w))"
    and "os_create_response_ok (ee_http_os env)"
  shows "responses_ok (n + (case lo of None \<Rightarrow> 0 | Some l \<Rightarrow> engine_held l)) (sh_responses (ew_shared w'))"
  using assms
  by (cases d) (auto simp: r_bind_return_iff option.case_eq_if dest!: any_create_holds [OF _ assms(2,3)] split: option.splits)

lemma engine_join_holds:
  assumes "engine_join l = Some join" and "join w = r_return w'" and "responses_ok (engine_held l + n) (sh_responses (ew_shared w))"
  shows "responses_ok n (sh_responses (ew_shared w'))"
proof (cases l)
  case (With_dumb x)
  with assms obtain j0 sh b where "any_join x = Some j0" "j0 (ew_shared w) (ew_dumb w) = r_return (sh, b)" "w' = w\<lparr>ew_dumb := b, ew_shared := sh\<rparr>"
    by (auto simp: r_bind_return_iff)
  with any_join_holds [of x j0 "ew_shared w"] assms(3) With_dumb show ?thesis by auto
next
  case (With_meraki x)
  with assms obtain j0 sh b where "any_join x = Some j0" "j0 (ew_shared w) (ew_zz w) = r_return (sh, b)" "w' = w\<lparr>ew_zz := b, ew_shared := sh\<rparr>"
    by (auto simp: r_bind_return_iff)
  with any_join_holds [of x j0 "ew_shared w"] assms(3) With_meraki show ?thesis by auto
next
  case (With_zz x)
  with assms obtain j0 sh b where "any_join x = Some j0" "j0 (ew_shared w) (ew_zz w) = r_return (sh, b)" "w' = w\<lparr>ew_zz := b, ew_shared := sh\<rparr>"
    by (auto simp: r_bind_return_iff)
  with any_join_holds [of x j0 "ew_shared w"] assms(3) With_zz show ?thesis by auto
qed

text \<open>The shared replies are those of the listeners that hold a share of them, if they can be created at all.\<close>

definition replies_held :: "('h, 'l, 'y, 'x, 'g, 'j) engine_env \<Rightarrow> nat \<Rightarrow> ('h, 'l) engine_world \<Rightarrow> bool" where
  "replies_held env n w \<longleftrightarrow> (os_create_response_ok (ee_http_os env) \<longrightarrow> responses_ok n (sh_responses (ew_shared w)))"

lemma any_join_None: "any_join l = None \<Longrightarrow> any_held l = 0"
  by (cases l) simp_all

interpretation replies: listener_resources "engine_ops env" engine_held "replies_held env"
  for env :: "('h, 'l, 'y, 'x, 'g, 'j) engine_env"
proof
  show "replies_held env (n + (case lo of None \<Rightarrow> 0 | Some l \<Rightarrow> engine_held l)) w'"
    if "replies_held env n w" "lo_create (engine_ops env) f d j w = r_return (lo, w')" for n w f d j lo w'
    using that engine_create_holds [of env f d j w lo w' n] by (simp add: replies_held_def engine_ops_def)
  show "replies_held env n w' \<and> engine_held l' = engine_held l"
    if "replies_held env n w" "lo_reload (engine_ops env) l = Some r" "r j w = r_return (rc, l', w')" for n w l r j rc l' w'
    using that engine_reload_keeps [of l r j w rc l' w'] by (simp add: replies_held_def engine_ops_def)
  show "replies_held env n w'"
    if "replies_held env (engine_held l + n) w" "lo_join (engine_ops env) l = Some join" "join w = r_return w'" for l n w join w'
    using that engine_join_holds [of l join w w' n] by (simp add: replies_held_def engine_ops_def)
  show "engine_held l = 0" if "lo_join (engine_ops env) l = None" for l
    using that by (cases l) (auto simp: engine_ops_def any_join_None)
  show "replies_held env n w'"
    if "replies_held env n w" "lo_decoder_init (engine_ops env) d = Some init" "init w = r_return (rc, w')" for n w d init rc w'
    using that by (auto simp: engine_ops_def replies_held_def zz_decoder_def r_bind_return_iff Let_def split: if_splits prod.splits)
  show "replies_held env n w'"
    if "replies_held env n w" "lo_decoder_done (engine_ops env) d = Some don" "don w = r_return w'" for n w d don w'
    using that by (auto simp: engine_ops_def replies_held_def zz_decoder_def r_bind_return_iff split: if_splits)
qed

section \<open>Refused addresses\<close>

text \<open>The addresses that the texts of the configuration stand for; one that is no address stands for what the variable held.\<close>

definition blacklist_addr :: "'j config_env \<Rightarrow> 'j \<Rightarrow> in_addr \<Rightarrow> bool" where
  "blacklist_addr E val a \<longleftrightarrow> (\<exists>addr_string. assert_json_string (ce_json E) val = Inr addr_string \<and>
     (ce_pton E addr_string = Pton_addr a \<or> ce_pton E addr_string = Pton_not_an_address \<and> a = ce_uninit_addr E))"

lemma assert_pton_iff:
  "assert_pton pton dst src = Inr a \<longleftrightarrow> pton src = Pton_addr a \<or> pton src = Pton_not_an_address \<and> a = dst"
  by (auto simp: assert_pton_def split: pton_result.splits)

lemma parse_blacklist_contains:
  "parse_blacklist E vals bl = Inr bl' \<Longrightarrow> in_addr_list_contains bl' a \<longleftrightarrow> in_addr_list_contains bl a \<or> (\<exists>val \<in> set vals. blacklist_addr E val a)"
proof (induction vals arbitrary: bl)
  case (Cons val vals)
  then obtain addr_string b bl1 where b: "assert_json_string (ce_json E) val = Inr addr_string" "assert_pton (ce_pton E) (ce_uninit_addr E) addr_string = Inr b"
    "in_addr_list_add (ce_calloc_ok E) bl b = Inr bl1" "parse_blacklist E vals bl1 = Inr bl'" by (auto simp: c_bind_Inr_iff)
  have "blacklist_addr E val a \<longleftrightarrow> a = b" using b(1,2) by (auto simp: blacklist_addr_def assert_pton_iff)
  with Cons.IH [OF b(4)] blacklist.add_contains [OF b(3)] show ?case by auto
qed simp

section \<open>Properties\<close>

text \<open>C7: after a reload, the ports the program listens on are exactly those of the configuration, each once: the
  listeners whose port is gone were joined, those whose port stayed were kept, and the missing ones were created.\<close>

theorem reload_listens_on_configured_ports:
  fixes env :: "('h, 'l, 'y, 'x, 'g, 'j) engine_env"
  assumes "reload_config (engine_ops env) E gc = r_return gc'" and "gc_config_path gc = Some path" and "ce_load_file E path = Some root"
    and "ce_json E = ee_json env" and "unpack_ok (ee_json env)"
    and "json_unpack_ex (ee_json env) root [Unpack_o ''listeners'' False] = (True, [Some (U_json ls)])"
    and "ports_valid (ee_json env) (json_elements (ee_json env) ls)"
    and "\<forall>l \<in> set (gc_listeners gc'). engine_join l \<noteq> None" and "distinct (map engine_port (gc_listeners gc))"
  shows "set (map engine_port (gc_listeners gc')) = port_of (ee_json env) ` set (json_elements (ee_json env) ls) \<and>
    distinct (map engine_port (gc_listeners gc'))"
proof -
  have run: "reload_listeners (engine_ops env) (ee_json env) root gc = r_return gc'" using assms(1-4) by (simp add: reload_config_def)
  have ops: "lo_port (engine_ops env) = engine_port" "lo_join (engine_ops env) = engine_join" by (simp_all add: engine_ops_def)
  from eng.reload_ports [OF run assms(6,7)] assms(5,8,9) show ?thesis unfolding ops by simp
qed



text \<open>A socket listener with the HTTP or the Meraki decoder faults on the first data it receives, whatever it is:
  the decoders ask for the method and the session of a request, and there is none.\<close>

lemma socket_http_decoders_fault:
  assumes "tc_watcher c = Live p" and "li_decoder l = zz_decoder Z" and "li_decoder m = meraki_decoder J calloc_ok Z topic"
  shows "read_cb response (Recv_data d) select_result write_result l c w = Some (Inl NullDeref) \<and>
    read_cb response (Recv_data d) select_result write_result m c w = Some (Inl NullDeref)"
  using assms
  by (simp add: read_cb_def process_data_received_from_socket_def listener_decode_def zz_decoder_def meraki_decoder_def meraki_decode_def
      zz_callback_def add_key_value_pair_def keyval_list_init_def strcmp0_def Let_def)

section \<open>Witnesses\<close>

definition demo_config :: json where
  "demo_config = J_obj [(''topic'', J_str ''t''), (''listeners'', J_arr [J_obj [(''proto'', J_str ''http''), (''port'', J_int 80)]])]"

definition demo_engine :: "((addr \<times> tommy_hash_t) list, addr list, unit, unit, gen_level list, json) engine_env" where
  "demo_engine = \<lparr>ee_http_os = demo_os 1, ee_mhd_start_ok = (\<lambda>_. True), ee_sizeof_http_listener = 100, ee_socket_os = demo_socket_os,
     ee_socket_fd = 3, ee_bind_ok = True, ee_listen_ok = True, ee_main_loop_ok = True, ee_loop_ok = (\<lambda>_. True),
     ee_json = json_values (\<lambda>_. None), ee_default_topic = Some ''t'', ee_dumb = demo_dumb True, ee_opaque_calloc_ok = True, ee_zz = demo_libs\<rparr>"

definition demo_files :: "json config_env" where
  "demo_files = \<lparr>ce_json = json_values (\<lambda>_. None), ce_load_file = (\<lambda>_. Some demo_config), ce_file_read = (\<lambda>_. None),
     ce_pton = (\<lambda>s. if s = ''bad'' then Pton_not_an_address else Pton_addr (of_nat (length s))), ce_uninit_addr = 0, ce_calloc_ok = True, ce_environ = [], ce_conf_new_ok = True,
     ce_conf_ok = (\<lambda>_ _. True), ce_uninit = (\<lambda>_. NUL), ce_malloc_ok = (\<lambda>_. True), ce_rk_ok = True, ce_topic_new = (\<lambda>_. Some 1)\<rparr>"

definition demo_engine_world :: "((addr \<times> tommy_hash_t) list, addr list) engine_world" where
  "demo_engine_world = \<lparr>ew_zz = demo_world, ew_dumb = \<lparr>dw_open_topics = [], dw_produced = []\<rparr>,
     ew_shared = \<lparr>sh_responses = no_responses, sh_do_shutdown = False\<rparr>\<rparr>"

text \<open>A plain listener with the decoder without sessions.\<close>

definition plain_demo_listener :: "(dumb_world, json, unit, unit) http_daemon_listener \<Rightarrow> bool" where
  "plain_demo_listener hl \<longleftrightarrow> li_decoder (hl_listener hl) = dumb_decoder (demo_dumb True) (Some ''t'') \<and> hl_htpasswd hl = None \<and> \<not> hl_client_tls_cert hl"

lemma demo_create:
  "\<exists>hl sh. any_create demo_engine () (dumb_decoder (demo_dumb True) (Some ''t'')) Http_factory (J_obj [(''proto'', J_str ''http''), (''port'', J_int 80)]) sh0 w =
     r_return (Some (Http_running hl), sh, w) \<and> plain_demo_listener hl"
  by (simp add: demo_engine_def create_http_listener0_def http_args_def json_values_def http_unpack_format_def http_unpack_args_def unpacked_at_def
      http_environ_def env_override_def http_defaults_def demo_os_def start_http_loop_def http_mode_flag_def strcmp0_def load_secrets_def secret_files_def
      secret_slot_of_def start_listener_def listener_init_def dumb_decoder_def run_r_def plain_demo_listener_def Let_def)

abbreviation "demo_http \<equiv> J_obj [(''proto'', J_str ''http''), (''port'', J_int 80)]"

lemma demo_parse_listener:
  "\<exists>hl sh. parse_listener (engine_ops demo_engine) (json_values (\<lambda>_. None)) demo_http (ls, w) =
      r_return (With_dumb (Http_running hl) # ls, w\<lparr>ew_shared := sh\<rparr>) \<and> plain_demo_listener hl"
proof -
  obtain hl sh where c: "any_create demo_engine () (dumb_decoder (demo_dumb True) (Some ''t'')) Http_factory demo_http (ew_shared w) (ew_dumb w) =
     r_return (Some (Http_running hl), sh, ew_dumb w)" "plain_demo_listener hl"
    using demo_create by blast
  have ee: "ee_dumb demo_engine = demo_dumb True" "ee_default_topic demo_engine = Some ''t''" by (simp_all add: demo_engine_def)
  have "parse_listener (engine_ops demo_engine) (json_values (\<lambda>_. None)) demo_http (ls, w) =
      r_return (With_dumb (Http_running hl) # ls, w\<lparr>ew_shared := sh\<rparr>)"
    using c(1) ee by (simp add: parse_listener_def json_values_def unpacked_at_def listener_for_def registered_listeners_def strcmp0_def
        locate_registered_decoder_def registered_decoders_def engine_ops_def del: any_create.simps)
  with c(2) show ?thesis by blast
qed

text \<open>A reload that finds a listener in the file where there was none.\<close>

theorem reload_listens_on_configured_ports_witness:
  "\<exists>gc gc'. gc_listeners gc = [] \<and> reload_config (engine_ops demo_engine) demo_files gc = r_return gc' \<and> set (map engine_port (gc_listeners gc')) = {80}"
proof -
  let ?J = "json_values (\<lambda>_. None)"
  let ?gc = "\<lparr>gc_config_path = Some ''f'', gc_topic = None, gc_blacklist = \<lparr>list_head = []\<rparr>, gc_response = None, gc_listeners = [],
    gc_log_severity = 6, gc_stats = zeroed_stats, gc_world = demo_engine_world\<rparr>"
  obtain hl sh where pl: "parse_listener (engine_ops demo_engine) ?J demo_http ([], demo_engine_world) =
      r_return ([With_dumb (Http_running hl)], demo_engine_world\<lparr>ew_shared := sh\<rparr>)" using demo_parse_listener by blast
  have u: "json_unpack_ex ?J demo_config [Unpack_o ''listeners'' False] = (True, [Some (U_json (J_arr [demo_http]))])"
    and els: "json_elements ?J (J_arr [demo_http]) = [demo_http]" and port: "unpacked_port ?J demo_http = 80"
    by (simp_all add: json_values_def demo_config_def unpacked_port_def unpacked_at_def)
  have run: "reload_config (engine_ops demo_engine) demo_files ?gc = r_return (?gc\<lparr>gc_listeners := [With_dumb (Http_running hl)],
      gc_world := demo_engine_world\<lparr>ew_shared := sh\<rparr>\<rparr>)" (is "_ = r_return ?gc'")
    using pl u els by (simp add: reload_config_def demo_files_def reload_listeners_def unpacked_at_def Let_def)
  have ee: "ee_json demo_engine = ?J" "ce_json demo_files = ?J" "ce_load_file demo_files ''f'' = Some demo_config"
    by (simp_all add: demo_engine_def demo_files_def)
  have valid: "ports_valid ?J (json_elements ?J (J_arr [demo_http]))"
    unfolding els using port by (simp add: ports_valid_def names_listener_def json_values_def unpacked_at_def listener_for_def
        registered_listeners_def strcmp0_def)
  have "set (map engine_port (gc_listeners ?gc')) = port_of ?J ` set (json_elements ?J (J_arr [demo_http])) \<and> distinct (map engine_port (gc_listeners ?gc'))"
    using reload_listens_on_configured_ports [OF run, of "''f''" demo_config "J_arr [demo_http]"] u valid json_values_unpack_ok
    unfolding ee by simp
  then have "set (map engine_port (gc_listeners ?gc')) = {80}" unfolding els by (simp add: port_of_def port)
  moreover have "gc_listeners ?gc = []" by simp
  ultimately show ?thesis using run by blast
qed



end
