(* ===== verification/Program.thy ===== *)
theory Program
  imports Engine
begin

text \<open>
  The whole program: the listeners it keeps are well formed from the start to the end, so that reading the
  configuration, reloading it and shutting down never fault; a program that is told to stop ends; and what a
  listener of the configuration receives is handed over on the topic of the configuration.
\<close>

section \<open>Well-formed listeners\<close>

text \<open>A listener that joining does not fault on: it has the decoder it was created with and, on a socket, its event loop.\<close>

fun any_well_formed :: "('w, 'j, 'o, 's) n2k_decoder \<Rightarrow> ('w, 'j, 'o, 's) any_listener \<Rightarrow> bool" where
  "any_well_formed decoder (Http_running hl) \<longleftrightarrow> li_decoder (hl_listener hl) = decoder"
| "any_well_formed decoder (Http_zeroed block) \<longleftrightarrow> True"
| "any_well_formed decoder (Socket_running sl) \<longleftrightarrow> li_decoder (sl_listener sl) = decoder \<and> sl_event_loop sl"

fun listener_well_formed :: "('h, 'l, 'y, 'x, 'g, 'j) engine_env \<Rightarrow> ('h, 'l, 'y, 'x, 'g, 'j) engine_listener \<Rightarrow> bool" where
  "listener_well_formed env (With_dumb l) \<longleftrightarrow> any_well_formed (dumb_decoder (ee_dumb env) (ee_default_topic env)) l"
| "listener_well_formed env (With_meraki l) \<longleftrightarrow>
     any_well_formed (meraki_decoder (ee_json env) (ee_opaque_calloc_ok env) (ee_zz env) (ee_default_topic env)) l"
| "listener_well_formed env (With_zz l) \<longleftrightarrow> any_well_formed (zz_decoder (ee_zz env)) l"

lemma decoders_opaque_total:
  "opaque_total (dumb_decoder R topic)" "opaque_total (zz_decoder Z)" "opaque_total (meraki_decoder J calloc_ok Z topic)"
  by (auto simp: opaque_total_def dumb_decoder_def zz_decoder_def meraki_decoder_def meraki_opaque_creator_def meraki_opaque_destructor_def Let_def
      split: option.split)

text \<open>
  What the operating system and the libraries have to grant for the listeners to be well formed: the sockets can
  be bound and the event loop of their main thread can be had.
\<close>

definition engine_env_ok :: "('h, 'l, 'y, 'x, 'g, 'j) engine_env \<Rightarrow> ('h \<Rightarrow> (addr \<times> tommy_hash_t) set) \<Rightarrow> bool" where
  "engine_env_ok env E \<longleftrightarrow> jansson_ok (ee_json env) \<and> ee_bind_ok env \<and> ee_listen_ok env \<and> ee_main_loop_ok env \<and> tommy_ok (zl_tommy (ee_zz env)) E"

text \<open>Before its decoders are set up nothing refers to a topic; afterwards the references agree with the database, if there is one.\<close>

definition world_fresh :: "('h, 'l, 'y, 'x, 'g, 'j) engine_env \<Rightarrow> ('h \<Rightarrow> (addr \<times> tommy_hash_t) set) \<Rightarrow> ('h, 'l) engine_world \<Rightarrow> bool" where
  "world_fresh env E w \<longleftrightarrow> engine_env_ok env E \<and> zw_heap (ew_zz w) = (\<lambda>_. None)"

definition world_typed :: "('h, 'l, 'y, 'x, 'g, 'j) engine_env \<Rightarrow> ('h \<Rightarrow> (addr \<times> tommy_hash_t) set) \<Rightarrow> ('h, 'l) engine_world \<Rightarrow> bool" where
  "world_typed env E w \<longleftrightarrow> engine_env_ok env E \<and>
     (zz_topics_db (zw_db (ew_zz w)) = None \<or> (\<exists>ext. topics_held (ee_zz env) E ext (ew_zz w)))"

lemma any_create_typed:
  assumes "opaque_total decoder" and "engine_env_ok env E" and "names_factory (ee_json env) config f"
  shows "\<exists>lo sh'. any_create env o0 decoder f config sh w = r_return (lo, sh', w) \<and> (\<forall>l. lo = Some l \<longrightarrow> any_well_formed decoder l)"
proof (cases "f = Http_factory")
  case True
  obtain res where "create_http_listener0 (ee_http_os env) (ee_mhd_start_ok env) (ee_sizeof_http_listener env) o0 (ee_json env) config decoder
      (sh_responses sh) w = r_return res" "sr_world res = w" "\<And>hl. sr_loop res = Loop_running hl \<Longrightarrow> li_decoder (hl_listener hl) = decoder"
    using create_http_listener0_total [OF assms(1)] by blast
  with True show ?thesis by (auto split: http_loop.split)
next
  case False
  have ok: "jansson_ok (ee_json env)" using assms(2) by (simp add: engine_env_ok_def)
  obtain us proto where p: "json_unpack_ex (ee_json env) config [Unpack_s ''proto'' False, Unpack_s ''decode_as'' True] = (True, us)"
    "set_string (unpacked_at us 0) None = Some proto" "listener_for proto = Some f" using assms(3) by (auto simp: names_factory_def)
  from jansson_ok_string [OF ok p(1), of 0 "''proto''"] p(2)
  have proto: "json_unpack_ex (ee_json env) config [Unpack_s ''proto'' False] = (True, [Some (U_string proto)])" by auto
  have "proto = ''tcp'' \<or> proto = ''ucp''" using p(3) False
    by (auto simp: listener_for_def registered_listeners_def strcmp0_def split: if_splits)
  then have joinable: "any_well_formed decoder (Socket_running (start_socket_thread env sl))" if "li_decoder (sl_listener sl) = decoder" "sl_proto sl = proto" for sl
    using that assms(2) by (elim disjE)
      (simp_all add: engine_env_ok_def start_socket_thread_def main_socket_loop_def createListenSocket_def strcmp0_def main_tcp_loop_start_def Let_def)
  obtain lo where lo: "create_socket_listener (ee_socket_os env) o0 (ee_json env) config decoder w = r_return (lo, w)"
    "\<And>sl. lo = Some sl \<Longrightarrow> li_decoder (sl_listener sl) = decoder \<and>
       json_unpack_ex (ee_json env) config [Unpack_s ''proto'' False] = (True, [Some (U_string (sl_proto sl))])"
    using create_socket_listener_total [OF assms(1) ok] by blast
  have "any_create env o0 decoder f config sh w = r_return (map_option (\<lambda>sl. Socket_running (start_socket_thread env sl)) lo, sh, w)"
    using lo(1) False by (cases f) simp_all
  moreover have "any_well_formed decoder l" if "map_option (\<lambda>sl. Socket_running (start_socket_thread env sl)) lo = Some l" for l
    using lo(2) proto joinable that by (cases lo) auto
  ultimately show ?thesis by blast
qed

text \<open>The library with its listeners and decoders keeps the contract.\<close>

lemma any_reload_typed:
  assumes "opaque_total decoder" and "any_well_formed decoder l" and "any_reload l = Some r"
  shows "\<exists>rc l'. r config w = r_return (rc, l', w) \<and> any_well_formed decoder l'"
proof (cases l)
  case (Http_running hl)
  with assms listener_total(2) [OF assms(1), of "hl_listener hl" config w] show ?thesis by auto
next
  case (Socket_running sl)
  with assms listener_total(2) [OF assms(1), of "sl_listener sl" config w] show ?thesis by auto
qed (use assms in simp)

lemma any_join_typed:
  assumes "opaque_total decoder" and "any_well_formed decoder l" and "any_join l = Some join"
  shows "\<exists>sh'. join sh w = r_return (sh', w)"
  using assms listener_total(3) [OF assms(1)] by (cases l) (auto simp: break_http_loop_def join_listener_socket_def)

lemma opaque_totals:
  "opaque_total (dumb_decoder (ee_dumb env) (ee_default_topic env))"
  "opaque_total (meraki_decoder (ee_json env) (ee_opaque_calloc_ok env) (ee_zz env) (ee_default_topic env))"
  "opaque_total (zz_decoder (ee_zz env))"
  by (simp_all add: decoders_opaque_total)

lemma engine_create_typed:
  assumes "engine_env_ok env E" and "names_factory (ee_json env) config f"
  shows "\<exists>lo w'. engine_create env f d config w = r_return (lo, w') \<and> ew_zz w' = ew_zz w \<and> (\<forall>l. lo = Some l \<longrightarrow> listener_well_formed env l)"
proof (cases d)
  case Dumb_decoder_id
  then show ?thesis using any_create_typed [OF opaque_totals(1) [of env] assms, of "()" "ew_shared w" "ew_dumb w"] by fastforce
next
  case Meraki_decoder_id
  then show ?thesis using any_create_typed [OF opaque_totals(2) [of env] assms, of None "ew_shared w" "ew_zz w"] by fastforce
next
  case Zz_decoder_id
  then show ?thesis using any_create_typed [OF opaque_totals(3) [of env] assms, of "()" "ew_shared w" "ew_zz w"] by fastforce
qed

lemma engine_reload_typed:
  assumes "listener_well_formed env l" and "engine_reload l = Some r"
  shows "\<exists>rc l' w'. r config w = r_return (rc, l', w') \<and> ew_zz w' = ew_zz w \<and> listener_well_formed env l'"
proof (cases l)
  case (With_dumb x)
  then show ?thesis using any_reload_typed [OF opaque_totals(1) [of env], of x _ config "ew_dumb w"] assms by fastforce
next
  case (With_meraki x)
  then show ?thesis using any_reload_typed [OF opaque_totals(2) [of env], of x _ config "ew_zz w"] assms by fastforce
next
  case (With_zz x)
  then show ?thesis using any_reload_typed [OF opaque_totals(3) [of env], of x _ config "ew_zz w"] assms by fastforce
qed

lemma engine_join_typed:
  assumes "listener_well_formed env l" and "engine_join l = Some join"
  shows "\<exists>w'. join w = r_return w' \<and> ew_zz w' = ew_zz w"
proof (cases l)
  case (With_dumb x)
  then show ?thesis using any_join_typed [OF opaque_totals(1) [of env], of x _ "ew_shared w" "ew_dumb w"] assms by fastforce
next
  case (With_meraki x)
  then show ?thesis using any_join_typed [OF opaque_totals(2) [of env], of x _ "ew_shared w" "ew_zz w"] assms by fastforce
next
  case (With_zz x)
  then show ?thesis using any_join_typed [OF opaque_totals(3) [of env], of x _ "ew_shared w" "ew_zz w"] assms by fastforce
qed

lemma done_engine_decoders:
  assumes "zz_decoder_done (zl_tommy (ee_zz env)) (zw_heap (ew_zz w)) (zw_db (ew_zz w)) = Inr H"
  shows "\<exists>w'. done_decoders (engine_ops env) registered_decoders w = r_return w'"
  using assms by (simp add: registered_decoders_def engine_ops_def zz_decoder_def run_r_def)

lemma engine_decoders_typed:
  shows "world_fresh env E w \<Longrightarrow> \<exists>w'. init_decoders (engine_ops env) registered_decoders w = r_return w' \<and> world_typed env E w'"
    and "world_typed env E w \<Longrightarrow> \<exists>w'. done_decoders (engine_ops env) registered_decoders w = r_return w'"
proof -
  let ?T = "zl_tommy (ee_zz env)"
  assume f: "world_fresh env E w"
  then have t: "tommy_ok ?T E" by (simp add: world_fresh_def engine_env_ok_def)
  show "\<exists>w'. init_decoders (engine_ops env) registered_decoders w = r_return w' \<and> world_typed env E w'"
    using f db_inv_start [OF t, of _ "zl_rdkafka (ee_zz env)"]
    by (auto simp: registered_decoders_def engine_ops_def zz_decoder_def zz_decoder_init_def init_zz_database_def topics_db_new_def world_fresh_def
        world_typed_def topics_held_def Let_def)
next
  assume w: "world_typed env E w"
  have "\<exists>H. zz_decoder_done (zl_tommy (ee_zz env)) (zw_heap (ew_zz w)) (zw_db (ew_zz w)) = Inr H"
    using w topics_db_done_keeps_held [of "zl_tommy (ee_zz env)" E "zl_rdkafka (ee_zz env)" "zw_heap (ew_zz w)"]
    by (fastforce simp: world_typed_def engine_env_ok_def topics_held_def zz_decoder_done_def free_valid_zz_database_def)
  then show "\<exists>w'. done_decoders (engine_ops env) registered_decoders w = r_return w'" using done_engine_decoders by blast
qed

interpretation types: typed_listeners "engine_ops env" "ee_json env" "listener_well_formed env" "world_fresh env E" "world_typed env E"
  for env :: "('h, 'l, 'y, 'x, 'g, 'j) engine_env" and E
proof unfold_locales
  have keep: "world_typed env E w \<Longrightarrow> ew_zz w' = ew_zz w \<Longrightarrow> world_typed env E w'" for w w' :: "('h, 'l) engine_world" by (simp add: world_typed_def)
  have ok: "world_typed env E w \<Longrightarrow> engine_env_ok env E" for w by (simp add: world_typed_def)
  show "runs_to (lo_create (engine_ops env) f d j w) (\<lambda>(lo, w'). world_typed env E w' \<and> (\<forall>l. lo = Some l \<longrightarrow> listener_well_formed env l))"
    if "world_typed env E w" "names_factory (ee_json env) j f" for w j f d
    using engine_create_typed [OF ok [OF that(1)] that(2), of d w] keep [OF that(1)] by (auto simp: engine_ops_def)
  show "\<exists>rc l' w'. r j w = r_return (rc, l', w') \<and> world_typed env E w' \<and> listener_well_formed env l'"
    if "world_typed env E w" "listener_well_formed env l" "lo_reload (engine_ops env) l = Some r" for w l r j
    using engine_reload_typed [OF that(2), of r j w] that(3) keep [OF that(1)] by (auto simp: engine_ops_def)
  show "\<exists>w'. join w = r_return w' \<and> world_typed env E w'"
    if "world_typed env E w" "listener_well_formed env l" "lo_join (engine_ops env) l = Some join" for w l join
    using engine_join_typed [OF that(2), of join w] that(3) keep [OF that(1)] by (auto simp: engine_ops_def)
  show "runs_to (init_decoders (engine_ops env) registered_decoders w) (world_typed env E)" if "world_fresh env E w" for w
    using engine_decoders_typed(1) [OF that] by auto
  show "\<exists>w'. done_decoders (engine_ops env) registered_decoders w = r_return w'" if "world_typed env E w" for w
    by (rule engine_decoders_typed(2) [OF that])
qed

text \<open>A configuration whose listeners and world are well formed.\<close>

definition engine_well_formed ::
  "('h, 'l, 'y, 'x, 'g, 'j) engine_env \<Rightarrow> ('h \<Rightarrow> (addr \<times> tommy_hash_t) set) \<Rightarrow> (('h, 'l, 'y, 'x, 'g, 'j) engine_listener, ('h, 'l) engine_world) n2kafka_config \<Rightarrow> bool" where
  "engine_well_formed env E gc \<longleftrightarrow> (\<forall>l \<in> set (gc_listeners gc). listener_well_formed env l) \<and> world_typed env E (gc_world gc)"

lemma engine_well_formed_typed: "types.config_typed env E = engine_well_formed env E"
  by (simp add: fun_eq_iff types.config_typed_def types.all_typed_def engine_well_formed_def)

section \<open>Properties\<close>

text \<open>C8: a run of the program that comes to its end has given back everything the HTTP listeners share, whatever it
  listened on, however often it was reloaded and whichever listeners came and went.\<close>

theorem program_releases_shared_replies:
  fixes env :: "('h, 'l, 'y, 'x, 'g, 'j) engine_env"
  assumes "n2kafka_main (engine_ops env) E reloads signals outq undestroyed argv w = r_return (w', freed)"
    and "os_create_response_ok (ee_http_os env)" and "responses_ok 0 (sh_responses (ew_shared w))"
  shows "responses_ok 0 (sh_responses (ew_shared w'))"
  using replies.n2kafka_main_holds [OF assms(1)] assms(2,3) by (simp add: replies_held_def)



text \<open>C11: signals drive the main loop: with its flags and handlers it does exactly what a loop without them does that reloads
  in the rounds in which a SIGHUP came before it looked, and that stops at the first test behind a SIGINT; a
  SIGHUP that comes while the configuration is reloaded has no effect.\<close>

theorem main_loop_signals:
  "main_loop L E signals 0 \<lparr>mf_do_shutdown = False, mf_do_reload = False\<rparr> gc =
   poll_loop L E (\<lambda>n. (reload_seen signals n, stop_seen signals n)) 0 gc"
  unfolding main_loop_start by (simp add: loop_answers_def [abs_def])

text \<open>C14: the configuration decides what the messages become: a POST request to an HTTP listener with the
  default decoder that the configuration file made the program start becomes one message with the whole body on
  the last topic that the file names, and is answered with exactly one 200.\<close>

theorem configured_topic_messages:
  fixes eng :: "('h, 'l, 'y, 'x, 'g, 'j) engine_env" and env :: "'z http_env"
  assumes "parse_config (engine_ops eng) F path gc = r_return (registered, gc1)" and "engine_well_formed eng E gc"
    and "ce_json F = ee_json eng" and "ce_calloc_ok F" and "ce_load_file F path = Some root"
    and "topic_members (ee_json eng) (json_members (ee_json eng) root) = ts @ [t]" and "ee_default_topic eng = gc_topic gc1"
    and "With_dumb (Http_running hl) \<in> set (gc_listeners gc1)"
    and "request_admitted env (http_listener.truncate hl) con" and "client_addr env con = Some client" and "env_conn_calloc_ok env"
    and "mhd_queue_ok con = (\<lambda>_. True)" and "env_responses env = shared_responses n" and "\<And>k. al_ok (env_al env) k"
    and "du_topic_new (ee_dumb eng) (Some t) = Some rkt" and "du_produce (ee_dumb eng) rkt (concat cs) = RD_KAFKA_RESP_ERR_NO_ERROR"
    and "\<forall>c \<in> set cs. c \<noteq> []" and "length (concat cs) \<le> 2 ^ 31"
  shows "post_request env (http_listener.truncate hl) con url cs w =
    r_return \<lparr>hs_ptr = Cls_null, hs_replies = [accepted_reply], hs_world = w\<lparr>dw_produced := dw_produced w @ [(rkt, concat cs)]\<rparr>\<rparr>"
proof -
  have "jansson_ok (ee_json eng)" using assms(2) by (simp add: engine_well_formed_def world_typed_def engine_env_ok_def)
  then have "engine_well_formed eng E gc1"
    using types.parse_config_typed [of eng E gc F path] assms(1-4) unfolding engine_well_formed_typed by simp
  then have "listener_well_formed eng (With_dumb (Http_running hl))" using assms(8) by (simp only: engine_well_formed_def)
  moreover have "gc_topic gc1 = Some t" using parse_config_topic [OF assms(1,5)] assms(3,6) by simp
  ultimately have dec: "li_decoder (hl_listener (http_listener.truncate hl)) = dumb_decoder (ee_dumb eng) (Some t)"
    using assms(7) by (simp add: http_listener.truncate_def)
  from dumb_post_request [OF assms(9-14) dec assms(15-18)] show ?thesis .
qed

section \<open>Witnesses\<close>

text \<open>A program with a plain HTTP listener that is reloaded in its first round and told to stop in the second.\<close>

definition demo_signals :: "nat \<Rightarrow> loop_signals" where
  "demo_signals n = \<lparr>ls_test = [], ls_poll = (if n = 0 then [SIGHUP] else if n = 1 then [SIGINT] else []), ls_reload = []\<rparr>"

abbreviation "demo_main w' freed \<equiv>
  n2kafka_main (engine_ops demo_engine) demo_files (\<lambda>_. demo_files) demo_signals (\<lambda>_. 0) (\<lambda>_. 0) [''n2kafka'', ''f''] demo_engine_world = r_return (w', freed)"

lemma demo_fresh: "world_fresh demo_engine set demo_engine_world"
  using alist_tommy_ok json_values_ok [of "\<lambda>_. None"]
  by (simp add: world_fresh_def engine_env_ok_def demo_engine_def demo_engine_world_def demo_world_def demo_libs_def)

lemma demo_init:
  "\<exists>gc. init_global_config (engine_ops demo_engine) (ce_calloc_ok demo_files) demo_engine_world = r_return gc \<and> gc_listeners gc = [] \<and>
     gc_response gc = None \<and> gc_stats gc = zeroed_stats \<and> engine_well_formed demo_engine set gc"
proof -
  obtain w where "init_decoders (engine_ops demo_engine) registered_decoders demo_engine_world = r_return w" "world_typed demo_engine set w"
    using engine_decoders_typed(1) [OF demo_fresh] by blast
  then show ?thesis by (simp add: init_global_config_def in_addr_list_new_def run_r_def engine_well_formed_def demo_files_def)
qed

lemma demo_kafka:
  "get_rdkafka_config (json_values (\<lambda>_. None)) True (\<lambda>_ _. True) (\<lambda>_. NUL) (\<lambda>_. True) []
     \<lparr>rk_conf = None, statistics_topic = None, extra_buf = None, extra_size = 0\<rparr> topic demo_config =
   Inr (\<lparr>rk_conf = Some [], statistics_topic = None, extra_buf = None, extra_size = 0\<rparr>, Some ''t'')"
proof -
  have "\<not> strcasecmp0 ''listeners'' ''topic'' \<and> \<not> strcasecmp0 ''listeners'' ''brokers'' \<and> \<not> strcasecmp0 ''listener'' ''rdkafka.'' \<and>
      strcasecmp0 ''topic'' ''topic''"
    by code_simp
  moreover have "json_members (json_values (\<lambda>_. None)) demo_config = [(''topic'', J_str ''t''), (''listeners'', the (j_get demo_config ''listeners''))]"
    by (simp add: json_values_def demo_config_def)
  ultimately show ?thesis
    by (simp add: get_rdkafka_config_def json_member_def stats_message_extra_def parse_rdkafka_config_keyval_def stats_add_key_def strcmp0_def
        assert_json_string_def json_values_def)
qed

lemma demo_parse:
  assumes "gc_listeners gc = []" and "gc_response gc = None" and "gc_stats gc = zeroed_stats"
  shows "\<exists>registered gc1 hl. parse_config (engine_ops demo_engine) demo_files ''f'' gc = r_return (registered, gc1) \<and>
    gc_listeners gc1 = [With_dumb (Http_running hl)] \<and> plain_demo_listener hl \<and> gc_topic gc1 = Some ''t''"
proof -
  let ?J = "json_values (\<lambda>_. None)"
  obtain hl sh where c: "parse_listener (engine_ops demo_engine) ?J demo_http ([], gc_world gc) =
      r_return ([With_dumb (Http_running hl)], gc_world gc\<lparr>ew_shared := sh\<rparr>)" "plain_demo_listener hl"
    using demo_parse_listener by blast
  then have pl: "parse_listeners (engine_ops demo_engine) ?J [demo_http] ([], gc_world gc) =
      r_return ([With_dumb (Http_running hl)], gc_world gc\<lparr>ew_shared := sh\<rparr>)" by simp
  have u: "json_unpack_ex ?J demo_config [Unpack_i ''debug'' True, Unpack_s ''response'' True, Unpack_o ''blacklist'' True,
      Unpack_o ''listeners'' False] = (True, [None, None, None, Some (U_json (J_arr [demo_http]))])"
    and els: "json_elements ?J (J_arr [demo_http]) = [demo_http]" by (simp_all add: json_values_def demo_config_def)
  show ?thesis
    using assms c(2) pl
    by (simp add: parse_config_def demo_files_def demo_kafka u els init_rdkafka_def zeroed_stats_def unpacked_at_def run_r_def Let_def del: parse_listeners.simps)
qed

text \<open>Reloading the file is not fatal, whatever the program listens on.\<close>

lemma demo_reload:
  assumes "engine_well_formed demo_engine set gc"
  shows "reload_config (engine_ops demo_engine) demo_files gc \<noteq> Some (Inl Exited)"
proof -
  let ?J = "json_values (\<lambda>_. None)"
  have ee: "ee_json demo_engine = ?J" "ce_json demo_files = ?J" "\<And>p. ce_load_file demo_files p = Some demo_config"
    by (simp_all add: demo_engine_def demo_files_def)
  have u: "json_unpack_ex ?J demo_config [Unpack_o ''listeners'' False] = (True, [Some (U_json (J_arr [demo_http]))])"
    and els: "json_elements ?J (J_arr [demo_http]) = [demo_http]" by (simp_all add: json_values_def demo_config_def)
  have "types.all_typed demo_engine set (gc_listeners gc, gc_world gc)"
    using assms unfolding engine_well_formed_typed [symmetric] types.config_typed_def .
  then obtain ls w where "reload_listeners_check_already_present (engine_ops demo_engine) ?J [demo_http] (gc_listeners gc) (gc_world gc) = r_return (ls, w)"
    using types.present_typed [of demo_engine set "gc_listeners gc" "gc_world gc" "[demo_http]"] unfolding ee by auto
  moreover obtain hl sh where "parse_listener (engine_ops demo_engine) ?J demo_http (ls, w) = r_return (With_dumb (Http_running hl) # ls, w\<lparr>ew_shared := sh\<rparr>)"
    using demo_parse_listener by blast
  ultimately show ?thesis
    by (cases "gc_config_path gc") (simp_all add: reload_config_def ee reload_listeners_def u els unpacked_at_def Let_def)
qed

lemma demo_started:
  obtains gc registered gc1 hl where "init_global_config (engine_ops demo_engine) (ce_calloc_ok demo_files) demo_engine_world = r_return gc"
    "engine_well_formed demo_engine set gc" "parse_config (engine_ops demo_engine) demo_files ''f'' gc = r_return (registered, gc1)"
    "gc_listeners gc1 = [With_dumb (Http_running hl)]" "plain_demo_listener hl" "gc_topic gc1 = Some ''t''"
proof -
  obtain gc where gc: "init_global_config (engine_ops demo_engine) (ce_calloc_ok demo_files) demo_engine_world = r_return gc" "gc_listeners gc = []"
    "gc_response gc = None" "gc_stats gc = zeroed_stats" "engine_well_formed demo_engine set gc" using demo_init by blast
  with demo_parse [OF gc(2-4)] that show thesis by blast
qed

lemma demo_not_help: "\<not> is_asking_help ''f''"
  by (simp add: is_asking_help_def strcmp0_def)

lemma demo_json: "ce_json demo_files = ee_json demo_engine" "\<forall>k::nat. ce_json demo_files = ee_json demo_engine" "ce_calloc_ok demo_files"
  by (simp_all add: demo_files_def demo_engine_def)

lemma demo_ends: "\<exists>m. stop_seen demo_signals m"
proof -
  have "SIGINT \<in> set (round_signals demo_signals 1)" by (simp add: round_signals_def demo_signals_def)
  then have "stop_seen demo_signals 2" unfolding stop_seen_def by force
  then show ?thesis ..
qed


lemma demo_runs: "\<exists>w' freed. demo_main w' freed"
proof -
  obtain gc registered gc1 hl where gc: "init_global_config (engine_ops demo_engine) (ce_calloc_ok demo_files) demo_engine_world = r_return gc"
    "engine_well_formed demo_engine set gc" "parse_config (engine_ops demo_engine) demo_files ''f'' gc = r_return (registered, gc1)"
    "gc_listeners gc1 = [With_dumb (Http_running hl)]" "plain_demo_listener hl" "gc_topic gc1 = Some ''t''"
    by (rule demo_started)
  have "jansson_ok (ee_json demo_engine)" using demo_fresh by (simp add: world_fresh_def engine_env_ok_def)
  from types.n2kafka_main_returns [OF _ _ demo_fresh demo_json(1,2) this demo_json(3) gc(1) _ _ demo_ends, unfolded engine_well_formed_typed,
      where outq = "\<lambda>_. 0" and undestroyed = "\<lambda>_. 0" and argv = "[''n2kafka'', ''f'']"] demo_not_help gc(3) demo_reload
  show ?thesis by auto
qed

theorem program_releases_shared_replies_witness: "\<exists>w' freed. demo_main w' freed \<and> responses_ok 0 (sh_responses (ew_shared w'))"
proof -
  obtain w' freed where run: "demo_main w' freed" using demo_runs by blast
  have "responses_ok 0 (sh_responses (ew_shared w'))"
    by (rule program_releases_shared_replies [OF run]) (simp_all add: demo_engine_def demo_os_def demo_engine_world_def responses_ok_def)
  with run show ?thesis by blast
qed


theorem configured_topic_messages_witness:
  "\<exists>gc1 hl. gc_listeners gc1 = [With_dumb (Http_running hl)] \<and> (\<exists>gc r. parse_config (engine_ops demo_engine) demo_files ''f'' gc = r_return (r, gc1)) \<and>
     post_request log_env (http_listener.truncate hl) plain_con ''/x'' [''ab'', ''c''] \<lparr>dw_open_topics = [], dw_produced = []\<rparr> =
       r_return \<lparr>hs_ptr = Cls_null, hs_replies = [accepted_reply], hs_world = \<lparr>dw_open_topics = [], dw_produced = [(1, ''abc'')]\<rparr>\<rparr>"
proof -
  obtain gc registered gc1 hl where gc: "init_global_config (engine_ops demo_engine) (ce_calloc_ok demo_files) demo_engine_world = r_return gc"
    "engine_well_formed demo_engine set gc" "parse_config (engine_ops demo_engine) demo_files ''f'' gc = r_return (registered, gc1)"
    "gc_listeners gc1 = [With_dumb (Http_running hl)]" "plain_demo_listener hl" "gc_topic gc1 = Some ''t''"
    by (rule demo_started)
  have "strcasecmp0 ''topic'' ''topic''" "\<not> strcasecmp0 ''listeners'' ''topic''" by code_simp+
  then have topic: "topic_members (ee_json demo_engine) (json_members (ee_json demo_engine) demo_config) = [] @ [''t'']"
    by (simp add: topic_members_def demo_engine_def json_values_def demo_config_def List.map_filter_simps)
  have adm: "request_admitted log_env (http_listener.truncate hl) plain_con"
    using gc(5) plain_con_ok(2) by (simp add: request_admitted_def plain_demo_listener_def http_listener.truncate_def)
  have ee: "ce_load_file demo_files ''f'' = Some demo_config" "ee_default_topic demo_engine = gc_topic gc1" "With_dumb (Http_running hl) \<in> set (gc_listeners gc1)"
    using gc(4,6) by (simp_all add: demo_files_def demo_engine_def)
  have "post_request log_env (http_listener.truncate hl) plain_con ''/x'' [''ab'', ''c''] \<lparr>dw_open_topics = [], dw_produced = []\<rparr> =
       r_return \<lparr>hs_ptr = Cls_null, hs_replies = [accepted_reply], hs_world = \<lparr>dw_open_topics = [], dw_produced = [(1, ''abc'')]\<rparr>\<rparr>"
    using configured_topic_messages [OF gc(3,2) demo_json(1,3) ee(1) topic ee(2,3) adm plain_con_ok(2,3,5,6) demo_dumb_admitted(2), of 1 "[''ab'', ''c'']"]
    by (simp add: demo_engine_def demo_dumb_def)
  with gc(3,4) show ?thesis by blast
qed

end
