(* ===== verification/Spec2Isabelle.thy ===== *)
theory Spec2Isabelle
  imports Json_Escape Pair In_Addr_List Kafka_Message_Array Topic_Database Zz_Http Program
begin

text \<open>
  A verification library of n2kafka, a program that listens for messages and hands them to Apache Kafka
  through librdkafka. This theory imports the others and holds the properties of whole HTTP requests; every
  other theory opens with a text that says what it holds.

  \<^bold>\<open>The program.\<close> A configuration file (\<^verbatim>\<open>src/engine/global_config.c\<close>) names listeners, each with a decoder.
  Listeners (\<^verbatim>\<open>src/listener/\<close>) receive data over HTTP, TCP or UDP and give it to their decoder piece by piece;
  decoders (\<^verbatim>\<open>src/decoder/\<close>) cut it into messages, look their topic up in a database shared by all threads, and
  produce them in batches whose memory the delivery reports of librdkafka release (\<^verbatim>\<open>src/util/\<close>). A signal reloads
  the configuration while the program runs.

  \<^bold>\<open>Conventions.\<close> An operation that can fault returns a \<open>c_result\<close> (\<open>Prelude\<close>): \<open>Inl\<close> of a null dereference, a use after
  free, a double free, an access outside an array or an exit, or \<open>Inr\<close> of its result. One that may also run
  forever returns a \<open>c_run\<close>, where not returning is \<open>None\<close>; its loops are partial functions, so that no fuel is
  needed anywhere and a property that something returns is an equation with \<open>r_return\<close>. Null pointers are
  options or the address 0, machine integers are words of their width where they can wrap, memory that is
  shared or freed is a map from addresses to cells that are live or freed. Assertions are taken as switched
  off. Libraries (librdkafka, libmicrohttpd, zlib, yajl, expat, gnutls, tommyds, jansson, libev) and the
  answers of the system are arguments of the definitions; what is relied on of them is a named hypothesis,
  and every property with hypotheses has a witness on concrete functions.

  \<^bold>\<open>Theories.\<close>
  \<^item> \<open>CString\<close>, \<open>Json_Escape\<close>: the growing string and the escaping of JSON text of \<^verbatim>\<open>util/string.c\<close>; appending is all
    or nothing, escaped text is read back as the text.
  \<^item> \<open>Pair\<close>, \<open>In_Addr_List\<close>: the property list of \<^verbatim>\<open>util/pair.c\<close> and the address list of \<^verbatim>\<open>util/in_addr_list.c\<close>, with
    the locale \<open>address_set\<close> as its interface.
  \<^item> \<open>Refcount\<close>, \<open>Kafka_Message_Array\<close>: reference counting, and the batch of messages of
    \<^verbatim>\<open>util/kafka_message_array.c\<close>: references of a produced batch, also when delivery reports interleave.
  \<^item> \<open>Topic_Database\<close>: \<^verbatim>\<open>util/topic_database.c\<close> and its wrapper; lookups, the purge of old topics, and the
    reference counts under any interleaving of threads.
  \<^item> \<open>Decoder_Api\<close>, \<open>Json_Parser\<close>, \<open>Xml_Parser\<close>, \<open>Xml_Document\<close>, \<open>Zz_Decoder\<close>: the HTTP decoder of
    \<^verbatim>\<open>decoder/zz_http2k/\<close>. The messages of a JSON request are its outermost objects, however it is cut into chunks;
    those of a chunk of XML are the JSON that the trees of its documents describe.
  \<^item> \<open>Dumb_Decoder\<close>, \<open>Meraki_Decoder\<close>: the other decoders.
  \<^item> \<open>Listener_Api\<close>: \<^verbatim>\<open>listener/listener_api.c\<close> and the locale \<open>session_decoder\<close>, the contract between a listener and a
    decoder with sessions, which \<open>Zz_Http\<close> and \<open>Meraki_Decoder\<close> interpret.
  \<^item> \<open>Http_Auth\<close>, \<open>Http_Support\<close>, \<open>Http\<close>, \<open>Http_Request\<close>: passwords, client certificates and replies, and the handlers of
    \<^verbatim>\<open>listener/http/http.c\<close>, composed into whole requests in the order libmicrohttpd calls them.
  \<^item> \<open>Zz_Http\<close>: the HTTP decoder behind the HTTP listener, down to what librdkafka is handed.
  \<^item> \<open>Http_Config\<close>: \<^verbatim>\<open>listener/http/http_config.c\<close>; the options, the secrets in one block, starting and stopping.
  \<^item> \<open>Socket\<close>: \<^verbatim>\<open>listener/socket/socket.c\<close>; connections, workers and the sequences of events their loops see.
  \<^item> \<open>Kafka_Client\<close>: \<^verbatim>\<open>util/kafka.c\<close>; delivery reports, statistics, starting and stopping librdkafka.
  \<^item> \<open>Jansson\<close>, \<open>Rdkafka_Config\<close>, \<open>Global_Config\<close>: the JSON library as a parameter and the configuration, with three
    contracts of listeners: \<open>listener_objects\<close> (ports), \<open>listener_resources\<close> (what listeners share) and \<open>typed_listeners\<close>
    (well-formed listeners do not fault); the signal handlers and the main loop of \<^verbatim>\<open>engine/n2kafka.c\<close>, which does what
    a loop without flags does (\<open>poll_loop\<close>).
  \<^item> \<open>Engine\<close>: the listeners of the program with their decoders as the instance of the first two contracts, the ports
    after a reload and the refused addresses.
  \<^item> \<open>Program\<close>: the instance of the third contract and the whole program: it keeps its listeners well formed, gives back
    what they share, ends when it is told to, and hands messages over on the topic of its configuration.

  \<^bold>\<open>What the properties say.\<close> Most state what the code is for: from the bytes of a request to the messages handed
  over, references and shared memory in every reachable state, ports after a reload, the turns of the workers,
  the end of the program. Others state where the code does not do what it is for, as equations with a fault or
  with \<open>None\<close>: refused messages of the decoder without sessions, a first response that fails, passwords of one
  user, UDP.

  \<^bold>\<open>Not modelled.\<close> Text that is only logged or printed, and the usage; the polling of librdkafka, whose effect
  is the callbacks; the options of sockets; the libraries and the build. Times are the arguments of the
  operations that ask for them, and threads are interleavings of the steps that a mutex, an atomic operation
  or an event loop makes indivisible.
\<close>

section \<open>Requests from the listener to librdkafka\<close>

text \<open>C1: a POST request with JSON that the listener admits and the decoder opens a session for is answered
  with exactly one 200, whatever the chunks it arrives in; librdkafka is handed exactly the outermost
  objects of the body, byte for byte and in order, on the topic that the URL and the consumer name; and
  afterwards every topic has the references it had before.\<close>

theorem http_json_request:
  fixes env :: "'z http_env" and Z :: "('h, 'l, 'y, 'x, 'g) zz_libs"
  assumes "plain_post env hl con client" and "props = request_props con ''POST'' url (Some client)"
    and "li_decoder (hl_listener hl) = zz_decoder Z"
    and "valueof props ''D-HTTP-method'' strcmp0 = Some ''POST''" and "valueof props ''D-HTTP-URI'' strcmp0 = Some uri"
    and "\<not> is_xml_content_type (valueof props ''Content-type'' strcasecmp0)"
    and "zz_libs_ok Z E" and "\<And>p. ext p + 3 < 2 ^ 64" and "topics_held Z E ext w"
    and "vnew_zz_session Z (li_decoder_opaque (hl_listener hl)) props w = r_return (0, Some s, w1)"
    and "\<And>h. zl_yajl_alloc Z (zw_calls w) = Some h \<Longrightarrow> yajl_stream (zl_yajl_parse Z) h (concat cs) evs"
    and "\<forall>c \<in> set cs. c \<noteq> []" and "zz_provides Z cs" and "16 + 72 * length (concat cs) \<le> 2 ^ 31"
  shows "\<exists>rkt topic w'. post_request env hl con url cs w =
      r_return \<lparr>hs_ptr = Cls_null, hs_replies = [accepted_reply], hs_world = w'\<rparr> \<and>
    extract_url_topic uri = Some topic \<and>
    rd_kafka_topic_name (zl_rdkafka Z) rkt = make_uuid_topic (valueof props ''X-Consumer-ID'' strcasecmp0) topic \<and>
    zw_handed w' = zw_handed w @ map (\<lambda>r. (rkt, slice (concat cs) r)) (ob_done (objects evs)) \<and>
    topics_held Z E ext w'"
proof -
  have "zz_idle Z E ext w" using assms(7-9) by (simp add: zz_idle_def)
  moreover have "dec_new_session (li_decoder (hl_listener hl)) = Some (vnew_zz_session Z)" using assms(3) by (simp add: zz_decoder_def)
  ultimately show ?thesis
    using http_json_request_run [OF assms(1,2) zz_decoder_decodes [OF assms(3)] assms(4) _ _ assms(5,6) _ _ assms(11-)] assms(10)
    unfolding zz_idle_def by simp
qed

text \<open>C3: in every state a POST request can reach, with chunks of any size, compressed or not, JSON or XML,
  accepted or refused, with or without memory, and broken off at any moment, the request holds exactly one
  reference of its topic while it has a session and none otherwise; when the request is over it holds
  none.\<close>

theorem post_request_topic_refs:
  fixes env :: "'z http_env" and Z :: "('h, 'l, 'y, 'x, 'g) zz_libs"
  assumes "zz_libs_ok Z E" and "\<And>p. ext p + 3 < 2 ^ 64" and "topics_held Z E ext w"
    and "li_decoder (hl_listener hl) = zz_decoder Z" and "post_reachable env hl con url w (ph, st)"
  shows "(case hs_ptr st of
       Cls_null \<Rightarrow> topics_held Z E ext (hs_world st)
     | Cls_one \<Rightarrow> False
     | Cls_conn ci \<Rightarrow> \<exists>s. ci_decoder_sess ci = Some s \<and>
         topics_held Z E (ext(session_topic s := ext (session_topic s) + 1)) (hs_world st)) \<and>
    (ph = Over \<longrightarrow> topics_held Z E ext (hs_world st))"
proof -
  have "zz_idle Z E ext w" using assms(1-3) by (simp add: zz_idle_def)
  from zz.post_reachable_inv [OF assms(5,4) this] show ?thesis
    by (auto simp: session_inv_def session_held_def zz_idle_def zz_busy_def split: con_cls.splits)
qed

section \<open>Witnesses\<close>

definition demo_listener ::
  "(((addr \<times> tommy_hash_t) list, addr list) zz_world, unit, unit, (unit, unit, gen_level list) zz_any_session) http_listener" where
  "demo_listener = \<lparr>hl_listener = \<lparr>li_decoder = zz_decoder demo_libs, li_decoder_opaque = (), li_port = 80\<rparr>,
     hl_htpasswd = None, hl_client_tls_cert = False\<rparr>"

abbreviation demo_props :: keyval_list where
  "demo_props \<equiv> request_props demo_con ''POST'' ''/v1/data/t'' (Some ''::1'')"

lemma demo_post: "plain_post log_env demo_listener demo_con ''::1''"
  by (auto simp: plain_post_def request_admitted_def client_addr_def sockaddr2str_def demo_con_def plain_con_def
      demo_listener_def log_env_def compressed_request_def)

lemma demo_lookup:
  "valueof demo_props ''D-HTTP-method'' strcmp0 = Some ''POST''" "valueof demo_props ''D-HTTP-URI'' strcmp0 = Some ''/v1/data/t''"
  "valueof demo_props ''X-Consumer-ID'' strcasecmp0 = None" "valueof demo_props ''Content-type'' strcasecmp0 = None"
  by (simp_all add: request_props_def demo_con_def plain_con_def listener_options_def strcmp0_def strcasecmp0_def tolower_def)

theorem http_json_request_witness:
  "\<exists>rkt w'. post_request log_env demo_listener demo_con ''/v1/data/t'' [''{a}{'', ''b}''] demo_world =
      r_return \<lparr>hs_ptr = Cls_null, hs_replies = [accepted_reply], hs_world = w'\<rparr> \<and>
    zw_handed w' = [(rkt, ''{a}''), (rkt, ''{b}'')]"
proof -
  obtain s w1 where o: "vnew_zz_session demo_libs () demo_props demo_world = r_return (0, Some s, w1)" using demo_opens [OF demo_lookup(2-4)] by blast
  have dec: "li_decoder (hl_listener demo_listener) = zz_decoder demo_libs" "li_decoder_opaque (hl_listener demo_listener) = ()"
    by (simp_all add: demo_listener_def)
  have y: "yajl_stream (zl_yajl_parse demo_libs) h (concat [''{a}{'', ''b}'']) (brace_events 0 ''{a}{b}'')" for h
    using brace_stream [of "''{a}{b}''"] by (simp add: demo_libs_def)
  from http_json_request [OF demo_post refl dec(1) demo_lookup(1,2) _ demo_libs_ok _ demo_topics_held _ y _ demo_provides, of s w1]
    o dec(2) show ?thesis
    by (simp add: demo_lookup is_xml_content_type_def demo_world_def objects_def slice_def) blast
qed

theorem post_request_topic_refs_witness:
  "\<exists>st ci s. post_reachable log_env demo_listener demo_con ''/v1/data/t'' demo_world (Receiving, st) \<and> hs_ptr st = Cls_conn ci \<and>
     ci_decoder_sess ci = Some s \<and> topics_held demo_libs set ((\<lambda>_. 0)(session_topic s := 1)) (hs_world st)"
proof -
  obtain s w1 where o: "vnew_zz_session demo_libs () demo_props demo_world = r_return (0, Some s, w1)" using demo_opens [OF demo_lookup(2-4)] by blast
  obtain ci :: "(bytes, (unit, unit, gen_level list) zz_any_session) conn_info" and e
    where ci: "create_connection_info log_env demo_con ''POST'' ''/v1/data/t'' (Some ''::1'') = (Some ci, e)"
      "ci_decoder_params ci = demo_props"
    using create_connection_info_spec [of log_env demo_con "''POST''" "''/v1/data/t''" "Some ''::1''"] demo_post
    by (metis plain_post_def)
  let ?st = "\<lparr>hs_ptr = Cls_conn (ci\<lparr>ci_decoder_sess := Some s\<rparr>), hs_replies = [], hs_world = w1\<rparr>"
  have dec: "li_decoder (hl_listener demo_listener) = zz_decoder demo_libs" "li_decoder_opaque (hl_listener demo_listener) = ()"
    by (simp_all add: demo_listener_def)
  have "handle_request log_env demo_listener demo_con ''/v1/data/t'' ''POST'' [] \<lparr>hs_ptr = Cls_null, hs_replies = [], hs_world = demo_world\<rparr> =
      r_return (True, ?st)"
    using demo_post ci o dec
    by (simp add: handle_http_post_init_admitted plain_post_def handle_request_def strcmp0_def handle_post_def open_connection_def zz_decoder_def)
  from step_open [OF this]
  have "post_step log_env demo_listener demo_con ''/v1/data/t''
      (Opening, \<lparr>hs_ptr = Cls_null, hs_replies = [], hs_world = demo_world\<rparr>) (Receiving, ?st)" by simp
  from reach_step [OF reach_start this]
  have r: "post_reachable log_env demo_listener demo_con ''/v1/data/t'' demo_world (Receiving, ?st)" .
  from post_request_topic_refs [OF demo_libs_ok _ demo_topics_held dec(1) r] r show ?thesis by auto
qed

end
